(* ===== verification/Prelude.thy ===== *)
theory Prelude
  imports Main "HOL-Library.Word" "HOL-Library.AList"
begin

text \<open>
  What every component shares: the types of Python values the program handles
  (bytes, strings of code points), the exceptions it raises as values, the
  state-and-exception computations of the database layer, Python dictionaries
  as association lists, the collections of facts the component proofs use, and
  the round-trip interface \<open>codec\<close>.
\<close>

section \<open>Types\<close>

text \<open>A Python \<open>bytes\<close> object is a list of octets, a Python \<open>str\<close> is a list of
  code points, times are unbounded integers (epoch seconds).\<close>

type_synonym byte = "8 word"
type_synonym bytes = "byte list"
type_synonym pystr = "nat list"
type_synonym time = int

text \<open>A string literal of the source.\<close>

definition lit :: "string \<Rightarrow> pystr" where
  "lit s = map of_char s"

section \<open>Exceptions as values\<close>

text \<open>
  The exceptions that can leave a function of the program: the domain errors of
  \<open>staykey/errors.py\<close>, and the built-in ones its calls can raise. The message
  text is not kept.
\<close>

datatype exn =
    StayKeyError | RoomUnavailableError | NotFoundError | ValidationError
  | ValueError | TypeError | KeyError | IndexError | AttributeError | OverflowError | ZeroDivisionError | AssertionError | IntegrityError | RecursionError

text \<open>\<open>except StayKeyError\<close> also catches its subclasses.\<close>

definition is_domain_error :: "exn \<Rightarrow> bool" where
  "is_domain_error e \<longleftrightarrow>
     e = StayKeyError \<or> e = RoomUnavailableError \<or> e = NotFoundError \<or> e = ValidationError"

text \<open>
  A call that reads and writes a state and may raise: the state it leaves is
  given on both paths, since the database runs in autocommit mode and what was
  written before a raise stays written.
\<close>

type_synonym ('s, 'a) exec = "'s \<Rightarrow> (exn + 'a) \<times> 's"

definition ret :: "'a \<Rightarrow> ('s, 'a) exec" where
  "ret x s = (Inr x, s)"

definition raise :: "exn \<Rightarrow> ('s, 'a) exec" where
  "raise e s = (Inl e, s)"

definition bindE :: "('s, 'a) exec \<Rightarrow> ('a \<Rightarrow> ('s, 'b) exec) \<Rightarrow> ('s, 'b) exec" where
  "bindE m f s = (case m s of (Inl e, s') \<Rightarrow> (Inl e, s') | (Inr x, s') \<Rightarrow> f x s')"

definition thenE :: "('s, 'a) exec \<Rightarrow> ('s, 'b) exec \<Rightarrow> ('s, 'b) exec" where
  "thenE m k = bindE m (\<lambda>_. k)"

lemma ret_simp [simp]: "ret x s = (Inr x, s)"
  by (simp add: ret_def)

lemma raise_simp [simp]: "raise e s = (Inl e, s)"
  by (simp add: raise_def)

lemma bindE_Inr [simp]: "m s = (Inr x, s') \<Longrightarrow> bindE m f s = f x s'"
  by (simp add: bindE_def)

lemma bindE_Inl [simp]: "m s = (Inl e, s') \<Longrightarrow> bindE m f s = (Inl e, s')"
  by (simp add: bindE_def)

lemma thenE_Inr [simp]: "m s = (Inr x, s') \<Longrightarrow> thenE m k s = k s'"
  by (simp add: thenE_def)

lemma thenE_Inl [simp]: "m s = (Inl e, s') \<Longrightarrow> thenE m k s = (Inl e, s')"
  by (simp add: thenE_def)

lemma bindE_cases:
  assumes "bindE m f s = (r, t)"
  obtains (raised) e where "m s = (Inl e, t)" "r = Inl e"
        | (returned) x s' where "m s = (Inr x, s')" "f x s' = (r, t)"
  using assms by (auto simp: bindE_def split: prod.splits sum.splits)

lemma thenE_cases:
  assumes "thenE m k s = (r, t)"
  obtains (raised) e where "m s = (Inl e, t)" "r = Inl e"
        | (returned) x s' where "m s = (Inr x, s')" "k s' = (r, t)"
  using assms by (auto simp: thenE_def elim: bindE_cases)

section \<open>What a computation keeps\<close>

text \<open>\<open>keeps P m\<close>: on every path, raising or not, the call leaves a state with \<open>P\<close>.\<close>

definition keeps :: "('s \<Rightarrow> bool) \<Rightarrow> ('s, 'a) exec \<Rightarrow> bool" where
  "keeps P m \<longleftrightarrow> (\<forall>s. P s \<longrightarrow> P (snd (m s)))"

named_theorems keeps_intros

lemma keepsD: "keeps P m \<Longrightarrow> P s \<Longrightarrow> m s = (r, t) \<Longrightarrow> P t"
  by (metis keeps_def snd_conv)

lemma keepsI: "(\<And>s r t. P s \<Longrightarrow> m s = (r, t) \<Longrightarrow> P t) \<Longrightarrow> keeps P m"
  unfolding keeps_def by (metis prod.collapse)

lemma keeps_ret [keeps_intros]: "keeps P (ret x)"
  by (simp add: keeps_def)

lemma keeps_raise [keeps_intros]: "keeps P (raise e)"
  by (simp add: keeps_def)

lemma keeps_bindE [keeps_intros]:
  assumes "keeps P m" and "\<And>x. keeps P (f x)"
  shows "keeps P (bindE m f)"
proof (rule keepsI)
  fix s r t
  assume "P s" and run: "bindE m f s = (r, t)"
  from run show "P t"
  proof (cases rule: bindE_cases)
    case raised
    then show ?thesis using keepsD [OF assms(1) \<open>P s\<close>] by simp
  next
    case (returned x s')
    have "P s'" by (rule keepsD [OF assms(1) \<open>P s\<close> returned(1)])
    then show ?thesis using keepsD [OF assms(2)] returned(2) by blast
  qed
qed

text \<open>Where the continuation relies on what the first call returned.\<close>

lemma keeps_bindE_post:
  assumes "keeps P m" and "\<And>s x t. P s \<Longrightarrow> m s = (Inr x, t) \<Longrightarrow> Q x" and "\<And>x. Q x \<Longrightarrow> keeps P (f x)"
  shows "keeps P (bindE m f)"
proof (rule keepsI)
  fix s r t
  assume "P s" and run: "bindE m f s = (r, t)"
  from run show "P t"
  proof (cases rule: bindE_cases)
    case raised
    then show ?thesis using keepsD [OF assms(1) \<open>P s\<close>] by simp
  next
    case (returned x s')
    have "P s'" by (rule keepsD [OF assms(1) \<open>P s\<close> returned(1)])
    then show ?thesis
      using keepsD [OF assms(3) [OF assms(2) [OF \<open>P s\<close> returned(1)]] _ returned(2)] by blast
  qed
qed

lemma keeps_thenE [keeps_intros]:
  assumes "keeps P m" and "keeps P k"
  shows "keeps P (thenE m k)"
  unfolding thenE_def by (intro keeps_bindE assms)

lemma keeps_if [keeps_intros]:
  "(b \<Longrightarrow> keeps P m) \<Longrightarrow> (\<not> b \<Longrightarrow> keeps P k) \<Longrightarrow> keeps P (if b then m else k)"
  by simp

lemma keeps_case_option [keeps_intros]:
  "(x = None \<Longrightarrow> keeps P m) \<Longrightarrow> (\<And>y. x = Some y \<Longrightarrow> keeps P (k y)) \<Longrightarrow>
     keeps P (case x of None \<Rightarrow> m | Some y \<Rightarrow> k y)"
  by (cases x) auto

lemma keeps_case_sum [keeps_intros]:
  "(\<And>e. x = Inl e \<Longrightarrow> keeps P (m e)) \<Longrightarrow> (\<And>y. x = Inr y \<Longrightarrow> keeps P (k y)) \<Longrightarrow>
     keeps P (case x of Inl e \<Rightarrow> m e | Inr y \<Rightarrow> k y)"
  by (cases x) auto

lemma keeps_case_prod [keeps_intros]:
  "(\<And>a b. x = (a, b) \<Longrightarrow> keeps P (m a b)) \<Longrightarrow> keeps P (case x of (a, b) \<Rightarrow> m a b)"
  by (cases x) auto

text \<open>A call that also reads the state it starts from.\<close>

lemma keeps_apply: "keeps P m \<Longrightarrow> P s \<longrightarrow> P (snd (m s))"
  by (simp add: keeps_def)

lemma keeps_reader:
  assumes "\<And>s. h s = m s s" and "\<And>s. keeps P (m s)"
  shows "keeps P h"
  using assms by (simp add: keeps_def)

text \<open>A loop over a list that calls for the effect only.\<close>

primrec for_each :: "('a \<Rightarrow> ('s, unit) exec) \<Rightarrow> 'a list \<Rightarrow> ('s, unit) exec" where
  "for_each f [] = ret ()"
| "for_each f (x # xs) = thenE (f x) (for_each f xs)"

lemma keeps_for_each [keeps_intros]: "(\<And>x. keeps P (f x)) \<Longrightarrow> keeps P (for_each f xs)"
  by (induction xs) (auto intro!: keeps_intros)

text \<open>A loop that appends what each round computes to a list.\<close>

primrec for_collect :: "('a \<Rightarrow> ('s, 'b) exec) \<Rightarrow> 'a list \<Rightarrow> ('s, 'b list) exec" where
  "for_collect f [] = ret []"
| "for_collect f (x # xs) = bindE (f x) (\<lambda>y. bindE (for_collect f xs) (\<lambda>ys. ret (y # ys)))"

lemma for_collect_Cons:
  "f x s = (Inr y, s') \<Longrightarrow> for_collect f xs s' = (Inr ys, s'') \<Longrightarrow>
     for_collect f (x # xs) s = (Inr (y # ys), s'')"
  by simp

lemma for_collect_pure:
  assumes "\<And>x s. x \<in> set xs \<Longrightarrow> f x s = (Inr (g x), s)"
  shows "for_collect f xs s = (Inr (map g xs), s)"
  using assms by (induction xs arbitrary: s) (simp_all add: bindE_def)

lemma keeps_for_collect [keeps_intros]: "(\<And>x. keeps P (f x)) \<Longrightarrow> keeps P (for_collect f xs)"
  by (induction xs) (auto intro!: keeps_intros)

text \<open>A read and a write that cannot fail.\<close>

definition query :: "('s \<Rightarrow> 'a) \<Rightarrow> ('s, 'a) exec" where
  "query f s = (Inr (f s), s)"

definition modify :: "('s \<Rightarrow> 's) \<Rightarrow> ('s, unit) exec" where
  "modify g s = (Inr (), g s)"

lemma query_simp [simp]: "query f s = (Inr (f s), s)"
  by (simp add: query_def)

lemma modify_simp [simp]: "modify g s = (Inr (), g s)"
  by (simp add: modify_def)

lemma keeps_query [keeps_intros]: "keeps P (query f)"
  by (simp add: keeps_def)

lemma keeps_modify: "(\<And>s. P s \<Longrightarrow> P (g s)) \<Longrightarrow> keeps P (modify g)"
  by (simp add: keeps_def)

section \<open>Strings\<close>

lemma lit_eq_iff [simp]: "lit s = lit t \<longleftrightarrow> s = t"
  by (simp add: lit_def inj_map_eq_map inj_def)

lemma lit_code_points: "c \<in> set (lit s) \<Longrightarrow> c < 256"
  by (auto simp: lit_def)

section \<open>The round-trip interface\<close>

text \<open>
  An encoder with a partial decoder. Two components of the token format are
  used through it: what is decoded from an encoding is the value itself, so
  encodings of different values differ.
\<close>

locale codec =
  fixes enc :: "'a \<Rightarrow> 'b" and dec :: "'b \<Rightarrow> exn + 'a" and wf :: "'a \<Rightarrow> bool"
  assumes dec_enc: "wf x \<Longrightarrow> dec (enc x) = Inr x"
begin

lemma enc_eq_iff: "wf x \<Longrightarrow> wf y \<Longrightarrow> enc x = enc y \<longleftrightarrow> x = y"
  using dec_enc by (metis Inr_inject)

lemma enc_inj_on: "inj_on enc {x. wf x}"
  by (simp add: inj_on_def enc_eq_iff)

lemma dec_enc_other: "wf x \<Longrightarrow> wf y \<Longrightarrow> x \<noteq> y \<Longrightarrow> dec (enc x) \<noteq> Inr y"
  by (simp add: dec_enc)

end

end
