(* ===== verification/Errors.thy ===== *)
theory Errors
  imports Prelude
begin

text \<open>
  \<open>staykey/config.py\<close> and \<open>staykey/errors.py\<close>: the constants of the key model
  and the decision a verifier returns, with its reason.
\<close>

section \<open>Configuration constants\<close>

definition KEY_TTL_SECONDS :: int where
  "KEY_TTL_SECONDS = 24 * 60 * 60"

definition CHALLENGE_TTL_SECONDS :: int where
  "CHALLENGE_TTL_SECONDS = 30"

definition CHALLENGE_NONCE_BYTES :: int where
  "CHALLENGE_NONCE_BYTES = 32"

definition ALLOWED_DEVICES :: "pystr list" where
  "ALLOWED_DEVICES = [lit ''tv'', lit ''thermostat'', lit ''lights'']"

section \<open>Decisions\<close>

datatype DenyReason =
    FORGED_SIGNATURE | TAMPERED_PAYLOAD | WRONG_PROPERTY | WRONG_ROOM | NOT_YET_VALID
  | EXPIRED | REVOKED | UNKNOWN_CHALLENGE | REPLAYED | BAD_RESPONSE | MALFORMED
  | NOT_ACTIVE_STAY | BAD_COMMAND

text \<open>The values of the enumeration.\<close>

definition reason_value :: "DenyReason \<Rightarrow> pystr" where
  "reason_value r =
     (case r of
        FORGED_SIGNATURE \<Rightarrow> lit ''forged_signature'' | TAMPERED_PAYLOAD \<Rightarrow> lit ''tampered_payload''
      | WRONG_PROPERTY \<Rightarrow> lit ''wrong_property'' | WRONG_ROOM \<Rightarrow> lit ''wrong_room''
      | NOT_YET_VALID \<Rightarrow> lit ''not_yet_valid'' | EXPIRED \<Rightarrow> lit ''expired''
      | REVOKED \<Rightarrow> lit ''revoked'' | UNKNOWN_CHALLENGE \<Rightarrow> lit ''unknown_challenge''
      | REPLAYED \<Rightarrow> lit ''replayed'' | BAD_RESPONSE \<Rightarrow> lit ''bad_response''
      | MALFORMED \<Rightarrow> lit ''malformed'' | NOT_ACTIVE_STAY \<Rightarrow> lit ''not_active_stay''
      | BAD_COMMAND \<Rightarrow> lit ''bad_command'')"

datatype UnlockOutcome = UNLOCK | DENY

record Decision =
  outcome :: UnlockOutcome
  reason :: "DenyReason option"
  decision_key_id :: "pystr option"

definition unlocked :: "Decision \<Rightarrow> bool" where
  "unlocked d \<longleftrightarrow> outcome d = UNLOCK"

definition allowed :: "Decision \<Rightarrow> bool" where
  "allowed d \<longleftrightarrow> outcome d = UNLOCK"

definition unlock :: "pystr \<Rightarrow> Decision" where
  "unlock k = \<lparr>outcome = UNLOCK, reason = None, decision_key_id = Some k\<rparr>"

definition allow :: "pystr \<Rightarrow> Decision" where
  "allow = unlock"

definition deny :: "DenyReason \<Rightarrow> pystr option \<Rightarrow> Decision" where
  "deny r k = \<lparr>outcome = DENY, reason = Some r, decision_key_id = k\<rparr>"

lemma unlocked_unlock [simp]: "unlocked (unlock k)"
  by (simp add: unlocked_def unlock_def)

lemma not_unlocked_deny [simp]: "\<not> unlocked (deny r k)"
  by (simp add: unlocked_def deny_def)

lemma allowed_allow [simp]: "allowed (allow k)"
  by (simp add: allowed_def allow_def unlock_def)

lemma not_allowed_deny [simp]: "\<not> allowed (deny r k)"
  by (simp add: allowed_def deny_def)

lemma unlock_eq_iff [simp]: "unlock k = unlock k' \<longleftrightarrow> k = k'"
  by (simp add: unlock_def)

lemma deny_eq_iff [simp]: "deny r k = deny r' k' \<longleftrightarrow> r = r' \<and> k = k'"
  by (simp add: deny_def)

lemma unlock_neq_deny [simp]: "unlock k \<noteq> deny r k'" "deny r k' \<noteq> unlock k"
  by (simp_all add: unlock_def deny_def)

lemma reason_deny [simp]: "reason (deny r k) = Some r"
  by (simp add: deny_def)

lemma decision_key_id_simps [simp]:
  "decision_key_id (unlock k) = Some k" "decision_key_id (deny r k') = k'"
  by (simp_all add: unlock_def deny_def)

lemma reason_unlock [simp]: "reason (unlock k) = None"
  by (simp add: unlock_def)

end
