(* ===== verification/Base64.thy ===== *)
theory Base64
  imports Prelude
begin

unbundle bit_operations_syntax

text \<open>
  The base64url text encoding of \<open>staykey/credential.py\<close> (\<open>_b64u_encode\<close>,
  \<open>_b64u_decode\<close>) over the parts of the standard library it uses:
  \<open>base64.urlsafe_b64encode\<close> and \<open>binascii.a2b_base64\<close> in its non-strict mode,
  which skips characters outside the alphabet and stops at a complete padding.
\<close>

section \<open>The alphabet\<close>

text \<open>\<open>urlsafe_b64decode\<close> translates \<open>-_\<close> to \<open>+/\<close> before it decodes, so it takes both.\<close>

definition PAD :: nat where
  "PAD = 61"

definition b64_char :: "byte \<Rightarrow> nat" where
  "b64_char v =
     (if v < 26 then 65 + unat v
      else if v < 52 then 71 + unat v
      else if v < 62 then unat v - 4
      else if v = 62 then 45 else 95)"

definition sextet :: "nat \<Rightarrow> byte option" where
  "sextet c =
     (if 65 \<le> c \<and> c \<le> 90 then Some (word_of_nat (c - 65))
      else if 97 \<le> c \<and> c \<le> 122 then Some (word_of_nat (c - 71))
      else if 48 \<le> c \<and> c \<le> 57 then Some (word_of_nat (c + 4))
      else if c = 45 \<or> c = 43 then Some 62
      else if c = 95 \<or> c = 47 then Some 63
      else None)"

section \<open>Encoding\<close>

fun b64encode :: "bytes \<Rightarrow> pystr" where
  "b64encode [] = []"
| "b64encode [a] =
     [b64_char (drop_bit 2 a), b64_char (push_bit 4 (a AND 3)), PAD, PAD]"
| "b64encode [a, b] =
     [b64_char (drop_bit 2 a), b64_char (push_bit 4 (a AND 3) OR drop_bit 4 b),
      b64_char (push_bit 2 (b AND 15)), PAD]"
| "b64encode (a # b # c # r) =
     b64_char (drop_bit 2 a) # b64_char (push_bit 4 (a AND 3) OR drop_bit 4 b) #
     b64_char (push_bit 2 (b AND 15) OR drop_bit 6 c) # b64_char (c AND 63) # b64encode r"

text \<open>\<open>bytes.rstrip\<close> of one character.\<close>

definition rstrip :: "nat \<Rightarrow> pystr \<Rightarrow> pystr" where
  "rstrip c s = rev (dropWhile (\<lambda>x. x = c) (rev s))"

definition b64u_encode :: "bytes \<Rightarrow> pystr" where
  "b64u_encode raw = rstrip PAD (b64encode raw)"

section \<open>Decoding\<close>

text \<open>
  The loop of \<open>a2b_base64\<close>: \<open>q\<close> is the position in the quad, \<open>l\<close> the bits left
  over from the last character, \<open>p\<close> the padding characters seen in a row.
\<close>

fun a2b_base64 :: "nat \<Rightarrow> byte \<Rightarrow> nat \<Rightarrow> pystr \<Rightarrow> bytes option" where
  "a2b_base64 q l p [] = (if q = 0 then Some [] else None)"
| "a2b_base64 q l p (c # cs) =
     (if c = PAD then
        (if 2 \<le> q then (if 4 \<le> q + (p + 1) then Some [] else a2b_base64 q l (p + 1) cs)
         else a2b_base64 q l p cs)
      else (case sextet c of
          None \<Rightarrow> a2b_base64 q l p cs
        | Some v \<Rightarrow>
            (if q = 0 then a2b_base64 1 v 0 cs
             else if q = 1 then
               map_option (Cons (push_bit 2 l OR drop_bit 4 v)) (a2b_base64 2 (v AND 15) 0 cs)
             else if q = 2 then
               map_option (Cons (push_bit 4 l OR drop_bit 2 v)) (a2b_base64 3 (v AND 3) 0 cs)
             else
               map_option (Cons (push_bit 6 l OR v)) (a2b_base64 0 0 0 cs))))"

definition urlsafe_b64decode :: "pystr \<Rightarrow> exn + bytes" where
  "urlsafe_b64decode s =
     (if list_all (\<lambda>c. c < 128) s
      then (case a2b_base64 0 0 0 s of None \<Rightarrow> Inl ValueError | Some raw \<Rightarrow> Inr raw)
      else Inl ValueError)"

definition b64u_decode :: "pystr \<Rightarrow> exn + bytes" where
  "b64u_decode text =
     (let pad = replicate (nat ((- int (length text)) mod 4)) PAD
      in urlsafe_b64decode (text @ pad))"

section \<open>Bytes bit by bit\<close>

lemma byte_eqI:
  fixes a b :: byte
  assumes "bit a 0 = bit b 0" "bit a 1 = bit b 1" "bit a 2 = bit b 2" "bit a 3 = bit b 3"
    "bit a 4 = bit b 4" "bit a 5 = bit b 5" "bit a 6 = bit b 6" "bit a 7 = bit b 7"
  shows "a = b"
proof (rule bit_word_eqI)
  fix n assume "n < LENGTH(8)"
  then have "n \<in> {0, 1, 2, 3, 4, 5, 6, 7}" by auto
  then show "bit a n = bit b n" using assms by auto
qed

lemma byte_no_bit [simp]: "8 \<le> n \<Longrightarrow> \<not> bit (a :: byte) n"
  using bit_imp_le_length [of a n] by auto

lemma byte_less_64:
  fixes v :: byte
  assumes "\<not> bit v 6" "\<not> bit v 7"
  shows "v < 64"
proof -
  have "v = take_bit 6 v" by (rule byte_eqI) (use assms in \<open>simp_all add: bit_simps\<close>)
  then have "unat v = take_bit 6 (unat v)" by (metis unsigned_take_bit_eq)
  then have "unat v < 2 ^ 6" by (metis take_bit_nat_less_exp)
  then show ?thesis by (simp add: word_less_nat_alt)
qed

text \<open>The six-bit values the encoder looks up, and how the decoder joins them again.\<close>

lemma sextet_ranges:
  fixes a b c :: byte
  shows "drop_bit 2 a < 64" "push_bit 4 (a AND 3) < 64"
    "push_bit 4 (a AND 3) OR drop_bit 4 b < 64" "push_bit 2 (b AND 15) < 64"
    "push_bit 2 (b AND 15) OR drop_bit 6 c < 64" "c AND 63 < 64"
  by (rule byte_less_64; simp add: bit_simps)+

lemma sextet_joins:
  fixes a b c :: byte
  shows "push_bit 2 (drop_bit 2 a) OR drop_bit 4 (push_bit 4 (a AND 3) OR drop_bit 4 b) = a"
    "push_bit 2 (drop_bit 2 a) OR drop_bit 4 (push_bit 4 (a AND 3)) = a"
    "push_bit 4 ((push_bit 4 (a AND 3) OR drop_bit 4 b) AND 15) OR
       drop_bit 2 (push_bit 2 (b AND 15) OR drop_bit 6 c) = b"
    "push_bit 4 ((push_bit 4 (a AND 3) OR drop_bit 4 b) AND 15) OR
       drop_bit 2 (push_bit 2 (b AND 15)) = b"
    "push_bit 6 ((push_bit 2 (b AND 15) OR drop_bit 6 c) AND 3) OR (c AND 63) = c"
  by (rule byte_eqI; simp add: bit_simps)+

lemma b64_char_bounds:
  assumes "v < 64"
  shows "b64_char v < 128" and "b64_char v \<noteq> PAD" and "sextet (b64_char v) = Some v"
  using assms unfolding sextet_def b64_char_def PAD_def
  by (auto simp: unat_arith_simps split: if_splits)

lemmas b64_char_facts = b64_char_bounds [OF sextet_ranges(1)] b64_char_bounds [OF sextet_ranges(2)]
  b64_char_bounds [OF sextet_ranges(3)] b64_char_bounds [OF sextet_ranges(4)]
  b64_char_bounds [OF sextet_ranges(5)] b64_char_bounds [OF sextet_ranges(6)]

section \<open>Decoding what was encoded\<close>

lemma a2b_base64_encode: "a2b_base64 0 0 0 (b64encode raw) = Some raw"
proof (induction raw rule: b64encode.induct)
  case (2 a)
  then show ?case by (simp add: b64_char_facts sextet_joins del: push_bit_and)
next
  case (3 a b)
  then show ?case by (simp add: b64_char_facts sextet_joins del: push_bit_and)
next
  case (4 a b c r)
  then show ?case by (simp add: b64_char_facts sextet_joins del: push_bit_and)
qed simp

lemma b64encode_ascii: "list_all (\<lambda>c. c < 128) (b64encode raw)"
  by (induction raw rule: b64encode.induct) (simp_all add: b64_char_facts PAD_def del: push_bit_and)

lemma b64encode_length: "4 dvd length (b64encode raw)"
  by (induction raw rule: b64encode.induct) (simp_all, presburger+)

lemma rstrip_Nil [simp]: "rstrip c [] = []"
  by (simp add: rstrip_def)

lemma rstrip_Cons [simp]:
  "rstrip c (x # s) = (if rstrip c s = [] \<and> x = c then [] else x # rstrip c s)"
  by (auto simp: rstrip_def dropWhile_append)

text \<open>The padding that encoding strips is what decoding puts back: at most two characters.\<close>

lemma b64encode_padding:
  "\<exists>k < 4. b64encode raw = b64u_encode raw @ replicate k PAD"
  unfolding b64u_encode_def
proof (induction raw rule: b64encode.induct)
  case (2 a)
  show ?case by (rule exI [of _ 2]) (simp add: b64_char_facts numeral_2_eq_2 del: push_bit_and)
next
  case (3 a b)
  show ?case by (rule exI [of _ 1]) (simp add: b64_char_facts del: push_bit_and)
next
  case (4 a b c r)
  then show ?case by (auto simp: b64_char_facts simp del: push_bit_and)
qed auto

lemma restore_padding:
  assumes "s = t @ replicate k c" "4 dvd length s" "k < 4"
  shows "t @ replicate (nat ((- int (length t)) mod 4)) c = s"
proof -
  from assms(1,2) obtain m where "length t + k = 4 * m" by (auto simp: dvd_def)
  then have "- int (length t) = int k + 4 * (- int m)" by linarith
  then have "(- int (length t)) mod 4 = int k mod 4" by (metis mod_mult_self2)
  with assms(3) have "nat ((- int (length t)) mod 4) = k" by simp
  with assms(1) show ?thesis by simp
qed

lemma b64u_decode_encode: "b64u_decode (b64u_encode raw) = Inr raw"
proof -
  obtain k where k: "k < 4" "b64encode raw = b64u_encode raw @ replicate k PAD"
    using b64encode_padding by blast
  have "b64u_decode (b64u_encode raw) = urlsafe_b64decode (b64encode raw)"
    unfolding b64u_decode_def Let_def by (simp only: restore_padding [OF k(2) b64encode_length k(1)])
  then show ?thesis
    by (simp add: urlsafe_b64decode_def b64encode_ascii a2b_base64_encode)
qed

interpretation b64u: codec b64u_encode b64u_decode "\<lambda>_. True"
  by unfold_locales (rule b64u_decode_encode)

end
