(* ===== verification/Text_Codec.thy ===== *)
theory Text_Codec
  imports Prelude
begin

text \<open>
  Text to bytes and back, as \<open>json.loads\<close> and \<open>str.encode\<close> do it for the token
  payload: \<open>encode("utf-8")\<close>, and the encoding detection of \<open>json.loads\<close> on a
  \<open>bytes\<close> argument followed by the decoder it picks (with the \<open>surrogatepass\<close>
  error handler).
\<close>

section \<open>Surrogates\<close>

definition is_high_surrogate :: "nat \<Rightarrow> bool" where
  "is_high_surrogate c \<longleftrightarrow> 55296 \<le> c \<and> c \<le> 56319"

definition is_low_surrogate :: "nat \<Rightarrow> bool" where
  "is_low_surrogate c \<longleftrightarrow> 56320 \<le> c \<and> c \<le> 57343"

definition join_surrogates :: "nat \<Rightarrow> nat \<Rightarrow> nat" where
  "join_surrogates hi lo = 65536 + (hi - 55296) * 1024 + (lo - 56320)"

text \<open>A code point of Unicode text.\<close>

definition is_scalar :: "nat \<Rightarrow> bool" where
  "is_scalar c \<longleftrightarrow> c < 1114112 \<and> \<not> is_high_surrogate c \<and> \<not> is_low_surrogate c"

section \<open>Encoding\<close>

definition utf8_char :: "nat \<Rightarrow> bytes" where
  "utf8_char c =
     (if c < 128 then [word_of_nat c]
      else if c < 2048 then [word_of_nat (192 + c div 64), word_of_nat (128 + c mod 64)]
      else if c < 65536 then
        [word_of_nat (224 + c div 4096), word_of_nat (128 + c div 64 mod 64),
         word_of_nat (128 + c mod 64)]
      else
        [word_of_nat (240 + c div 262144), word_of_nat (128 + c div 4096 mod 64),
         word_of_nat (128 + c div 64 mod 64), word_of_nat (128 + c mod 64)])"

definition utf8_encode :: "pystr \<Rightarrow> exn + bytes" where
  "utf8_encode s =
     (if list_all is_scalar s then Inr (concat (map utf8_char s)) else Inl ValueError)"

section \<open>Decoding\<close>

definition is_cont :: "nat \<Rightarrow> bool" where
  "is_cont b \<longleftrightarrow> 128 \<le> b \<and> b \<le> 191"

text \<open>Octets are read as numbers. \<open>None\<close> is a decoding error.\<close>

fun utf8_decode :: "nat list \<Rightarrow> pystr option" where
  "utf8_decode [] = Some []"
| "utf8_decode (a # r) =
     (if a < 128 then map_option (Cons a) (utf8_decode r)
      else if 194 \<le> a \<and> a \<le> 223 then
        (case r of
          b # r1 \<Rightarrow>
            if is_cont b
            then map_option (Cons ((a - 192) * 64 + (b - 128))) (utf8_decode r1) else None
        | _ \<Rightarrow> None)
      else if 224 \<le> a \<and> a \<le> 239 then
        (case r of
          b # c # r1 \<Rightarrow>
            if is_cont b \<and> is_cont c \<and> (a = 224 \<longrightarrow> 160 \<le> b)
            then map_option (Cons ((a - 224) * 4096 + (b - 128) * 64 + (c - 128)))
                   (utf8_decode r1)
            else None
        | _ \<Rightarrow> None)
      else if 240 \<le> a \<and> a \<le> 244 then
        (case r of
          b # c # d # r1 \<Rightarrow>
            if is_cont b \<and> is_cont c \<and> is_cont d \<and> (a = 240 \<longrightarrow> 144 \<le> b) \<and> (a = 244 \<longrightarrow> b \<le> 143)
            then map_option
                   (Cons ((a - 240) * 262144 + (b - 128) * 4096 + (c - 128) * 64 + (d - 128)))
                   (utf8_decode r1)
            else None
        | _ \<Rightarrow> None)
      else None)"

fun units16 :: "bool \<Rightarrow> nat list \<Rightarrow> nat list option" where
  "units16 le [] = Some []"
| "units16 le [a] = None"
| "units16 le (a # b # r) =
     map_option (Cons (if le then a + 256 * b else 256 * a + b)) (units16 le r)"

fun join_units16 :: "nat list \<Rightarrow> pystr" where
  "join_units16 [] = []"
| "join_units16 [u] = [u]"
| "join_units16 (u # v # r) =
     (if is_high_surrogate u \<and> is_low_surrogate v then join_surrogates u v # join_units16 r
      else u # join_units16 (v # r))"

definition utf16_decode :: "bool \<Rightarrow> nat list \<Rightarrow> pystr option" where
  "utf16_decode le bs = map_option join_units16 (units16 le bs)"

fun utf32_decode :: "bool \<Rightarrow> nat list \<Rightarrow> pystr option" where
  "utf32_decode le [] = Some []"
| "utf32_decode le (a # b # c # d # r) =
     (let u = (if le then a + 256 * b + 65536 * c + 16777216 * d
               else 16777216 * a + 65536 * b + 256 * c + d)
      in if u < 1114112 then map_option (Cons u) (utf32_decode le r) else None)"
| "utf32_decode le _ = None"

datatype encoding = UTF_8 | UTF_8_SIG | UTF_16 | UTF_16_LE | UTF_16_BE | UTF_32 | UTF_32_LE | UTF_32_BE

definition starts_with :: "'a list \<Rightarrow> 'a list \<Rightarrow> bool" where
  "starts_with p s \<longleftrightarrow> take (length p) s = p"

text \<open>\<open>json.detect_encoding\<close>.\<close>

definition detect_encoding :: "nat list \<Rightarrow> encoding" where
  "detect_encoding b =
     (if starts_with [0, 0, 254, 255] b \<or> starts_with [255, 254, 0, 0] b then UTF_32
      else if starts_with [254, 255] b \<or> starts_with [255, 254] b then UTF_16
      else if starts_with [239, 187, 191] b then UTF_8_SIG
      else case b of
        b0 # b1 # b2 # b3 # _ \<Rightarrow>
          if b0 = 0 then (if b1 \<noteq> 0 then UTF_16_BE else UTF_32_BE)
          else if b1 = 0 then (if b2 \<noteq> 0 \<or> b3 \<noteq> 0 then UTF_16_LE else UTF_32_LE)
          else UTF_8
      | [b0, b1] \<Rightarrow> if b0 = 0 then UTF_16_BE else if b1 = 0 then UTF_16_LE else UTF_8
      | _ \<Rightarrow> UTF_8)"

definition decode_text :: "encoding \<Rightarrow> nat list \<Rightarrow> pystr option" where
  "decode_text e b =
     (case e of
        UTF_8 \<Rightarrow> utf8_decode b
      | UTF_8_SIG \<Rightarrow> utf8_decode (drop 3 b)
      | UTF_16 \<Rightarrow> utf16_decode (starts_with [255, 254] b) (drop 2 b)
      | UTF_16_LE \<Rightarrow> utf16_decode True b
      | UTF_16_BE \<Rightarrow> utf16_decode False b
      | UTF_32 \<Rightarrow> utf32_decode (starts_with [255, 254] b) (drop 4 b)
      | UTF_32_LE \<Rightarrow> utf32_decode True b
      | UTF_32_BE \<Rightarrow> utf32_decode False b)"

definition decode_bytes :: "bytes \<Rightarrow> exn + pystr" where
  "decode_bytes raw =
     (let b = map unat raw
      in case decode_text (detect_encoding b) b of None \<Rightarrow> Inl ValueError | Some s \<Rightarrow> Inr s)"

section \<open>ASCII text\<close>

text \<open>The canonical payload is ASCII without control characters, the case every issued token is in.\<close>

definition printable :: "pystr \<Rightarrow> bool" where
  "printable s \<longleftrightarrow> list_all (\<lambda>c. 32 \<le> c \<and> c \<le> 126) s"

lemma printable_Nil [simp]: "printable []"
  by (simp add: printable_def)

lemma printable_Cons [simp]: "printable (c # s) \<longleftrightarrow> 32 \<le> c \<and> c \<le> 126 \<and> printable s"
  by (auto simp: printable_def)

lemma printable_append [simp]: "printable (s @ t) \<longleftrightarrow> printable s \<and> printable t"
  by (auto simp: printable_def)

lemma printable_less_128: "printable s \<Longrightarrow> c \<in> set s \<Longrightarrow> c < 128"
  by (auto simp: printable_def list_all_iff)

lemma utf8_encode_printable:
  assumes "printable s"
  shows "utf8_encode s = Inr (map word_of_nat s)"
proof -
  have "concat (map utf8_char s) = map word_of_nat s"
    using assms by (induction s) (auto simp: utf8_char_def)
  moreover have "list_all is_scalar s"
    using assms
    by (induction s) (auto simp: is_scalar_def is_high_surrogate_def is_low_surrogate_def)
  ultimately show ?thesis by (simp add: utf8_encode_def)
qed

lemma unat_word_of_nat_printable:
  assumes "printable s"
  shows "map unat (map word_of_nat s :: bytes) = s"
  using assms by (induction s) (auto simp: unat_of_nat)

lemma utf8_decode_printable: "printable s \<Longrightarrow> utf8_decode s = Some s"
  by (induction s) auto

lemma detect_encoding_printable: "printable s \<Longrightarrow> detect_encoding s = UTF_8"
  by (auto simp: detect_encoding_def starts_with_def split: list.splits)

lemma decode_bytes_printable:
  assumes "printable s"
  shows "decode_bytes (map word_of_nat s) = Inr s"
  using assms unat_word_of_nat_printable [OF assms]
  by (simp add: decode_bytes_def Let_def detect_encoding_printable decode_text_def
      utf8_decode_printable del: map_map)

end
