(* ===== verification/Json.thy ===== *)
theory Json
  imports Text_Codec "HOL-Library.List_Lexorder"
begin

text \<open>
  The two calls of the standard \<open>json\<close> module the token format rests on:
  \<open>json.dumps(payload, sort_keys=True, separators=(",", ":"))\<close> of
  \<open>canonical_bytes\<close>, and \<open>json.loads\<close> of \<open>parse_token\<close>. Objects are Python
  dictionaries: association lists in insertion order without duplicate keys.
  The text of a float is the argument \<open>float_repr\<close>, the only part of the
  printer that is a parameter.
\<close>

section \<open>Values\<close>

text \<open>A float is a dyadic number \<open>m * 2 ^ e\<close>, an infinity (negative or not) or not a number.\<close>

datatype pyfloat = Finite int int | Infinite bool | NotANumber

datatype json =
    JNull | JBool bool | JInt int | JFloat pyfloat | JStr pystr
  | JArr "json list" | JObj "(pystr \<times> json) list"

section \<open>Printing\<close>

text \<open>The interpreter's limit on the digits of an integer it prints or reads.\<close>

definition MAX_STR_DIGITS :: nat where
  "MAX_STR_DIGITS = 4300"

fun dec_nat :: "nat \<Rightarrow> pystr" where
  "dec_nat n = (if n < 10 then [48 + n] else dec_nat (n div 10) @ [48 + n mod 10])"

declare dec_nat.simps [simp del]

definition dec_int :: "int \<Rightarrow> pystr" where
  "dec_int i = (if i < 0 then 45 # dec_nat (nat (- i)) else dec_nat (nat i))"

definition hex_digit :: "nat \<Rightarrow> nat" where
  "hex_digit n = (if n < 10 then 48 + n else 87 + n)"

definition u_escape :: "nat \<Rightarrow> pystr" where
  "u_escape u = [92, 117, hex_digit (u div 4096), hex_digit (u div 256 mod 16),
                 hex_digit (u div 16 mod 16), hex_digit (u mod 16)]"

definition escape_char :: "nat \<Rightarrow> pystr" where
  "escape_char c =
     (if c = 34 then [92, 34]
      else if c = 92 then [92, 92]
      else if c = 10 then [92, 110]
      else if c = 13 then [92, 114]
      else if c = 9 then [92, 116]
      else if c = 12 then [92, 102]
      else if c = 8 then [92, 98]
      else if 32 \<le> c \<and> c \<le> 126 then [c]
      else if c < 65536 then u_escape c
      else u_escape (55296 + (c - 65536) div 1024) @ u_escape (56320 + (c - 65536) mod 1024))"

definition quote :: "pystr \<Rightarrow> pystr" where
  "quote s = 34 # concat (map escape_char s) @ [34]"

fun comma_join :: "pystr list \<Rightarrow> pystr" where
  "comma_join [] = []"
| "comma_join [x] = x"
| "comma_join (x # y # r) = x @ 44 # comma_join (y # r)"

fun render :: "(pyfloat \<Rightarrow> pystr) \<Rightarrow> json \<Rightarrow> pystr" where
  "render fr JNull = lit ''null''"
| "render fr (JBool b) = (if b then lit ''true'' else lit ''false'')"
| "render fr (JInt i) = dec_int i"
| "render fr (JFloat x) = fr x"
| "render fr (JStr s) = quote s"
| "render fr (JArr vs) = 91 # comma_join (map (render fr) vs) @ [93]"
| "render fr (JObj kvs) =
     123 # comma_join (map (\<lambda>(k, v). quote k @ 58 # render fr v) kvs) @ [125]"

text \<open>\<open>sort_keys=True\<close>: each object is printed in the order of its keys.\<close>

fun sort_keys :: "json \<Rightarrow> json" where
  "sort_keys (JArr vs) = JArr (map sort_keys vs)"
| "sort_keys (JObj kvs) = JObj (sort_key fst (map (\<lambda>(k, v). (k, sort_keys v)) kvs))"
| "sort_keys v = v"

definition short_int :: "int \<Rightarrow> bool" where
  "short_int i \<longleftrightarrow> length (dec_nat (nat \<bar>i\<bar>)) \<le> MAX_STR_DIGITS"

fun short_ints :: "json \<Rightarrow> bool" where
  "short_ints (JInt i) = short_int i"
| "short_ints (JArr vs) = list_all short_ints vs"
| "short_ints (JObj kvs) = list_all (\<lambda>(k, v). short_ints v) kvs"
| "short_ints v = True"

text \<open>
  Lists and dictionaries nest as deep as the interpreter's recursion allows, in printing as in
  reading; the depth is an argument.
\<close>

fun nests :: "nat \<Rightarrow> json \<Rightarrow> bool" where
  "nests d (JArr vs) = (0 < d \<and> list_all (nests (d - 1)) vs)"
| "nests d (JObj kvs) = (0 < d \<and> list_all (\<lambda>(k, v). nests (d - 1) v) kvs)"
| "nests d v = True"

definition json_dumps :: "nat \<Rightarrow> (pyfloat \<Rightarrow> pystr) \<Rightarrow> json \<Rightarrow> exn + pystr" where
  "json_dumps d fr v =
     (if \<not> nests d v then Inl RecursionError
      else if short_ints v then Inr (render fr (sort_keys v))
      else Inl ValueError)"

section \<open>Reading: numbers\<close>

definition is_digit :: "nat \<Rightarrow> bool" where
  "is_digit c \<longleftrightarrow> 48 \<le> c \<and> c \<le> 57"

definition dec_value :: "pystr \<Rightarrow> nat" where
  "dec_value ds = foldl (\<lambda>n d. 10 * n + (d - 48)) 0 ds"

text \<open>The nearest double of \<open>n * 10 ^ e\<close>, ties to even.\<close>

fun bit_count :: "nat \<Rightarrow> nat" where
  "bit_count n = (if n = 0 then 0 else Suc (bit_count (n div 2)))"

declare bit_count.simps [simp del]

definition round_half_even :: "nat \<Rightarrow> nat \<Rightarrow> nat" where
  "round_half_even p q =
     (let d = p div q; r = p mod q
      in if 2 * r < q then d else if 2 * r > q then d + 1 else if even d then d else d + 1)"

definition scaled :: "nat \<Rightarrow> nat \<Rightarrow> int \<Rightarrow> nat \<times> nat" where
  "scaled p q k = (if 0 \<le> k then (p, q * 2 ^ nat k) else (p * 2 ^ nat (- k), q))"

text \<open>The mantissa and the exponent of the double nearest to \<open>p / q\<close>, the exponent unbounded above.\<close>

definition ratio_parts :: "nat \<Rightarrow> nat \<Rightarrow> nat \<times> int" where
  "ratio_parts p q =
     (let l = int (bit_count p) - int (bit_count q);
          (p1, q1) = scaled p q l;
          fl = (if q1 \<le> p1 then l else l - 1);
          k = max (- 1074) (fl - 52);
          (p2, q2) = scaled p q k
      in (round_half_even p2 q2, k))"

definition double_ratio :: "bool \<Rightarrow> nat \<Rightarrow> nat \<Rightarrow> pyfloat" where
  "double_ratio neg p q =
     (if p = 0 then Finite 0 0 else
      case ratio_parts p q of
        (m, k) \<Rightarrow>
          if 0 \<le> k \<and> 2 ^ 1024 \<le> m * 2 ^ nat k then Infinite neg
          else Finite (if neg then - int m else int m) k)"

definition nearest_double :: "bool \<Rightarrow> nat \<Rightarrow> int \<Rightarrow> pyfloat" where
  "nearest_double neg n e = double_ratio neg (n * 10 ^ nat e) (10 ^ nat (- e))"

definition scan_frac :: "pystr \<Rightarrow> pystr \<times> pystr" where
  "scan_frac r =
     (case r of
        c # d # _ \<Rightarrow>
          if c = 46 \<and> is_digit d then (takeWhile is_digit (tl r), dropWhile is_digit (tl r))
          else ([], r)
      | _ \<Rightarrow> ([], r))"

definition scan_exp :: "pystr \<Rightarrow> (int \<times> pystr) option" where
  "scan_exp r =
     (case r of
        [] \<Rightarrow> None
      | c # r1 \<Rightarrow>
          if c \<noteq> 101 \<and> c \<noteq> 69 then None
          else
            let (neg, r2) = (case r1 of
                    [] \<Rightarrow> (False, r1)
                  | s # r2 \<Rightarrow> if s = 45 then (True, r2) else if s = 43 then (False, r2) else (False, r1));
                ds = takeWhile is_digit r2
            in if ds = [] then None
               else Some (if neg then - int (dec_value ds) else int (dec_value ds),
                          dropWhile is_digit r2))"

definition number_tail :: "bool \<Rightarrow> pystr \<Rightarrow> pystr \<Rightarrow> (json \<times> pystr) option" where
  "number_tail neg ds r =
     (let (fs, r1) = scan_frac r
      in case scan_exp r1 of
           Some (e, r2) \<Rightarrow>
             Some (JFloat (nearest_double neg (dec_value (ds @ fs)) (e - int (length fs))), r2)
         | None \<Rightarrow>
             if fs \<noteq> []
             then Some (JFloat (nearest_double neg (dec_value (ds @ fs)) (- int (length fs))), r1)
             else if length ds \<le> MAX_STR_DIGITS
             then Some (JInt (if neg then - int (dec_value ds) else int (dec_value ds)), r)
             else None)"

definition match_number :: "pystr \<Rightarrow> (json \<times> pystr) option" where
  "match_number s =
     (let (neg, s1) = (case s of [] \<Rightarrow> (False, s) | c # r \<Rightarrow> if c = 45 then (True, r) else (False, s))
      in case s1 of
           [] \<Rightarrow> None
         | d # r \<Rightarrow>
             if d = 48 then number_tail neg [48] r
             else if is_digit d
             then number_tail neg (takeWhile is_digit s1) (dropWhile is_digit s1)
             else None)"

section \<open>Reading: strings\<close>

definition hex_value :: "nat \<Rightarrow> nat option" where
  "hex_value c =
     (if is_digit c then Some (c - 48)
      else if 97 \<le> c \<and> c \<le> 102 then Some (c - 87)
      else if 65 \<le> c \<and> c \<le> 70 then Some (c - 55)
      else None)"

fun read_hex4 :: "pystr \<Rightarrow> (nat \<times> pystr) option" where
  "read_hex4 (a # b # c # d # r) =
     (case (hex_value a, hex_value b, hex_value c, hex_value d) of
        (Some a', Some b', Some c', Some d') \<Rightarrow>
          Some (4096 * a' + 256 * b' + 16 * c' + d', r)
      | _ \<Rightarrow> None)"
| "read_hex4 _ = None"

definition read_u :: "pystr \<Rightarrow> (nat \<times> pystr) option" where
  "read_u s = (case s of c # d # r \<Rightarrow> if c = 92 \<and> d = 117 then read_hex4 r else None | _ \<Rightarrow> None)"

definition unescape :: "nat \<Rightarrow> nat option" where
  "unescape e =
     (if e = 34 then Some 34 else if e = 92 then Some 92 else if e = 47 then Some 47
      else if e = 98 then Some 8 else if e = 102 then Some 12 else if e = 110 then Some 10
      else if e = 114 then Some 13 else if e = 116 then Some 9 else None)"

lemma read_hex4_shorter: "read_hex4 s = Some (u, r) \<Longrightarrow> length r < length s"
  by (cases s rule: read_hex4.cases) (auto split: option.splits)

lemma read_u_shorter: "read_u s = Some (u, r) \<Longrightarrow> length r < length s"
  by (auto simp: read_u_def split: list.splits if_splits dest: read_hex4_shorter)

text \<open>\<open>scanstring\<close>, from behind the opening quote, in strict mode.\<close>

function scanstring :: "pystr \<Rightarrow> (pystr \<times> pystr) option" where
  "scanstring s =
     (case s of
        [] \<Rightarrow> None
      | c # cs \<Rightarrow>
          if c = 34 then Some ([], cs)
          else if c = 92 then
            (case read_u s of
               Some (u, r) \<Rightarrow>
                 (case (if is_high_surrogate u then read_u r else None) of
                    Some (v, r') \<Rightarrow>
                      if is_low_surrogate v
                      then map_option (apfst (Cons (join_surrogates u v))) (scanstring r')
                      else map_option (apfst (Cons u)) (scanstring r)
                  | None \<Rightarrow> map_option (apfst (Cons u)) (scanstring r))
             | None \<Rightarrow>
                 (case cs of
                    [] \<Rightarrow> None
                  | e # r \<Rightarrow>
                      (case unescape e of
                         None \<Rightarrow> None
                       | Some x \<Rightarrow> map_option (apfst (Cons x)) (scanstring r))))
          else if c < 32 then None
          else map_option (apfst (Cons c)) (scanstring cs))"
  by pat_completeness auto
termination
  by (relation "measure length") (auto dest!: read_u_shorter split: if_splits)

declare scanstring.simps [simp del]

section \<open>Reading: values\<close>

definition is_ws :: "nat \<Rightarrow> bool" where
  "is_ws c \<longleftrightarrow> c = 32 \<or> c = 9 \<or> c = 10 \<or> c = 13"

definition skip_ws :: "pystr \<Rightarrow> pystr" where
  "skip_ws s = dropWhile is_ws s"

text \<open>A dictionary filled from pairs: a later pair with the same key wins.\<close>

definition dict_of :: "('k \<times> 'v) list \<Rightarrow> ('k \<times> 'v) list" where
  "dict_of kvs = fold (\<lambda>(k, v). AList.update k v) kvs []"

text \<open>A literal of the scanner: the value and what is behind it.\<close>

definition keyword :: "string \<Rightarrow> json \<Rightarrow> pystr \<Rightarrow> (json \<times> pystr) option" where
  "keyword w v s =
     (if starts_with (lit w) s then Some (v, drop (length w) s) else None)"

definition scan_atom :: "pystr \<Rightarrow> (json \<times> pystr) option" where
  "scan_atom s =
     (case s of
        [] \<Rightarrow> None
      | c # _ \<Rightarrow>
          if c = 110 then keyword ''null'' JNull s
          else if c = 116 then keyword ''true'' (JBool True) s
          else if c = 102 then keyword ''false'' (JBool False) s
          else if c = 78 then keyword ''NaN'' (JFloat NotANumber) s
          else if c = 73 then keyword ''Infinity'' (JFloat (Infinite False)) s
          else (case keyword ''-Infinity'' (JFloat (Infinite True)) s of
                  Some r \<Rightarrow> Some r
                | None \<Rightarrow> match_number s))"

text \<open>
  The recursive scanner: \<open>scan_once\<close> of one value, and the two loops behind an opening
  bracket. Entering a bracket takes one of the \<open>d\<close> levels that are left; with none left it
  raises \<open>RecursionError\<close>, where every other failure is a \<open>ValueError\<close>. Each call spends one
  unit of the fuel \<open>n\<close>, and of two calls in a row at least one reads a character, so more fuel
  than twice the characters is enough (\<open>scan_fuel\<close> in \<open>Json_Facts\<close>).
\<close>

definition decoded :: "'a option \<Rightarrow> exn + 'a" where
  "decoded x = (case x of None \<Rightarrow> Inl ValueError | Some y \<Rightarrow> Inr y)"

fun scan_once :: "nat \<Rightarrow> nat \<Rightarrow> pystr \<Rightarrow> exn + json \<times> pystr"
and scan_elements :: "nat \<Rightarrow> nat \<Rightarrow> pystr \<Rightarrow> exn + json list \<times> pystr"
and scan_members :: "nat \<Rightarrow> nat \<Rightarrow> pystr \<Rightarrow> exn + (pystr \<times> json) list \<times> pystr" where
  "scan_once d 0 s = Inl ValueError"
| "scan_once d (Suc n) s =
     (case s of
        [] \<Rightarrow> Inl ValueError
      | c # r \<Rightarrow>
          if c = 34 then decoded (map_option (apfst JStr) (scanstring r))
          else if c = 123 then
            if d = 0 then Inl RecursionError
            else
              (case skip_ws r of
                 [] \<Rightarrow> Inl ValueError
               | b # r1 \<Rightarrow>
                   if b = 125 then Inr (JObj [], r1)
                   else map_sum id (apfst (\<lambda>kvs. JObj (dict_of kvs))) (scan_members (d - 1) n (b # r1)))
          else if c = 91 then
            if d = 0 then Inl RecursionError
            else
              (case skip_ws r of
                 [] \<Rightarrow> Inl ValueError
               | b # r1 \<Rightarrow>
                   if b = 93 then Inr (JArr [], r1)
                   else map_sum id (apfst JArr) (scan_elements (d - 1) n (b # r1)))
          else decoded (scan_atom s))"
| "scan_elements d 0 s = Inl ValueError"
| "scan_elements d (Suc n) s =
     (case scan_once d n s of
        Inl e \<Rightarrow> Inl e
      | Inr (v, r) \<Rightarrow>
          (case skip_ws r of
             [] \<Rightarrow> Inl ValueError
           | b # r1 \<Rightarrow>
               if b = 93 then Inr ([v], r1)
               else if b = 44 then map_sum id (apfst (Cons v)) (scan_elements d n (skip_ws r1))
               else Inl ValueError))"
| "scan_members d 0 s = Inl ValueError"
| "scan_members d (Suc n) s =
     (case s of
        [] \<Rightarrow> Inl ValueError
      | c # r \<Rightarrow>
          if c \<noteq> 34 then Inl ValueError
          else
            (case scanstring r of
               None \<Rightarrow> Inl ValueError
             | Some (k, r1) \<Rightarrow>
                 (case skip_ws r1 of
                    [] \<Rightarrow> Inl ValueError
                  | b # r2 \<Rightarrow>
                      if b \<noteq> 58 then Inl ValueError
                      else
                        (case scan_once d n (skip_ws r2) of
                           Inl e \<Rightarrow> Inl e
                         | Inr (v, r3) \<Rightarrow>
                             (case skip_ws r3 of
                                [] \<Rightarrow> Inl ValueError
                              | b' # r4 \<Rightarrow>
                                  if b' = 125 then Inr ([(k, v)], r4)
                                  else if b' = 44
                                  then map_sum id (apfst (Cons (k, v)))
                                         (scan_members d n (skip_ws r4))
                                  else Inl ValueError)))))"

definition json_loads_text :: "nat \<Rightarrow> pystr \<Rightarrow> exn + json" where
  "json_loads_text d s =
     (case scan_once d (Suc (2 * length s)) (skip_ws s) of
        Inl e \<Rightarrow> Inl e
      | Inr (v, r) \<Rightarrow> if skip_ws r = [] then Inr v else Inl ValueError)"

definition json_loads :: "nat \<Rightarrow> bytes \<Rightarrow> exn + json" where
  "json_loads d raw =
     (case decode_bytes raw of Inl e \<Rightarrow> Inl e | Inr s \<Rightarrow> json_loads_text d s)"

end
