(* ===== verification/Json_Facts.thy ===== *)
theory Json_Facts
  imports Json
begin

text \<open>
  The \<open>json\<close> model reads back what it prints: the scanner's fuel is enough for
  every input, and \<open>json.loads\<close> of a printed value is that value with the keys
  of its objects in order.
\<close>

section \<open>Strings\<close>

lemma hex_value_digit: "n < 16 \<Longrightarrow> hex_value (hex_digit n) = Some n"
  by (auto simp: hex_value_def hex_digit_def is_digit_def)

lemma hex_join: "u < 65536 \<Longrightarrow>
   4096 * (u div 4096) + 256 * (u div 256 mod 16) + 16 * (u div 16 mod 16) + u mod 16 = (u::nat)"
proof -
  have "u div 16 div 16 = u div 256" "u div 256 div 16 = u div 4096"
    by (simp_all add: div_mult2_eq [symmetric])
  then show ?thesis
    using div_mult_mod_eq [of u 16] div_mult_mod_eq [of "u div 16" 16]
      div_mult_mod_eq [of "u div 256" 16] by linarith
qed

lemma read_u_escape: "u < 65536 \<Longrightarrow> read_u (u_escape u @ r) = Some (u, r)"
  using hex_join [of u] by (simp add: read_u_def u_escape_def hex_value_digit)

lemma u_escape_Cons: "\<exists>cs. u_escape u @ r = 92 # cs"
  by (simp add: u_escape_def)

lemma scanstring_u:
  assumes "u < 65536" "\<not> is_high_surrogate u"
  shows "scanstring (u_escape u @ r) = map_option (apfst (Cons u)) (scanstring r)"
  using assms read_u_escape [of u r] by (subst scanstring.simps) (auto simp: u_escape_def)

lemma scanstring_pair:
  assumes "65536 \<le> c" "c < 1114112"
  shows "scanstring (u_escape (55296 + (c - 65536) div 1024) @
           u_escape (56320 + (c - 65536) mod 1024) @ r) = map_option (apfst (Cons c)) (scanstring r)"
proof -
  let ?hi = "55296 + (c - 65536) div 1024" and ?lo = "56320 + (c - 65536) mod 1024"
  have hi: "?hi < 65536" "is_high_surrogate ?hi" and lo: "?lo < 65536" "is_low_surrogate ?lo"
    using assms by (auto simp: is_high_surrogate_def is_low_surrogate_def)
  have "(c - 65536) div 1024 * 1024 + (c - 65536) mod 1024 = c - 65536"
    by (rule div_mult_mod_eq)
  then have j: "join_surrogates ?hi ?lo = c"
    using assms by (simp add: join_surrogates_def)
  obtain cs where cs: "u_escape ?hi @ u_escape ?lo @ r = 92 # cs" using u_escape_Cons by blast
  have "read_u (92 # cs) = Some (?hi, u_escape ?lo @ r)"
    using read_u_escape [OF hi(1), of "u_escape ?lo @ r"] by (simp only: cs)
  moreover have "read_u (u_escape ?lo @ r) = Some (?lo, r)" by (rule read_u_escape [OF lo(1)])
  ultimately have "scanstring (92 # cs) =
    map_option (apfst (Cons (join_surrogates ?hi ?lo))) (scanstring r)"
    using hi(2) lo(2) by (subst scanstring.simps) simp
  then show ?thesis by (simp only: cs j)
qed

lemma read_u_not: "e \<noteq> 117 \<Longrightarrow> read_u (92 # e # r) = None"
  by (simp add: read_u_def)

lemma scanstring_escape_char:
  assumes "is_scalar c"
  shows "scanstring (escape_char c @ r) = map_option (apfst (Cons c)) (scanstring r)"
proof -
  have simple: "scanstring (92 # e # r) = map_option (apfst (Cons c)) (scanstring r)"
    if "unescape e = Some c" for e
    using that read_u_not [of e r] by (subst scanstring.simps) (auto simp: unescape_def split: if_splits)
  have plain: "scanstring (c # r) = map_option (apfst (Cons c)) (scanstring r)"
    if "32 \<le> c" "c \<noteq> 34" "c \<noteq> 92"
    using that by (subst scanstring.simps) simp
  from assms have "c < 1114112" "\<not> is_high_surrogate c" by (simp_all add: is_scalar_def)
  then show ?thesis
    using scanstring_u [of c r] scanstring_pair [of c r]
    by (auto simp: escape_char_def plain simple unescape_def)
qed

lemma scanstring_quote:
  "list_all is_scalar s \<Longrightarrow> scanstring (concat (map escape_char s) @ 34 # r) = Some (s, r)"
proof (induction s)
  case Nil
  show ?case by (subst scanstring.simps) simp
next
  case (Cons c s)
  then show ?case by (simp add: scanstring_escape_char)
qed

lemma scanstring_cases:
  assumes "scanstring s = Some (t, r)"
  shows "s = 34 # r \<or> (\<exists>s' t'. length s' < length s \<and> scanstring s' = Some (t', r))"
proof (cases s)
  case Nil
  with assms show ?thesis by (simp add: scanstring.simps)
next
  case (Cons c cs)
  note eq = assms [unfolded scanstring.simps [of s], unfolded Cons list.case]
  consider "c = 34" | (plain) "c \<noteq> 34" "c \<noteq> 92" | (esc) "c = 92" "read_u (c # cs) = None"
    | (u) u r1 where "c = 92" "read_u (c # cs) = Some (u, r1)" by fastforce
  then show ?thesis
  proof cases
    case 1
    with eq Cons show ?thesis by simp
  next
    case plain
    with eq Cons show ?thesis by (auto split: if_splits)
  next
    case esc
    with eq obtain e r1 t' where "cs = e # r1" "scanstring r1 = Some (t', r)"
      by (auto split: list.splits option.splits)
    then show ?thesis using Cons by auto
  next
    case (u u r1)
    have l: "length r1 < length s" using u(2) Cons by (auto dest: read_u_shorter)
    have l2: "length r2 < length s" if "read_u r1 = Some (v, r2)" for v r2
      using read_u_shorter [OF that] l by simp
    from eq u show ?thesis using l l2
      by (auto split: option.splits if_splits prod.splits)
  qed
qed

lemma scanstring_shorter: "scanstring s = Some (t, r) \<Longrightarrow> length r < length s"
proof (induction s arbitrary: t rule: length_induct)
  case (1 s)
  from scanstring_cases [OF "1.prems"] show ?case using "1.IH" by fastforce
qed
section \<open>Every scan reads something\<close>

lemma keyword_shorter: "w \<noteq> [] \<Longrightarrow> keyword w v s = Some (x, r) \<Longrightarrow> s \<noteq> [] \<Longrightarrow> length r < length s"
  by (auto simp: keyword_def split: if_splits)

lemma scan_frac_shorter: "scan_frac s = (fs, r) \<Longrightarrow> length r \<le> length s"
  by (auto simp: scan_frac_def le_Suc_eq length_dropWhile_le split: list.splits if_splits
      intro: le_trans [OF length_dropWhile_le])

lemma scan_exp_shorter: "scan_exp s = Some (e, r) \<Longrightarrow> length r \<le> length s"
  by (auto simp: scan_exp_def Let_def length_dropWhile_le split: list.splits if_splits
      intro: le_trans [OF length_dropWhile_le] le_SucI)

lemma number_tail_shorter:
  assumes "number_tail neg ds r = Some (v, r')"
  shows "length r' \<le> length r"
proof (cases "scan_frac r")
  case (Pair fs r1)
  then show ?thesis using assms scan_frac_shorter [OF Pair]
    by (auto simp: number_tail_def split: option.splits if_splits dest!: scan_exp_shorter)
qed

lemma match_number_shorter: "match_number s = Some (v, r) \<Longrightarrow> length r < length s"
  by (auto simp: match_number_def Let_def split: list.splits if_splits
      dest!: number_tail_shorter intro: le_imp_less_Suc le_trans [OF _ length_dropWhile_le] le_SucI)

lemma scan_atom_shorter: "scan_atom s = Some (v, r) \<Longrightarrow> length r < length s"
  by (auto simp: scan_atom_def split: list.splits if_splits option.splits
      dest!: keyword_shorter [rotated] match_number_shorter)
lemma length_skip_ws: "length (skip_ws s) \<le> length s"
  by (simp add: skip_ws_def length_dropWhile_le)

lemma skip_ws_Cons_shorter: "skip_ws s = c # t \<Longrightarrow> length t < length s"
  using length_skip_ws [of s] by simp

text \<open>How a scan succeeds, per kind of value.\<close>

lemma decoded_simps [simp]:
  "decoded None = Inl ValueError" "decoded (Some x) = Inr x"
  "decoded o' = Inr y \<longleftrightarrow> o' = Some y" "decoded o' = Inl e \<longleftrightarrow> o' = None \<and> e = ValueError"
  by (auto simp: decoded_def split: option.split)

lemma map_sum_eq [simp]:
  "map_sum id g x = Inr y \<longleftrightarrow> (\<exists>z. x = Inr z \<and> y = g z)" "map_sum id g x = Inl e \<longleftrightarrow> x = Inl e"
  by (cases x; auto)+

lemma scan_once_cases:
  assumes "scan_once lv (Suc n) s = Inr (v, r)"
  obtains (str) t cs where "s = 34 # cs" "scanstring cs = Some (t, r)" "v = JStr t"
    | (empty_obj) cs where "s = 123 # cs" "skip_ws cs = 125 # r" "v = JObj []"
    | (obj) cs d cs' kvs where "s = 123 # cs" "skip_ws cs = d # cs'" "d \<noteq> 125"
        "0 < lv" "scan_members (lv - 1) n (d # cs') = Inr (kvs, r)" "v = JObj (dict_of kvs)"
    | (empty_arr) cs where "s = 91 # cs" "skip_ws cs = 93 # r" "v = JArr []"
    | (arr) cs d cs' vs where "s = 91 # cs" "skip_ws cs = d # cs'" "d \<noteq> 93"
        "0 < lv" "scan_elements (lv - 1) n (d # cs') = Inr (vs, r)" "v = JArr vs"
    | (atom) "scan_atom s = Some (v, r)"
proof (cases s)
  case Nil
  with assms show ?thesis by simp
next
  case (Cons c cs)
  consider "c = 34" | "c = 123" | "c = 91" | "c \<noteq> 34" "c \<noteq> 123" "c \<noteq> 91" by blast
  then show ?thesis
  proof cases
    case 1
    with assms Cons show ?thesis by (auto intro: str)
  next
    case 2
    with assms Cons show ?thesis
      by (cases "skip_ws cs") (auto split: if_splits intro: empty_obj obj)
  next
    case 3
    with assms Cons show ?thesis
      by (cases "skip_ws cs") (auto split: if_splits intro: empty_arr arr)
  next
    case 4
    with assms Cons show ?thesis by (auto intro: atom)
  qed
qed

lemma scan_elements_cases:
  assumes "scan_elements lv (Suc n) s = Inr (vs, r)"
  obtains (last) v r1 where "scan_once lv n s = Inr (v, r1)" "skip_ws r1 = 93 # r" "vs = [v]"
    | (more) v r1 r2 vs' where "scan_once lv n s = Inr (v, r1)" "skip_ws r1 = 44 # r2"
        "scan_elements lv n (skip_ws r2) = Inr (vs', r)" "vs = v # vs'"
proof -
  from assms obtain v r1 where v: "scan_once lv n s = Inr (v, r1)"
    by (cases "scan_once lv n s") auto
  show ?thesis
  proof (cases "skip_ws r1")
    case Nil
    with assms v show ?thesis by simp
  next
    case (Cons d r2)
    with assms v show ?thesis by (auto split: if_splits intro: last more)
  qed
qed

lemma scan_members_cases:
  assumes "scan_members lv (Suc n) s = Inr (kvs, r)"
  obtains (last) cs k r1 r2 v r3 where "s = 34 # cs" "scanstring cs = Some (k, r1)"
        "skip_ws r1 = 58 # r2" "scan_once lv n (skip_ws r2) = Inr (v, r3)" "skip_ws r3 = 125 # r"
        "kvs = [(k, v)]"
    | (more) cs k r1 r2 v r3 r4 kvs' where "s = 34 # cs" "scanstring cs = Some (k, r1)"
        "skip_ws r1 = 58 # r2" "scan_once lv n (skip_ws r2) = Inr (v, r3)" "skip_ws r3 = 44 # r4"
        "scan_members lv n (skip_ws r4) = Inr (kvs', r)" "kvs = (k, v) # kvs'"
proof -
  from assms obtain cs where s: "s = 34 # cs"
    by (cases s) (auto split: if_splits)
  with assms obtain k r1 where k: "scanstring cs = Some (k, r1)"
    by (cases "scanstring cs") auto
  with assms s obtain r2 where r2: "skip_ws r1 = 58 # r2"
    by (cases "skip_ws r1") (auto split: if_splits)
  with assms s k obtain v r3 where v: "scan_once lv n (skip_ws r2) = Inr (v, r3)"
    by (cases "scan_once lv n (skip_ws r2)") auto
  show ?thesis
  proof (cases "skip_ws r3")
    case Nil
    with assms s k r2 v show ?thesis by simp
  next
    case (Cons d r4)
    with assms s k r2 v show ?thesis by (auto split: if_splits intro: last more)
  qed
qed

lemma scan_shorter:
  shows "(scan_once lv n s = Inr (v, r) \<longrightarrow> length r < length s) \<and>
    (scan_elements lv n s = Inr (vs, r) \<longrightarrow> length r < length s) \<and>
    (scan_members lv n s = Inr (kvs, r) \<longrightarrow> length r < length s)"
proof (induction n arbitrary: lv s v r vs kvs)
  case (Suc n)
  note ws = skip_ws_Cons_shorter length_skip_ws
  have "length r < length s" if "scan_once lv (Suc n) s = Inr (v, r)"
    using that
  proof (cases rule: scan_once_cases)
    case (obj cs d cs' kvs)
    then show ?thesis using Suc.IH [of "lv - 1" "d # cs'" v r vs kvs] skip_ws_Cons_shorter [of cs] by fastforce
  next
    case (arr cs d cs' vs)
    then show ?thesis using Suc.IH [of "lv - 1" "d # cs'" v r vs kvs] skip_ws_Cons_shorter [of cs] by fastforce
  qed (auto dest: scanstring_shorter scan_atom_shorter skip_ws_Cons_shorter)
  moreover have "length r < length s" if "scan_elements lv (Suc n) s = Inr (vs, r)"
    using that
  proof (cases rule: scan_elements_cases)
    case (last v r1)
    then show ?thesis using Suc.IH [of lv s v r1] skip_ws_Cons_shorter by fastforce
  next
    case (more v r1 r2 vs')
    then show ?thesis using Suc.IH [of lv s v r1] Suc.IH [of lv "skip_ws r2" v r vs']
        skip_ws_Cons_shorter [of r1] length_skip_ws [of r2] by force
  qed
  moreover have "length r < length s" if "scan_members lv (Suc n) s = Inr (kvs, r)"
    using that
  proof (cases rule: scan_members_cases)
    case (last cs k r1 r2 v r3)
    then show ?thesis using Suc.IH [of lv "skip_ws r2" v r3] skip_ws_Cons_shorter [of r1]
        skip_ws_Cons_shorter [of r3] length_skip_ws [of r2] scanstring_shorter [of cs] by force
  next
    case (more cs k r1 r2 v r3 r4 kvs')
    then show ?thesis using Suc.IH [of lv "skip_ws r2" v r3] Suc.IH [of lv "skip_ws r4" v r vs kvs']
        skip_ws_Cons_shorter [of r1] skip_ws_Cons_shorter [of r3] length_skip_ws [of r2]
        length_skip_ws [of r4] scanstring_shorter [of cs] by force
  qed
  ultimately show ?case by blast
qed simp

lemma scan_fuel_Suc:
  "(2 * length s < n \<longrightarrow> scan_once lv (Suc n) s = scan_once lv n s) \<and>
   (2 * length s + 1 < n \<longrightarrow> scan_elements lv (Suc n) s = scan_elements lv n s) \<and>
   (2 * length s + 1 < n \<longrightarrow> scan_members lv (Suc n) s = scan_members lv n s)"
proof (induction n arbitrary: lv s)
  case (Suc n)
  have "scan_once lv (Suc (Suc n)) s = scan_once lv (Suc n) s" if "2 * length s < Suc n"
  proof (cases s)
    case (Cons c cs)
    show ?thesis
    proof (cases "skip_ws cs")
      case (Cons d cs')
      then have "2 * length (d # cs') + 1 < n"
        using that \<open>s = c # cs\<close> length_skip_ws [of cs] by simp
      then show ?thesis using Suc.IH [of "d # cs'" "lv - 1"] \<open>s = c # cs\<close> Cons by simp
    qed (simp add: Cons)
  qed simp
  moreover have "scan_elements lv (Suc (Suc n)) s = scan_elements lv (Suc n) s" if "2 * length s + 1 < Suc n"
  proof (cases "scan_once lv n s")
    case (Inl e)
    then show ?thesis using that Suc.IH [of s lv] by simp
  next
    case (Inr a)
    obtain v r where a: "a = (v, r)" by force
    have rest: "scan_elements lv (Suc n) (skip_ws r2) = scan_elements lv n (skip_ws r2)"
      if "skip_ws r = d # r2" for d r2
      using Suc.IH [of "skip_ws r2" lv] scan_shorter [of lv n s v r] Inr a that \<open>2 * length s + 1 < Suc n\<close>
        skip_ws_Cons_shorter [of r] length_skip_ws [of r2] by fastforce
    have first: "scan_once lv (Suc n) s = Inr (v, r)" using that Suc.IH [of s lv] Inr a by simp
    show ?thesis
      using rest by (simp only: scan_elements.simps first Inr a sum.case prod.case)
        (cases "skip_ws r"; simp)
  qed
  moreover have "scan_members lv (Suc (Suc n)) s = scan_members lv (Suc n) s" if "2 * length s + 1 < Suc n"
  proof (cases s)
    case (Cons c cs)
    have val: "scan_once lv (Suc n) (skip_ws r2) = scan_once lv n (skip_ws r2)"
      if "scanstring cs = Some (k, r1)" "skip_ws r1 = 58 # r2" for k r1 r2
    proof -
      have "2 * length (skip_ws r2) < n"
        using scanstring_shorter [OF that(1)] skip_ws_Cons_shorter [OF that(2)] length_skip_ws [of r2]
          \<open>2 * length s + 1 < Suc n\<close> Cons by simp
      then show ?thesis using Suc.IH [of "skip_ws r2" lv] by blast
    qed
    have rest: "scan_members lv (Suc n) (skip_ws r4) = scan_members lv n (skip_ws r4)"
      if "scanstring cs = Some (k, r1)" "skip_ws r1 = 58 # r2"
        "scan_once lv n (skip_ws r2) = Inr (v, r3)" "skip_ws r3 = d # r4" for k r1 r2 v r3 d r4
    proof -
      have "length r3 < length (skip_ws r2)" using scan_shorter that(3) by blast
      then have "2 * length (skip_ws r4) + 1 < n"
        using scanstring_shorter [OF that(1)] skip_ws_Cons_shorter [OF that(2)] length_skip_ws [of r2]
          skip_ws_Cons_shorter [OF that(4)] length_skip_ws [of r4] \<open>2 * length s + 1 < Suc n\<close> Cons
        by simp
      then show ?thesis using Suc.IH [of "skip_ws r4" lv] by blast
    qed
    show ?thesis unfolding Cons scan_members.simps list.case
      by (intro if_cong refl option.case_cong sum.case_cong prod.case_cong list.case_cong)
        (use val rest in \<open>auto split: option.splits sum.splits list.splits\<close>)
  qed simp
  ultimately show ?case by blast
qed simp

text \<open>With more fuel than twice the input, the fuel does not matter.\<close>

lemma scan_fuel:
  assumes "2 * length s < n" "n \<le> m"
  shows "scan_once lv m s = scan_once lv n s"
  using assms(2,1)
proof (induction rule: dec_induct)
  case (step m)
  then show ?case using scan_fuel_Suc [of s m] by simp
qed simp

section \<open>What a scan raises\<close>

text \<open>A \<open>RecursionError\<close> takes a text longer than there are levels.\<close>

lemma scan_raises:
  "(scan_once lv n s = Inl e \<longrightarrow> e = ValueError \<or> e = RecursionError \<and> lv < length s) \<and>
   (scan_elements lv n s = Inl e \<longrightarrow> e = ValueError \<or> e = RecursionError \<and> lv < length s) \<and>
   (scan_members lv n s = Inl e \<longrightarrow> e = ValueError \<or> e = RecursionError \<and> lv < length s)"
proof (induction n arbitrary: lv s)
  case (Suc n)
  let ?fair = "\<lambda>lv s. e = ValueError \<or> e = RecursionError \<and> lv < length s"
  have once: "?fair lv s" if "scan_once lv (Suc n) s = Inl e"
  proof (cases s)
    case (Cons c cs)
    have inner: "?fair lv s" if "?fair (lv - 1) (b # cs')" "skip_ws cs = b # cs'" for b cs'
      using that length_skip_ws [of cs] Cons by auto
    show ?thesis
    proof (cases "skip_ws cs")
      case Nil
      then show ?thesis using that Cons by (auto split: if_splits)
    next
      case next_char: (Cons b cs')
      show ?thesis
        using that Cons next_char inner [OF _ next_char] Suc.IH [of "lv - 1" "b # cs'"]
        by (auto split: if_splits)
    qed
  qed (use that in simp)
  have elements: "?fair lv s" if "scan_elements lv (Suc n) s = Inl e"
  proof (cases "scan_once lv n s")
    case (Inl e')
    then show ?thesis using that Suc.IH [of lv s] by simp
  next
    case (Inr vr)
    obtain v r where vr: "vr = (v, r)" by force
    have "length r < length s" using scan_shorter Inr vr by blast
    then have later: "?fair lv s" if "?fair lv (skip_ws r1)" "skip_ws r = b # r1" for b r1
      using that length_skip_ws [of r] length_skip_ws [of r1] by auto
    show ?thesis
    proof (cases "skip_ws r")
      case Nil
      then show ?thesis using that Inr vr by simp
    next
      case (Cons b r1)
      then show ?thesis using that Inr vr later [OF _ Cons] Suc.IH [of lv "skip_ws r1"] by (auto split: if_splits)
    qed
  qed
  have members: "?fair lv s" if run: "scan_members lv (Suc n) s = Inl e"
  proof (cases s)
    case (Cons c cs)
    show ?thesis
    proof (cases "scanstring cs")
      case None
      then show ?thesis using run Cons by (simp split: if_splits)
    next
      case (Some kr)
      obtain k r1 where kr: "kr = (k, r1)" by force
      have short: "length r1 < length s" using scanstring_shorter Some kr Cons by fastforce
      show ?thesis
      proof (cases "skip_ws r1")
        case Nil
        then show ?thesis using run Cons Some kr by (simp split: if_splits)
      next
        case colon: (Cons b r2)
        have r2: "length (skip_ws r2) < length s"
          using short colon length_skip_ws [of r1] length_skip_ws [of r2] by simp
        show ?thesis
        proof (cases "scan_once lv n (skip_ws r2)")
          case (Inl e')
          then show ?thesis
            using run Cons Some kr colon r2 Suc.IH [of lv "skip_ws r2"] by (auto split: if_splits)
        next
          case (Inr vr)
          obtain v r3 where vr: "vr = (v, r3)" by force
          have r3: "length r3 < length (skip_ws r2)" using scan_shorter Inr vr by blast
          show ?thesis
          proof (cases "skip_ws r3")
            case Nil
            then show ?thesis using run Cons Some kr colon Inr vr by (simp split: if_splits)
          next
            case further: (Cons b' r4)
            have "length (skip_ws r4) < length s"
              using r2 r3 further length_skip_ws [of r3] length_skip_ws [of r4] by simp
            then show ?thesis
              using run Cons Some kr colon Inr vr further Suc.IH [of lv "skip_ws r4"] by (auto split: if_splits)
          qed
        qed
      qed
    qed
  qed (use that in simp)
  show ?case using once elements members by blast
qed simp

lemma json_loads_raises:
  assumes "json_loads lv raw = Inl e"
  shows "e = ValueError \<or> e = RecursionError \<and> (\<exists>chars. decode_bytes raw = Inr chars \<and> lv < length chars)"
proof (cases "decode_bytes raw")
  case (Inl e')
  then show ?thesis using assms by (auto simp: json_loads_def decode_bytes_def Let_def split: option.splits)
next
  case (Inr chars)
  then have "e = ValueError \<or> scan_once lv (Suc (2 * length chars)) (skip_ws chars) = Inl e"
    using assms by (auto simp: json_loads_def json_loads_text_def split: sum.splits if_splits)
  then show ?thesis
    using scan_raises [of lv "Suc (2 * length chars)" "skip_ws chars" e] Inr length_skip_ws [of chars] by auto
qed

text \<open>More opening brackets than there are levels, at the front of the text.\<close>

lemma scan_nested: "lv < k \<Longrightarrow> 2 * lv < n \<Longrightarrow> scan_once lv n (replicate k 91 @ t) = Inl RecursionError"
proof (induction lv arbitrary: k n)
  case 0
  then show ?case by (cases k; cases n) auto
next
  case (Suc lv)
  have "Suc (n - 1) = n" "Suc (n - 2) = n - 1" "Suc (k - 1) = k" "Suc (k - 2) = k - 1"
    using Suc.prems by simp_all
  then obtain m j where mj: "n = Suc (Suc m)" "k = Suc (Suc j)" by metis
  have "scan_once lv m (replicate (Suc j) 91 @ t) = Inl RecursionError"
    by (rule Suc.IH) (use Suc.prems mj in simp_all)
  then show ?case unfolding mj by (simp add: skip_ws_def is_ws_def)
qed

lemma json_loads_nested:
  assumes "lv < k" "printable t"
  shows "json_loads lv (map word_of_nat (replicate k 91 @ t)) = Inl RecursionError"
proof -
  let ?s = "replicate k 91 @ t"
  have "printable (replicate k 91)" by (induction k) simp_all
  then have "decode_bytes (map word_of_nat ?s) = Inr ?s" using assms(2) by (intro decode_bytes_printable) simp
  moreover have "skip_ws ?s = ?s" using assms(1) by (cases k) (simp_all add: skip_ws_def is_ws_def)
  moreover have "scan_once lv (Suc (2 * length ?s)) ?s = Inl RecursionError"
    by (rule scan_nested [OF assms(1)]) (use assms(1) in simp)
  ultimately show ?thesis by (simp add: json_loads_def json_loads_text_def)
qed

section \<open>Numbers\<close>

lemma dec_nat_digits: "list_all is_digit (dec_nat n)"
proof (induction n rule: dec_nat.induct)
  case (1 n)
  have "is_digit (48 + n mod 10)" "n < 10 \<Longrightarrow> is_digit (48 + n)" by (simp_all add: is_digit_def)
  with 1 show ?case by (subst dec_nat.simps) auto
qed

lemma dec_value_snoc: "dec_value (ds @ [d]) = 10 * dec_value ds + (d - 48)"
  by (simp add: dec_value_def)

lemma dec_value_nat: "dec_value (dec_nat n) = n"
proof (induction n rule: dec_nat.induct)
  case (1 n)
  then show ?case by (subst dec_nat.simps) (auto simp: dec_value_snoc, simp add: dec_value_def)
qed

lemma dec_nat_hd:
  "\<exists>d ds. dec_nat n = d # ds \<and> is_digit d \<and> (d = 48 \<longleftrightarrow> n = 0) \<and> (n = 0 \<longrightarrow> ds = [])"
proof (induction n rule: dec_nat.induct)
  case (1 n)
  show ?case
  proof (cases "n < 10")
    case True
    then show ?thesis by (subst dec_nat.simps) (auto simp: is_digit_def)
  next
    case False
    then obtain d ds where "dec_nat (n div 10) = d # ds" "is_digit d" "d \<noteq> 48"
      using 1 by (auto simp: div_eq_0_iff)
    then show ?thesis using False by (subst dec_nat.simps) auto
  qed
qed

text \<open>What can follow a value in a text: nothing, a comma or a closing bracket.\<close>

definition delim :: "pystr \<Rightarrow> bool" where
  "delim s \<longleftrightarrow> s = [] \<or> hd s \<in> {44, 93, 125}"

lemma delim_simps [simp]: "delim []" "delim (44 # s)" "delim (93 # s)" "delim (125 # s)"
  by (simp_all add: delim_def)

lemma delim_cases:
  assumes "delim s"
  obtains "s = []" | c t where "s = c # t" "c = 44 \<or> c = 93 \<or> c = 125"
  using assms by (cases s) (auto simp: delim_def)

lemma span_digits:
  assumes "list_all is_digit ds" "delim r"
  shows "takeWhile is_digit (ds @ r) = ds" "dropWhile is_digit (ds @ r) = r"
  using assms by (induction ds; cases r; auto simp: delim_def is_digit_def)+

lemma number_tail_int:
  assumes "delim r" "length ds \<le> MAX_STR_DIGITS"
  shows "number_tail neg ds r = Some (JInt (if neg then - int (dec_value ds) else int (dec_value ds)), r)"
proof -
  from assms(1) have "scan_frac r = ([], r)" "scan_exp r = None"
    by (auto elim!: delim_cases simp: scan_frac_def scan_exp_def split: list.splits)
  with assms(2) show ?thesis by (simp add: number_tail_def)
qed

lemma match_nat:
  assumes "delim r" "length (dec_nat n) \<le> MAX_STR_DIGITS"
  shows "match_number (dec_nat n @ r) = Some (JInt (int n), r)"
    and "match_number (45 # dec_nat n @ r) = Some (JInt (- int n), r)"
proof -
  obtain d ds where d: "dec_nat n = d # ds" "is_digit d" "d = 48 \<longleftrightarrow> n = 0" "n = 0 \<longrightarrow> ds = []"
    using dec_nat_hd by blast
  note span = span_digits [OF dec_nat_digits assms(1), of n]
  note tail = number_tail_int [OF assms(1), of "dec_nat n"]
  have v: "dec_value (d # ds) = n" using dec_value_nat d(1) by metis
  have "d \<noteq> 45" using d(2) by (auto simp: is_digit_def)
  then show "match_number (dec_nat n @ r) = Some (JInt (int n), r)"
    "match_number (45 # dec_nat n @ r) = Some (JInt (- int n), r)"
    using d span tail assms(2) v by (cases "n = 0"; simp add: match_number_def)+
qed

lemma match_int:
  assumes "delim r" "short_int i"
  shows "match_number (dec_int i @ r) = Some (JInt i, r)"
proof (cases "i < 0")
  case True
  with assms(2) have "length (dec_nat (nat (- i))) \<le> MAX_STR_DIGITS" by (simp add: short_int_def)
  from match_nat(2) [OF assms(1) this] True show ?thesis by (simp add: dec_int_def)
next
  case False
  with assms(2) have "length (dec_nat (nat i)) \<le> MAX_STR_DIGITS" by (simp add: short_int_def)
  from match_nat(1) [OF assms(1) this] False show ?thesis by (simp add: dec_int_def)
qed

lemma dec_int_hd:
  obtains (neg) d ds where "dec_int i = 45 # d # ds" "is_digit d"
    | (pos) d ds where "dec_int i = d # ds" "is_digit d"
proof (cases "i < 0")
  case True
  obtain d ds where "dec_nat (nat (- i)) = d # ds" "is_digit d" using dec_nat_hd by blast
  with True show ?thesis by (intro neg [of d ds]) (simp_all add: dec_int_def)
next
  case False
  obtain d ds where "dec_nat (nat i) = d # ds" "is_digit d" using dec_nat_hd by blast
  with False show ?thesis by (intro pos [of d ds]) (simp_all add: dec_int_def)
qed

lemma scan_atom_int:
  assumes "delim r" "short_int i"
  shows "scan_atom (dec_int i @ r) = Some (JInt i, r)"
proof (cases i rule: dec_int_hd)
  case (neg d ds)
  then have "keyword ''-Infinity'' (JFloat (Infinite True)) (dec_int i @ r) = None"
    by (auto simp: keyword_def starts_with_def lit_def is_digit_def)
  with neg match_int [OF assms] show ?thesis by (simp add: scan_atom_def)
next
  case (pos d ds)
  then have "keyword ''-Infinity'' (JFloat (Infinite True)) (dec_int i @ r) = None"
    by (auto simp: keyword_def starts_with_def lit_def is_digit_def)
  with pos match_int [OF assms] show ?thesis by (auto simp: scan_atom_def is_digit_def)
qed

section \<open>Values\<close>

text \<open>
  The values the format uses: no floats, Unicode text, objects without duplicate
  keys.
\<close>

fun plain :: "json \<Rightarrow> bool" where
  "plain (JFloat x) = False"
| "plain (JStr s) = list_all is_scalar s"
| "plain (JArr vs) = list_all plain vs"
| "plain (JObj kvs) =
     (distinct (map fst kvs) \<and> list_all (\<lambda>(k, v). list_all is_scalar k \<and> plain v) kvs)"
| "plain v = True"

lemma dict_of_append: "distinct (map fst (xs @ kvs)) \<Longrightarrow>
  fold (\<lambda>(k, v). AList.update k v) kvs xs = xs @ kvs"
proof (induction kvs arbitrary: xs)
  case (Cons kv kvs)
  obtain k v where kv: "kv = (k, v)" by force
  have "k \<notin> fst ` set xs" using Cons.prems kv by auto
  then have "AList.update k v xs = xs @ [(k, v)]" by (induction xs) auto
  with Cons.IH [of "xs @ [kv]"] Cons.prems kv show ?case by simp
qed simp

lemma dict_of_distinct: "distinct (map fst kvs) \<Longrightarrow> dict_of kvs = kvs"
  using dict_of_append [of "[]" kvs] by (simp add: dict_of_def)

lemma is_ws_simps [simp]:
  "is_ws c \<Longrightarrow> skip_ws (c # s) = skip_ws s"
  "\<not> is_ws c \<Longrightarrow> skip_ws (c # s) = c # s"
  "skip_ws [] = []"
  by (simp_all add: skip_ws_def)

lemma render_hd:
  assumes "plain v"
  shows "\<exists>c cs. render fr v = c # cs \<and> \<not> is_ws c \<and> c \<noteq> 93 \<and> c \<noteq> 125"
proof (cases v)
  case (JInt i)
  show ?thesis by (cases i rule: dec_int_hd) (auto simp: JInt is_ws_def is_digit_def)
qed (use assms in \<open>auto simp: lit_def is_ws_def quote_def\<close>)

lemma skip_ws_render: "plain v \<Longrightarrow> skip_ws (render fr v @ r) = render fr v @ r"
  using render_hd [of v fr] by auto

definition reads_back :: "(pyfloat \<Rightarrow> pystr) \<Rightarrow> json \<Rightarrow> bool" where
  "reads_back fr v \<longleftrightarrow>
     (\<forall>lv r n. nests lv v \<longrightarrow> delim r \<longrightarrow> 2 * length (render fr v @ r) < n \<longrightarrow>
        scan_once lv n (render fr v @ r) = Inr (v, r))"

lemma reads_backD:
  "reads_back fr v \<Longrightarrow> nests lv v \<Longrightarrow> delim r \<Longrightarrow> 2 * length (render fr v @ r) < n \<Longrightarrow>
     scan_once lv n (render fr v @ r) = Inr (v, r)"
  by (simp add: reads_back_def)

lemma scan_elements_render:
  assumes "list_all plain vs" "list_all (reads_back fr) vs" "vs \<noteq> []" "list_all (nests lv) vs"
    and "2 * length (comma_join (map (render fr) vs) @ 93 # r) + 1 < n"
  shows "scan_elements lv n (comma_join (map (render fr) vs) @ 93 # r) = Inr (vs, r)"
  using assms
proof (induction vs arbitrary: n)
  case (Cons v vs)
  obtain m where n: "n = Suc m" using Cons.prems(5) by (cases n) auto
  show ?case
  proof (cases vs)
    case Nil
    have "scan_once lv m (render fr v @ 93 # r) = Inr (v, 93 # r)"
      using Cons.prems n Nil by (intro reads_backD) auto
    then show ?thesis using n Nil by (simp add: is_ws_def)
  next
    case (Cons w ws)
    let ?rest = "comma_join (map (render fr) vs) @ 93 # r"
    have "scan_once lv m (render fr v @ 44 # ?rest) = Inr (v, 44 # ?rest)"
      using Cons.prems n Cons by (intro reads_backD) auto
    moreover have "scan_elements lv m ?rest = Inr (vs, r)"
      using Cons.prems n Cons by (intro Cons.IH) auto
    moreover have "skip_ws ?rest = ?rest"
      using Cons.prems(1) Cons skip_ws_render [of w fr] by (cases ws) auto
    ultimately show ?thesis using n Cons by (simp add: is_ws_def)
  qed
qed simp
definition member_text :: "(pyfloat \<Rightarrow> pystr) \<Rightarrow> pystr \<times> json \<Rightarrow> pystr" where
  "member_text fr kv = quote (fst kv) @ 58 # render fr (snd kv)"

lemma render_obj: "render fr (JObj kvs) = 123 # comma_join (map (member_text fr) kvs) @ [125]"
proof -
  have "(\<lambda>(k, v). quote k @ 58 # render fr v) = member_text fr"
    by (auto simp: member_text_def fun_eq_iff)
  then show ?thesis by simp
qed

lemma length_member_text:
  "length (member_text fr (k, v)) = Suc (length (quote k) + length (render fr v))"
  by (simp add: member_text_def)

lemma reads_backI:
  assumes "\<And>lv r m. nests lv v \<Longrightarrow> delim r \<Longrightarrow> 2 * length (render fr v @ r) \<le> m \<Longrightarrow>
    scan_once lv (Suc m) (render fr v @ r) = Inr (v, r)"
  shows "reads_back fr v"
  unfolding reads_back_def
proof (intro allI impI)
  fix lv r n assume "nests lv v" "delim r" "2 * length (render fr v @ r) < n"
  then show "scan_once lv n (render fr v @ r) = Inr (v, r)" using assms by (cases n) auto
qed

lemma scan_members_render:
  assumes "\<And>k v. (k, v) \<in> set kvs \<Longrightarrow> list_all is_scalar k \<and> plain v \<and> reads_back fr v \<and> nests lv v"
    and "kvs \<noteq> []"
    and "2 * length (comma_join (map (member_text fr) kvs) @ 125 # r) + 1 < n"
  shows "scan_members lv n (comma_join (map (member_text fr) kvs) @ 125 # r) = Inr (kvs, r)"
  using assms
proof (induction kvs arbitrary: n)
  case (Cons kv kvs)
  obtain m where n: "n = Suc m" using Cons.prems(3) by (cases n) auto
  obtain k v where kv: "kv = (k, v)" by force
  have k: "list_all is_scalar k" and v: "plain v" "reads_back fr v" "nests lv v" using Cons.prems(1) kv by auto
  have key: "scanstring (concat (map escape_char k) @ 34 # t) = Some (k, t)" for t
    by (rule scanstring_quote [OF k])
  show ?case
  proof (cases kvs)
    case Nil
    have "scan_once lv m (render fr v @ 125 # r) = Inr (v, 125 # r)"
      using Cons.prems(3) v n kv Nil by (intro reads_backD) (auto simp: length_member_text)
    then show ?thesis
      using n Nil kv key skip_ws_render [OF v(1)] by (simp add: member_text_def quote_def is_ws_def)
  next
    case (Cons w ws)
    let ?rest = "comma_join (map (member_text fr) kvs) @ 125 # r"
    have val: "scan_once lv m (render fr v @ 44 # ?rest) = Inr (v, 44 # ?rest)"
      using Cons.prems(3) v n kv Cons by (intro reads_backD) (auto simp: length_member_text)
    have rest: "scan_members lv m ?rest = Inr (kvs, r)"
      using Cons.prems n Cons by (intro Cons.IH) auto
    have ws: "skip_ws ?rest = ?rest"
      using Cons by (cases ws) (auto simp: member_text_def quote_def is_ws_def)
    have "comma_join (map (member_text fr) (kv # kvs)) @ 125 # r =
        34 # concat (map escape_char k) @ 34 # 58 # render fr v @ 44 # ?rest"
      using kv Cons by (simp add: member_text_def quote_def)
    then show ?thesis
      using n kv key skip_ws_render [OF v(1)] val rest ws by (simp add: is_ws_def)
  qed
qed simp

lemma render_reads_back: "plain v \<Longrightarrow> short_ints v \<Longrightarrow> reads_back fr v"
proof (induction v)
  case (JArr vs)
  have "list_all plain vs" "list_all (reads_back fr) vs"
    using JArr by (auto simp: list_all_iff)
  note el = scan_elements_render [OF this]
  show ?case
  proof (rule reads_backI)
    fix lv r m assume nest: "nests lv (JArr vs)" and m: "2 * length (render fr (JArr vs) @ r) \<le> m"
    show "scan_once lv (Suc m) (render fr (JArr vs) @ r) = Inr (JArr vs, r)"
    proof (cases vs)
      case (Cons w ws)
      let ?t = "comma_join (map (render fr) vs) @ 93 # r"
      have "scan_elements (lv - 1) m ?t = Inr (vs, r)" using Cons m nest by (intro el) auto
      moreover obtain c cs where "?t = c # cs" "\<not> is_ws c" "c \<noteq> 93"
        using Cons JArr.prems(1) render_hd [of w fr] by (cases ws) auto
      ultimately show ?thesis using nest by simp
    qed (use nest in \<open>simp add: is_ws_def\<close>)
  qed
next
  case (JObj kvs)
  have all: "\<And>k v. (k, v) \<in> set kvs \<Longrightarrow> list_all is_scalar k \<and> plain v \<and> reads_back fr v"
    using JObj by (force simp: list_all_iff)
  have d: "dict_of kvs = kvs" using JObj.prems(1) by (simp add: dict_of_distinct)
  show ?case
  proof (rule reads_backI)
    fix lv r m assume nest: "nests lv (JObj kvs)" and m: "2 * length (render fr (JObj kvs) @ r) \<le> m"
    show "scan_once lv (Suc m) (render fr (JObj kvs) @ r) = Inr (JObj kvs, r)"
    proof (cases kvs)
      case (Cons w ws)
      let ?t = "comma_join (map (member_text fr) kvs) @ 125 # r"
      have "scan_members (lv - 1) m ?t = Inr (kvs, r)"
        using Cons m all nest
        by (intro scan_members_render) (auto simp: render_obj list_all_iff simp del: render.simps)
      moreover obtain cs where "?t = 34 # cs"
        using Cons by (cases ws) (auto simp: member_text_def quote_def)
      ultimately show ?thesis using d nest by (simp add: render_obj is_ws_def del: render.simps)
    qed (use nest in \<open>simp add: is_ws_def\<close>)
  qed
next
  case (JStr s)
  show ?case by (rule reads_backI) (use JStr scanstring_quote in \<open>simp add: quote_def\<close>)
next
  case (JInt i)
  show ?case
  proof (rule reads_backI)
    fix lv :: nat and r m assume r: "delim r"
    show "scan_once lv (Suc m) (render fr (JInt i) @ r) = Inr (JInt i, r)"
      using JInt scan_atom_int [OF r, of i] by (cases i rule: dec_int_hd) (auto simp: is_digit_def)
  qed
qed (auto intro!: reads_backI simp: scan_atom_def keyword_def starts_with_def lit_def)

section \<open>Texts and bytes\<close>

lemma hex_digit_printable: "n < 16 \<Longrightarrow> 32 \<le> hex_digit n \<and> hex_digit n \<le> 126"
  by (auto simp: hex_digit_def)

lemma u_escape_printable: "u < 65536 \<Longrightarrow> printable (u_escape u)"
  by (simp add: u_escape_def hex_digit_printable)

lemma escape_char_printable: "is_scalar c \<Longrightarrow> printable (escape_char c)"
  by (auto simp: escape_char_def is_scalar_def u_escape_printable)

lemma quote_printable: "list_all is_scalar s \<Longrightarrow> printable (quote s)"
  unfolding quote_def by (induction s) (auto simp: escape_char_printable)

lemma comma_join_printable: "list_all printable ss \<Longrightarrow> printable (comma_join ss)"
  by (induction ss rule: comma_join.induct) auto

lemma dec_int_printable: "printable (dec_int i)"
proof -
  have "list_all is_digit ds \<Longrightarrow> printable ds" for ds
    by (induction ds) (auto simp: is_digit_def)
  then have "printable (dec_nat n)" for n using dec_nat_digits by blast
  then show ?thesis by (simp add: dec_int_def)
qed

lemma render_printable: "plain v \<Longrightarrow> printable (render fr v)"
proof (induction v)
  case (JObj kvs)
  have "list_all printable (map (member_text fr) kvs)"
    using JObj by (force simp: list_all_iff member_text_def quote_printable)
  then show ?case by (simp add: render_obj comma_join_printable del: render.simps)
qed (auto simp: list_all_iff lit_def dec_int_printable quote_printable comma_join_printable)

lemma json_loads_text_render:
  assumes "plain v" "short_ints v" "nests lv v"
  shows "json_loads_text lv (render fr v) = Inr v"
proof -
  have "scan_once lv (Suc (2 * length (render fr v))) (render fr v @ []) = Inr (v, [])"
    by (intro reads_backD render_reads_back assms) auto
  then show ?thesis
    using skip_ws_render [OF assms(1), of fr "[]"] by (simp add: json_loads_text_def)
qed

section \<open>Sorted keys\<close>

lemma plain_sort_keys: "plain v \<Longrightarrow> plain (sort_keys v)"
proof (induction v)
  case (JObj kvs)
  have "map fst (map (\<lambda>(k, v). (k, sort_keys v)) kvs) = map fst kvs"
    by (auto simp: case_prod_beta)
  then have "distinct (map fst (sort_key fst (map (\<lambda>(k, v). (k, sort_keys v)) kvs)))"
    using JObj.prems distinct_map [of fst "sort_key fst (map (\<lambda>(k, v). (k, sort_keys v)) kvs)"]
      distinct_map [of fst "map (\<lambda>(k, v). (k, sort_keys v)) kvs"]
    by (simp only: plain.simps set_sort distinct_sort)
  then show ?case using JObj by (force simp: list_all_iff)
qed (auto simp: list_all_iff)

lemma short_ints_sort_keys: "short_ints (sort_keys v) = short_ints v"
proof (induction v)
  case (JObj kvs)
  then show ?case by (fastforce simp: list_all_iff)
qed (auto simp: list_all_iff)

lemma nests_sort_keys: "nests lv (sort_keys v) = nests lv v"
proof (induction v arbitrary: lv)
  case (JObj kvs)
  then show ?case by (fastforce simp: list_all_iff)
qed (auto simp: list_all_iff)

lemma json_loads_dumps:
  assumes "plain v" "json_dumps lv fr v = Inr s"
  shows "printable s" "json_loads lv (map word_of_nat s) = Inr (sort_keys v)"
proof -
  have s: "s = render fr (sort_keys v)" "short_ints v" "nests lv v"
    using assms(2) by (auto simp: json_dumps_def split: if_splits)
  then show p: "printable s" using assms(1) by (simp add: render_printable plain_sort_keys)
  show "json_loads lv (map word_of_nat s) = Inr (sort_keys v)"
    using decode_bytes_printable [OF p] s assms(1)
    by (simp add: json_loads_def json_loads_text_render plain_sort_keys short_ints_sort_keys
        nests_sort_keys)
qed

lemma map_of_sort_key:
  assumes "distinct (map fst kvs)"
  shows "map_of (sort_key fst kvs) = map_of kvs"
proof
  fix k
  have "distinct (map fst (sort_key fst kvs))" using assms by (simp add: distinct_map)
  then have "map_of (sort_key fst kvs) k = Some v \<longleftrightarrow> map_of kvs k = Some v" for v
    using assms by (simp add: map_of_eq_Some_iff)
  then show "map_of (sort_key fst kvs) k = map_of kvs k" by (metis option.exhaust)
qed

end
