(* ===== verification/Pyvalue.thy ===== *)
theory Pyvalue
  imports Json_Facts
begin

text \<open>
  What the program does with values it has read from a token payload, whose types
  it does not know: Python's \<open>int(v)\<close>, \<open>str(v)\<close>, comparison with an integer and
  dictionary access. Data of the interpreter that is no code (the Unicode
  character database, the digits it picks for a float) is a parameter.
\<close>

record unicode =
  uni_decimal :: "nat \<Rightarrow> nat option"
  uni_space :: "nat \<Rightarrow> bool"
  uni_printable :: "nat \<Rightarrow> bool"
  float_repr :: "pyfloat \<Rightarrow> pystr"
  spare_nesting :: nat

text \<open>
  How deep lists and dictionaries may nest before the \<open>json\<close> module raises
  \<open>RecursionError\<close>: a hundred levels at least, and what the interpreter leaves beyond.
\<close>

definition nesting_limit :: "'a unicode_scheme \<Rightarrow> nat" where
  "nesting_limit U = 100 + spare_nesting U"

section \<open>int(v)\<close>

text \<open>Non-ASCII spaces and decimal digits become ASCII ones; anything else ends the text with a question mark.\<close>

fun to_ascii_digits :: "'a unicode_scheme \<Rightarrow> pystr \<Rightarrow> pystr" where
  "to_ascii_digits U [] = []"
| "to_ascii_digits U (c # s) =
     (if c < 127 then c # to_ascii_digits U s
      else if uni_space U c then 32 # to_ascii_digits U s
      else (case uni_decimal U c of
              Some d \<Rightarrow> (48 + d) # to_ascii_digits U s
            | None \<Rightarrow> [63]))"

definition is_ascii_space :: "nat \<Rightarrow> bool" where
  "is_ascii_space c \<longleftrightarrow> c = 32 \<or> (9 \<le> c \<and> c \<le> 13)"

text \<open>Digits with single underscores between them, from behind a digit; what is left behind them.\<close>

fun digits_of :: "pystr \<Rightarrow> (pystr \<times> pystr) option" where
  "digits_of [] = Some ([], [])"
| "digits_of (c # s) =
     (if is_digit c then map_option (apfst (Cons c)) (digits_of s)
      else if c = 95 then
        (case s of
           d # s' \<Rightarrow> if is_digit d then map_option (apfst (Cons d)) (digits_of s') else None
         | [] \<Rightarrow> None)
      else Some ([], c # s))"

definition int_of_str :: "'a unicode_scheme \<Rightarrow> pystr \<Rightarrow> exn + int" where
  "int_of_str U text =
     (let s = (if list_all (\<lambda>c. c < 128) text then text else to_ascii_digits U text);
          s1 = dropWhile is_ascii_space s;
          (neg, s2) = (case s1 of
              [] \<Rightarrow> (False, s1)
            | c # r \<Rightarrow> if c = 45 then (True, r) else if c = 43 then (False, r) else (False, s1))
      in case digits_of s2 of
           None \<Rightarrow> Inl ValueError
         | Some (ds, r) \<Rightarrow>
             if s2 \<noteq> [] \<and> is_digit (hd s2) \<and> list_all is_ascii_space r \<and> length ds \<le> MAX_STR_DIGITS
             then Inr (if neg then - int (dec_value ds) else int (dec_value ds))
             else Inl ValueError)"

definition trunc_float :: "int \<Rightarrow> int \<Rightarrow> int" where
  "trunc_float m e =
     (if 0 \<le> e then m * 2 ^ nat e else sgn m * (\<bar>m\<bar> div 2 ^ nat (- e)))"

definition py_int :: "'a unicode_scheme \<Rightarrow> json \<Rightarrow> exn + int" where
  "py_int U v =
     (case v of
        JInt i \<Rightarrow> Inr i
      | JBool b \<Rightarrow> Inr (of_bool b)
      | JFloat (Finite m e) \<Rightarrow> Inr (trunc_float m e)
      | JFloat (Infinite _) \<Rightarrow> Inl OverflowError
      | JFloat NotANumber \<Rightarrow> Inl ValueError
      | JStr s \<Rightarrow> int_of_str U s
      | _ \<Rightarrow> Inl TypeError)"

section \<open>str(v)\<close>

definition hex_fixed :: "nat \<Rightarrow> nat \<Rightarrow> pystr" where
  "hex_fixed w n = map (\<lambda>i. hex_digit (n div 16 ^ i mod 16)) (rev [0..<w])"

definition repr_char :: "'a unicode_scheme \<Rightarrow> nat \<Rightarrow> nat \<Rightarrow> pystr" where
  "repr_char U q c =
     (if c = q \<or> c = 92 then [92, c]
      else if c = 9 then [92, 116]
      else if c = 10 then [92, 110]
      else if c = 13 then [92, 114]
      else if c < 32 \<or> c = 127 then [92, 120] @ hex_fixed 2 c
      else if c < 127 \<or> uni_printable U c then [c]
      else if c < 256 then [92, 120] @ hex_fixed 2 c
      else if c < 65536 then [92, 117] @ hex_fixed 4 c
      else [92, 85] @ hex_fixed 8 c)"

definition repr_str :: "'a unicode_scheme \<Rightarrow> pystr \<Rightarrow> pystr" where
  "repr_str U s =
     (let q = (if 39 \<in> set s \<and> 34 \<notin> set s then 34 else 39)
      in q # concat (map (repr_char U q) s) @ [q])"

fun comma_space_join :: "pystr list \<Rightarrow> pystr" where
  "comma_space_join [] = []"
| "comma_space_join [x] = x"
| "comma_space_join (x # y # r) = x @ [44, 32] @ comma_space_join (y # r)"

fun py_repr :: "'a unicode_scheme \<Rightarrow> json \<Rightarrow> pystr" where
  "py_repr U JNull = lit ''None''"
| "py_repr U (JBool b) = (if b then lit ''True'' else lit ''False'')"
| "py_repr U (JInt i) = dec_int i"
| "py_repr U (JFloat x) = float_repr U x"
| "py_repr U (JStr s) = repr_str U s"
| "py_repr U (JArr vs) = 91 # comma_space_join (map (py_repr U) vs) @ [93]"
| "py_repr U (JObj kvs) =
     123 # comma_space_join (map (\<lambda>(k, v). repr_str U k @ [58, 32] @ py_repr U v) kvs) @ [125]"

definition py_str :: "'a unicode_scheme \<Rightarrow> json \<Rightarrow> pystr" where
  "py_str U v = (case v of JStr s \<Rightarrow> s | _ \<Rightarrow> py_repr U v)"

lemma py_str_JStr [simp]: "py_str U (JStr s) = s"
  by (simp add: py_str_def)

lemma py_int_JInt [simp]: "py_int U (JInt i) = Inr i"
  by (simp add: py_int_def)

section \<open>v == n\<close>

definition eq_int :: "int \<Rightarrow> json \<Rightarrow> bool" where
  "eq_int n v =
     (case v of
        JInt i \<Rightarrow> i = n
      | JBool b \<Rightarrow> of_bool b = n
      | JFloat (Finite m e) \<Rightarrow>
          if 0 \<le> e then m * 2 ^ nat e = n else m = n * 2 ^ nat (- e)
      | _ \<Rightarrow> False)"

text \<open>Membership in a list of JSON values, \<open>n in v\<close>.\<close>

definition int_in :: "int \<Rightarrow> json list \<Rightarrow> bool" where
  "int_in n vs \<longleftrightarrow> list_ex (eq_int n) vs"

lemma eq_int_JInt [simp]: "eq_int n (JInt i) \<longleftrightarrow> i = n"
  by (simp add: eq_int_def)

lemma int_in_JInts [simp]: "int_in n (map JInt is) \<longleftrightarrow> n \<in> set is"
  by (auto simp: int_in_def list_ex_iff)

end
