(* ===== verification/Credential.thy ===== *)
theory Credential
  imports Errors Base64 Pyvalue
begin

text \<open>
  \<open>staykey/credential.py\<close>: issuing a signed credential, parsing a token, the
  checks that need only the property public key and the revocation list, and the
  device's proof of possession.
\<close>

section \<open>The platform\<close>

text \<open>
  What the module takes from outside the repository: the Ed25519 operations of the
  \<open>cryptography\<close> package over its private and public key objects. \<open>from_*_bytes\<close>
  is \<open>None\<close> where the package raises \<open>ValueError\<close>, \<open>verify\<close> is \<open>False\<close> where it
  raises \<open>InvalidSignature\<close>. The interpreter's character tables come along.
\<close>

record ('sk, 'pk) platform = unicode +
  public_key :: "'sk \<Rightarrow> 'pk"
  public_bytes :: "'pk \<Rightarrow> bytes"
  private_bytes :: "'sk \<Rightarrow> bytes"
  from_public_bytes :: "bytes \<Rightarrow> 'pk option"
  from_private_bytes :: "bytes \<Rightarrow> 'sk option"
  sign :: "'sk \<Rightarrow> bytes \<Rightarrow> bytes"
  verify :: "'pk \<Rightarrow> bytes \<Rightarrow> bytes \<Rightarrow> bool"

text \<open>Values drawn at random during a call: a generated key, \<open>uuid4().hex\<close>, \<open>token_hex\<close>.\<close>

record 'sk fresh =
  fresh_sk :: 'sk
  fresh_uuid :: pystr
  fresh_hex :: pystr

text \<open>
  Documented behaviour of the package: a signature made with a private key
  verifies under its public key, and raw key bytes load back.
\<close>

definition ed25519 :: "('sk, 'pk) platform \<Rightarrow> bool" where
  "ed25519 P \<longleftrightarrow>
     (\<forall>sk m. verify P (public_key P sk) (sign P sk m) m) \<and>
     (\<forall>pk. from_public_bytes P (public_bytes P pk) = Some pk) \<and>
     (\<forall>sk. from_private_bytes P (private_bytes P sk) = Some sk)"

lemma ed25519_simps:
  assumes "ed25519 P"
  shows "verify P (public_key P sk) (sign P sk m) m"
    and "from_public_bytes P (public_bytes P pk) = Some pk"
    and "from_private_bytes P (private_bytes P sk) = Some sk"
  using assms by (auto simp: ed25519_def)

section \<open>Payloads\<close>

type_synonym payload = "(pystr \<times> json) list"

definition PAYLOAD_VERSION :: int where
  "PAYLOAD_VERSION = 1"

definition canonical_bytes :: "('sk, 'pk) platform \<Rightarrow> payload \<Rightarrow> exn + bytes" where
  "canonical_bytes P payload =
     (case json_dumps (nesting_limit P) (float_repr P) (JObj payload) of
        Inl e \<Rightarrow> Inl e
      | Inr text \<Rightarrow> utf8_encode text)"

section \<open>Issuance\<close>

record IssuedKey =
  ik_key_id :: pystr
  ik_token :: pystr
  ik_device_sk_b64 :: pystr
  ik_payload :: payload

record 'sk issue_args =
  ia_guest_id :: pystr
  ia_stay_id :: pystr
  ia_property_id :: pystr
  ia_room_ids :: "int list"
  ia_valid_from :: time
  ia_valid_until :: time
  ia_issued_at :: time
  ia_device_sk :: "'sk option"
  ia_key_id :: "pystr option"
  ia_nonce :: "pystr option"

text \<open>Python's \<open>x or y\<close> on an optional string: the empty string is false.\<close>

definition or_else :: "pystr option \<Rightarrow> pystr \<Rightarrow> pystr" where
  "or_else x y = (case x of None \<Rightarrow> y | Some s \<Rightarrow> if s = [] then y else s)"

definition device_key :: "'sk fresh \<Rightarrow> 'sk issue_args \<Rightarrow> 'sk" where
  "device_key f a = (case ia_device_sk a of None \<Rightarrow> fresh_sk f | Some sk \<Rightarrow> sk)"

definition issue_payload :: "('sk, 'pk) platform \<Rightarrow> 'sk fresh \<Rightarrow> 'sk issue_args \<Rightarrow> payload" where
  "issue_payload P f a =
     [(lit ''v'', JInt PAYLOAD_VERSION),
      (lit ''key_id'', JStr (or_else (ia_key_id a) (fresh_uuid f))),
      (lit ''guest_id'', JStr (ia_guest_id a)),
      (lit ''stay_id'', JStr (ia_stay_id a)),
      (lit ''property_id'', JStr (ia_property_id a)),
      (lit ''room_ids'', JArr (map JInt (sort (ia_room_ids a)))),
      (lit ''valid_from'', JInt (ia_valid_from a)),
      (lit ''valid_until'', JInt (ia_valid_until a)),
      (lit ''issued_at'', JInt (ia_issued_at a)),
      (lit ''nonce'', JStr (or_else (ia_nonce a) (fresh_hex f))),
      (lit ''device_pub'',
         JStr (b64u_encode (public_bytes P (public_key P (device_key f a)))))]"

definition issue_credential ::
  "('sk, 'pk) platform \<Rightarrow> 'sk fresh \<Rightarrow> 'sk \<Rightarrow> 'sk issue_args \<Rightarrow> exn + IssuedKey" where
  "issue_credential P f property_sk a =
     (if ia_valid_until a \<le> ia_valid_from a then Inl ValidationError
      else
        let payload = issue_payload P f a
        in case canonical_bytes P payload of
             Inl e \<Rightarrow> Inl e
           | Inr payload_bytes \<Rightarrow>
               let signature = sign P property_sk payload_bytes
               in Inr \<lparr>ik_key_id = or_else (ia_key_id a) (fresh_uuid f),
                       ik_token = b64u_encode payload_bytes @ lit ''.'' @ b64u_encode signature,
                       ik_device_sk_b64 = b64u_encode (private_bytes P (device_key f a)),
                       ik_payload = payload\<rparr>)"

section \<open>Parsing\<close>

record ParsedToken =
  pt_payload :: payload
  pt_payload_bytes :: bytes
  pt_signature :: bytes

definition DOT :: nat where
  "DOT = 46"

text \<open>\<open>None\<close> for a malformed token; what \<open>json.loads\<close> raises beside a \<open>ValueError\<close> is not caught.\<close>

definition parse_token :: "('sk, 'pk) platform \<Rightarrow> pystr \<Rightarrow> exn + ParsedToken option" where
  "parse_token P token =
     (if count_list token DOT \<noteq> 1 then Inr None
      else
        let seg_payload = takeWhile (\<lambda>c. c \<noteq> DOT) token;
            seg_sig = tl (dropWhile (\<lambda>c. c \<noteq> DOT) token)
        in case b64u_decode seg_payload of
             Inl _ \<Rightarrow> Inr None
           | Inr payload_bytes \<Rightarrow>
               (case b64u_decode seg_sig of
                  Inl _ \<Rightarrow> Inr None
                | Inr signature \<Rightarrow>
                    (case json_loads (nesting_limit P) payload_bytes of
                       Inl e \<Rightarrow> if e = ValueError then Inr None else Inl e
                     | Inr v \<Rightarrow>
                         (case v of
                            JObj payload \<Rightarrow>
                              if map_of payload (lit ''key_id'') = None then Inr None
                              else Inr (Some \<lparr>pt_payload = payload, pt_payload_bytes = payload_bytes,
                                              pt_signature = signature\<rparr>)
                          | _ \<Rightarrow> Inr None))))"

section \<open>Verification\<close>

definition signature_ok :: "('sk, 'pk) platform \<Rightarrow> 'pk \<Rightarrow> bytes \<Rightarrow> bytes \<Rightarrow> bool" where
  "signature_ok P property_pub payload_bytes signature = verify P property_pub signature payload_bytes"

text \<open>A \<open>device_pub\<close> that is no string makes \<open>_b64u_decode\<close> raise a \<open>TypeError\<close>, which is not caught.\<close>

definition verify_device_response ::
  "('sk, 'pk) platform \<Rightarrow> json \<Rightarrow> bytes \<Rightarrow> bytes \<Rightarrow> exn + bool" where
  "verify_device_response P device_pub_b64 challenge response =
     (case device_pub_b64 of
        JStr text \<Rightarrow>
          (case b64u_decode text of
             Inl _ \<Rightarrow> Inr False
           | Inr raw \<Rightarrow>
               (case from_public_bytes P raw of
                  None \<Rightarrow> Inr False
                | Some device_pub \<Rightarrow> Inr (verify P device_pub response challenge)))
      | _ \<Rightarrow> Inl TypeError)"

record StaticResult =
  static_deny :: "Decision option"
  static_payload :: "payload option"

definition denied :: "DenyReason \<Rightarrow> pystr option \<Rightarrow> exn + StaticResult" where
  "denied r k = Inr \<lparr>static_deny = Some (deny r k), static_payload = None\<rparr>"

definition required_fields :: "pystr list" where
  "required_fields =
     [lit ''property_id'', lit ''room_ids'', lit ''valid_from'', lit ''valid_until'',
      lit ''device_pub'']"

text \<open>\<open>payload[field]\<close> of a dictionary.\<close>

definition field :: "payload \<Rightarrow> string \<Rightarrow> json" where
  "field payload k = (case map_of payload (lit k) of Some v \<Rightarrow> v | None \<Rightarrow> JNull)"

definition evaluate_static ::
  "('sk, 'pk) platform \<Rightarrow> pystr \<Rightarrow> 'pk \<Rightarrow> pystr \<Rightarrow> int \<Rightarrow> time \<Rightarrow> pystr set \<Rightarrow> exn + StaticResult" where
  "evaluate_static P token property_pub expected_property expected_room now revoked =
     (case parse_token P token of
        Inl e \<Rightarrow> Inl e
      | Inr None \<Rightarrow> denied MALFORMED None
      | Inr (Some parsed) \<Rightarrow>
          if \<not> signature_ok P property_pub (pt_payload_bytes parsed) (pt_signature parsed)
          then denied FORGED_SIGNATURE None
          else
            let payload = pt_payload parsed;
                key_id = py_str P (field payload ''key_id'')
            in if list_ex (\<lambda>f. map_of payload f = None) required_fields
               then denied MALFORMED (Some key_id)
               else if field payload ''property_id'' \<noteq> JStr expected_property
               then denied WRONG_PROPERTY (Some key_id)
               else if (case field payload ''room_ids'' of
                          JArr rooms \<Rightarrow> \<not> int_in expected_room rooms | _ \<Rightarrow> True)
               then denied WRONG_ROOM (Some key_id)
               else
                 (case py_int P (field payload ''valid_from'') of
                    Inl e \<Rightarrow> Inl e
                  | Inr valid_from \<Rightarrow>
                      if now < valid_from then denied NOT_YET_VALID (Some key_id)
                      else
                        (case py_int P (field payload ''valid_until'') of
                           Inl e \<Rightarrow> Inl e
                         | Inr valid_until \<Rightarrow>
                             if now > valid_until then denied EXPIRED (Some key_id)
                             else if key_id \<in> revoked then denied REVOKED (Some key_id)
                             else Inr \<lparr>static_deny = None, static_payload = Some payload\<rparr>)))"

definition device_sign :: "('sk, 'pk) platform \<Rightarrow> pystr \<Rightarrow> bytes \<Rightarrow> exn + bytes" where
  "device_sign P device_sk_b64 challenge =
     (case b64u_decode device_sk_b64 of
        Inl e \<Rightarrow> Inl e
      | Inr raw \<Rightarrow>
          (case from_private_bytes P raw of
             None \<Rightarrow> Inl ValueError
           | Some device_sk \<Rightarrow> Inr (sign P device_sk challenge)))"

end
