(* ===== verification/Credential_Facts.thy ===== *)
theory Credential_Facts
  imports Credential
begin

text \<open>
  Issued tokens parse back to their payload, and the static checks of the verifier
  in closed form: what a passing token satisfies, and what each issued token gets.
\<close>

section \<open>Text in tokens\<close>

definition text_ok :: "pystr \<Rightarrow> bool" where
  "text_ok s \<longleftrightarrow> list_all is_scalar s"

lemma ascii_scalar: "c < 256 \<Longrightarrow> is_scalar c"
  by (simp add: is_scalar_def is_high_surrogate_def is_low_surrogate_def)

lemma text_ok_lit [simp]: "text_ok (lit s)"
  unfolding text_ok_def list_all_iff using lit_code_points ascii_scalar by blast

lemma set_rstrip: "set (rstrip c s) \<subseteq> set s"
  by (induction s) auto

lemma b64_char_not_DOT: "v < 64 \<Longrightarrow> b64_char v \<noteq> 46"
  by (auto simp: b64_char_def unat_arith_simps split: if_splits)

lemmas b64_char_dots = b64_char_not_DOT [OF sextet_ranges(1)] b64_char_not_DOT [OF sextet_ranges(2)]
  b64_char_not_DOT [OF sextet_ranges(3)] b64_char_not_DOT [OF sextet_ranges(4)]
  b64_char_not_DOT [OF sextet_ranges(5)] b64_char_not_DOT [OF sextet_ranges(6)]

lemma b64encode_no_dot: "46 \<notin> set (b64encode raw)"
  by (induction raw rule: b64encode.induct)
    (use b64_char_dots [symmetric] in \<open>simp_all add: PAD_def del: push_bit_and\<close>)

lemma b64u_encode_no_dot: "46 \<notin> set (b64u_encode raw)"
  using b64encode_no_dot set_rstrip [of PAD "b64encode raw"] by (auto simp: b64u_encode_def)

lemma text_ok_b64u [simp]: "text_ok (b64u_encode raw)"
proof -
  have "c < 128" if "c \<in> set (b64u_encode raw)" for c
    using that b64encode_ascii [of raw] set_rstrip [of PAD "b64encode raw"]
    by (auto simp: b64u_encode_def list_all_iff)
  then show ?thesis by (force simp: text_ok_def list_all_iff intro: ascii_scalar)
qed

lemma dec_nat_length: "n < 10 ^ k \<Longrightarrow> 0 < k \<Longrightarrow> length (dec_nat n) \<le> k"
proof (induction n arbitrary: k rule: dec_nat.induct)
  case (1 n)
  show ?case
  proof (cases "n < 10")
    case True
    with "1.prems" show ?thesis by (subst dec_nat.simps) simp
  next
    case False
    obtain j where k: "k = Suc j" using "1.prems" by (cases k) auto
    then have "n div 10 < 10 ^ j" using "1.prems" by (simp add: less_mult_imp_div_less)
    moreover have "0 < j" using k False "1.prems" by (cases j) auto
    ultimately have "length (dec_nat (n div 10)) \<le> j" using False "1.IH" by blast
    then show ?thesis using False k by (subst dec_nat.simps) simp
  qed
qed

text \<open>Every 64-bit integer is short enough to print.\<close>

lemma short_int_64:
  assumes "\<bar>i\<bar> \<le> 2 ^ 63"
  shows "short_int i"
proof -
  have "nat \<bar>i\<bar> < 10 ^ 20" using assms by (simp add: nat_less_iff)
  from dec_nat_length [OF this] show ?thesis by (simp add: short_int_def MAX_STR_DIGITS_def)
qed

section \<open>The token of an issued credential\<close>

text \<open>The arguments name their entities with Unicode text and times that print.\<close>

definition args_ok :: "'sk fresh \<Rightarrow> 'sk issue_args \<Rightarrow> bool" where
  "args_ok f a \<longleftrightarrow>
     text_ok (or_else (ia_key_id a) (fresh_uuid f)) \<and> text_ok (ia_guest_id a) \<and>
     text_ok (ia_stay_id a) \<and> text_ok (ia_property_id a) \<and>
     text_ok (or_else (ia_nonce a) (fresh_hex f)) \<and>
     list_all short_int (ia_room_ids a) \<and> short_int (ia_valid_from a) \<and>
     short_int (ia_valid_until a) \<and> short_int (ia_issued_at a)"

text \<open>What a call draws is Unicode text, as \<open>uuid4().hex\<close> and \<open>token_hex\<close> are.\<close>

definition fresh_ok :: "'sk fresh \<Rightarrow> bool" where
  "fresh_ok f \<longleftrightarrow> text_ok (fresh_uuid f) \<and> text_ok (fresh_hex f)"

lemma issue_payload_keys: "distinct (map fst (issue_payload P f a))"
  by (simp add: issue_payload_def)

lemma short_PAYLOAD_VERSION: "short_int PAYLOAD_VERSION"
  by (rule short_int_64) (simp add: PAYLOAD_VERSION_def)

lemma issue_payload_nests: "nests (nesting_limit P) (JObj (issue_payload P f a))"
  by (simp add: issue_payload_def nesting_limit_def list_all_iff)

lemma issue_payload_plain:
  assumes "args_ok f a"
  shows "plain (JObj (issue_payload P f a))" and "short_ints (JObj (issue_payload P f a))"
  using assms issue_payload_keys [of P f a] short_PAYLOAD_VERSION
    text_ok_lit [unfolded text_ok_def] text_ok_b64u [unfolded text_ok_def]
  by (auto simp: issue_payload_def args_ok_def text_ok_def list_all_iff)

definition sorted_payload :: "payload \<Rightarrow> payload" where
  "sorted_payload p = sort_key fst p"

lemma sort_keys_issue_payload:
  "sort_keys (JObj (issue_payload P f a)) = JObj (sorted_payload (issue_payload P f a))"
proof -
  have "map (sort_keys \<circ> JInt) xs = map JInt xs" for xs by simp
  then have "map (\<lambda>(k, v). (k, sort_keys v)) (issue_payload P f a) = issue_payload P f a"
    by (simp add: issue_payload_def)
  then show ?thesis by (simp add: sorted_payload_def)
qed

lemma map_of_sorted_payload:
  "distinct (map fst p) \<Longrightarrow> map_of (sorted_payload p) = map_of p"
  unfolding sorted_payload_def by (rule map_of_sort_key)

lemma canonical_bytes_issue:
  assumes "args_ok f a"
  obtains b where "canonical_bytes P (issue_payload P f a) = Inr b"
    "json_loads (nesting_limit P) b = Inr (JObj (sorted_payload (issue_payload P f a)))"
proof -
  note ok = issue_payload_plain [OF assms, of P]
  then obtain s where s: "json_dumps (nesting_limit P) (float_repr P) (JObj (issue_payload P f a)) = Inr s"
    by (simp add: json_dumps_def issue_payload_nests del: short_ints.simps plain.simps nests.simps)
  note loads = json_loads_dumps [OF ok(1) s]
  show ?thesis
  proof (rule that)
    show "canonical_bytes P (issue_payload P f a) = Inr (map word_of_nat s)"
      by (simp add: canonical_bytes_def s utf8_encode_printable [OF loads(1)])
    show "json_loads (nesting_limit P) (map word_of_nat s) = Inr (JObj (sorted_payload (issue_payload P f a)))"
      using loads(2) by (simp only: sort_keys_issue_payload)
  qed
qed

text \<open>A token of two base64url segments splits at its dot.\<close>

lemma parse_token_segments:
  "parse_token P (b64u_encode b @ lit ''.'' @ b64u_encode s) =
     (case json_loads (nesting_limit P) b of
        Inl e \<Rightarrow> if e = ValueError then Inr None else Inl e
      | Inr (JObj p) \<Rightarrow>
          if map_of p (lit ''key_id'') = None then Inr None
          else Inr (Some \<lparr>pt_payload = p, pt_payload_bytes = b, pt_signature = s\<rparr>)
      | Inr _ \<Rightarrow> Inr None)"
proof -
  have dot: "lit ''.'' = [46]" by (simp add: lit_def)
  have nd: "46 \<notin> set (b64u_encode x)" for x by (rule b64u_encode_no_dot)
  then have "count_list (b64u_encode b @ 46 # b64u_encode s) 46 = 1" by simp
  moreover have "takeWhile (\<lambda>c. c \<noteq> 46) (b64u_encode b @ 46 # b64u_encode s) = b64u_encode b"
    "dropWhile (\<lambda>c. c \<noteq> 46) (b64u_encode b @ 46 # b64u_encode s) = 46 # b64u_encode s"
    using nd by (auto simp: takeWhile_append dropWhile_append)
  ultimately show ?thesis
    by (simp add: parse_token_def dot DOT_def b64u_decode_encode split: sum.split json.split)
qed

lemma issue_credential_Inr:
  assumes "args_ok f a" "ia_valid_from a < ia_valid_until a"
  obtains b where
    "canonical_bytes P (issue_payload P f a) = Inr b"
    "issue_credential P f sk a = Inr \<lparr>ik_key_id = or_else (ia_key_id a) (fresh_uuid f),
       ik_token = b64u_encode b @ lit ''.'' @ b64u_encode (sign P sk b),
       ik_device_sk_b64 = b64u_encode (private_bytes P (device_key f a)),
       ik_payload = issue_payload P f a\<rparr>"
    "parse_token P (b64u_encode b @ lit ''.'' @ b64u_encode (sign P sk b)) =
       Inr (Some \<lparr>pt_payload = sorted_payload (issue_payload P f a), pt_payload_bytes = b,
             pt_signature = sign P sk b\<rparr>)"
proof -
  obtain b where b: "canonical_bytes P (issue_payload P f a) = Inr b"
    "json_loads (nesting_limit P) b = Inr (JObj (sorted_payload (issue_payload P f a)))"
    by (rule canonical_bytes_issue [OF assms(1)])
  have "map_of (issue_payload P f a) (lit ''key_id'') \<noteq> None"
    by (simp add: issue_payload_def)
  then show ?thesis
    using b assms(2) that
    by (simp add: issue_credential_def Let_def parse_token_segments
        map_of_sorted_payload issue_payload_keys)
qed

lemma issued_fields:
  assumes "issue_credential P f sk a = Inr ik"
  shows "ik_key_id ik = or_else (ia_key_id a) (fresh_uuid f)" "ik_payload ik = issue_payload P f a"
    "ia_valid_from a < ia_valid_until a"
  using assms by (auto simp: issue_credential_def Let_def split: if_splits sum.splits)

lemma issue_credential_error:
  "ia_valid_until a \<le> ia_valid_from a \<Longrightarrow> issue_credential P f sk a = Inl ValidationError"
  by (simp add: issue_credential_def)

section \<open>The static checks\<close>

text \<open>What a payload must satisfy at a door, once its signature is verified.\<close>

definition static_ok ::
  "('sk, 'pk) platform \<Rightarrow> payload \<Rightarrow> pystr \<Rightarrow> int \<Rightarrow> time \<Rightarrow> pystr set \<Rightarrow> bool" where
  "static_ok P p expected_property expected_room now revoked \<longleftrightarrow>
     \<not> list_ex (\<lambda>k. map_of p k = None) required_fields \<and>
     field p ''property_id'' = JStr expected_property \<and>
     (\<exists>rooms. field p ''room_ids'' = JArr rooms \<and> int_in expected_room rooms) \<and>
     (\<exists>t. py_int P (field p ''valid_from'') = Inr t \<and> t \<le> now) \<and>
     (\<exists>t. py_int P (field p ''valid_until'') = Inr t \<and> now \<le> t) \<and>
     py_str P (field p ''key_id'') \<notin> revoked"

text \<open>The token carries the payload under a valid signature of the property.\<close>

definition token_carries ::
  "('sk, 'pk) platform \<Rightarrow> 'pk \<Rightarrow> pystr \<Rightarrow> payload \<Rightarrow> bool" where
  "token_carries P property_pub token p \<longleftrightarrow>
     (\<exists>parsed. parse_token P token = Inr (Some parsed) \<and> pt_payload parsed = p \<and>
        signature_ok P property_pub (pt_payload_bytes parsed) (pt_signature parsed))"

lemma evaluate_static_cases:
  assumes "evaluate_static P token pub prop room now revoked = r"
  obtains (raised) e where "r = Inl e"
    | (denied) reason k where "r = denied reason k" "reason \<in> {MALFORMED, FORGED_SIGNATURE,
        WRONG_PROPERTY, WRONG_ROOM, NOT_YET_VALID, EXPIRED, REVOKED}"
    | (passed) p where "r = Inr \<lparr>static_deny = None, static_payload = Some p\<rparr>"
        "token_carries P pub token p" "static_ok P p prop room now revoked"
proof (cases "parse_token P token")
  case (Inl e)
  with assms show ?thesis by (auto simp: evaluate_static_def intro: raised)
next
  case (Inr found)
  show ?thesis
  proof (cases found)
    case None
    with assms Inr show ?thesis by (auto simp: evaluate_static_def intro: denied)
  next
    case (Some parsed)
    let ?p = "pt_payload parsed"
    show ?thesis
    proof (cases "token_carries P pub token ?p \<and> static_ok P ?p prop room now revoked")
      case True
      then have "r = Inr \<lparr>static_deny = None, static_payload = Some ?p\<rparr>"
        using assms Inr Some
        by (auto simp: evaluate_static_def Let_def token_carries_def static_ok_def)
      then show ?thesis using True passed by blast
    next
      case False
      then have "(\<exists>e. r = Inl e) \<or> (\<exists>reason k. r = Credential.denied reason k \<and> reason \<in> {MALFORMED, FORGED_SIGNATURE,
          WRONG_PROPERTY, WRONG_ROOM, NOT_YET_VALID, EXPIRED, REVOKED})"
        using assms Inr Some
        by (auto simp: evaluate_static_def Let_def token_carries_def static_ok_def
            split: if_splits sum.splits json.splits)
      then show ?thesis using raised denied by blast
    qed
  qed
qed

lemma evaluate_static_pass:
  "evaluate_static P token pub prop room now revoked =
     Inr \<lparr>static_deny = None, static_payload = Some p\<rparr> \<longleftrightarrow>
   token_carries P pub token p \<and> static_ok P p prop room now revoked"
proof
  assume e: "evaluate_static P token pub prop room now revoked =
     Inr \<lparr>static_deny = None, static_payload = Some p\<rparr>"
  show "token_carries P pub token p \<and> static_ok P p prop room now revoked"
    by (rule evaluate_static_cases [OF e]) (simp_all add: denied_def)
next
  assume "token_carries P pub token p \<and> static_ok P p prop room now revoked"
  then show "evaluate_static P token pub prop room now revoked =
     Inr \<lparr>static_deny = None, static_payload = Some p\<rparr>"
    by (auto simp: evaluate_static_def Let_def token_carries_def static_ok_def)
qed

text \<open>The decision on a payload \<open>issue_credential\<close> wrote, in the order of the checks.\<close>

definition issued_decision ::
  "pystr \<Rightarrow> 'sk issue_args \<Rightarrow> pystr \<Rightarrow> int \<Rightarrow> time \<Rightarrow> pystr set \<Rightarrow> DenyReason option" where
  "issued_decision key_id a expected_property expected_room now revoked =
     (if ia_property_id a \<noteq> expected_property then Some WRONG_PROPERTY
      else if expected_room \<notin> set (ia_room_ids a) then Some WRONG_ROOM
      else if now < ia_valid_from a then Some NOT_YET_VALID
      else if now > ia_valid_until a then Some EXPIRED
      else if key_id \<in> revoked then Some REVOKED
      else None)"

lemma field_issue_payload:
  "map_of p = map_of (issue_payload P f a) \<Longrightarrow>
     field p ''key_id'' = JStr (or_else (ia_key_id a) (fresh_uuid f)) \<and>
     field p ''stay_id'' = JStr (ia_stay_id a) \<and>
     field p ''property_id'' = JStr (ia_property_id a) \<and>
     field p ''room_ids'' = JArr (map JInt (sort (ia_room_ids a))) \<and>
     field p ''valid_from'' = JInt (ia_valid_from a) \<and>
     field p ''valid_until'' = JInt (ia_valid_until a) \<and>
     field p ''device_pub'' = JStr (b64u_encode (public_bytes P (public_key P (device_key f a)))) \<and>
     \<not> list_ex (\<lambda>k. map_of p k = None) required_fields"
  by (simp add: field_def issue_payload_def required_fields_def)

lemma evaluate_static_issued:
  assumes "args_ok f a" "issue_credential P f sk a = Inr ik"
    and sig: "\<And>m. verify P pub (sign P sk m) m"
  shows "evaluate_static P (ik_token ik) pub prop room now revoked =
    (case issued_decision (ik_key_id ik) a prop room now revoked of
       Some r \<Rightarrow> denied r (Some (ik_key_id ik))
     | None \<Rightarrow> Inr \<lparr>static_deny = None, static_payload = Some (sorted_payload (ik_payload ik))\<rparr>)"
proof -
  have "ia_valid_from a < ia_valid_until a"
    using assms(2) by (auto simp: issue_credential_def split: if_splits)
  from issue_credential_Inr [OF assms(1) this, of P sk] obtain b where b:
    "issue_credential P f sk a = Inr \<lparr>ik_key_id = or_else (ia_key_id a) (fresh_uuid f),
       ik_token = b64u_encode b @ lit ''.'' @ b64u_encode (sign P sk b),
       ik_device_sk_b64 = b64u_encode (private_bytes P (device_key f a)),
       ik_payload = issue_payload P f a\<rparr>"
    "parse_token P (b64u_encode b @ lit ''.'' @ b64u_encode (sign P sk b)) =
       Inr (Some \<lparr>pt_payload = sorted_payload (issue_payload P f a), pt_payload_bytes = b,
             pt_signature = sign P sk b\<rparr>)" by metis
  have ik: "ik_key_id ik = or_else (ia_key_id a) (fresh_uuid f)"
    "ik_token ik = b64u_encode b @ lit ''.'' @ b64u_encode (sign P sk b)"
    "ik_payload ik = issue_payload P f a"
    using assms(2) b(1) by auto
  note fields = field_issue_payload [OF map_of_sorted_payload [OF issue_payload_keys], of P f a]
  show ?thesis
    using sig by (simp add: evaluate_static_def ik b(2) signature_ok_def Let_def fields
        issued_decision_def)
qed

section \<open>Possession of the device key\<close>

lemma device_sign_issued:
  assumes "ed25519 P" "issue_credential P f sk a = Inr ik"
  shows "device_sign P (ik_device_sk_b64 ik) c = Inr (sign P (device_key f a) c)"
  using assms
  by (auto simp: issue_credential_def device_sign_def Let_def b64u_decode_encode ed25519_simps
      split: if_splits sum.splits)

lemma verify_device_response_issued:
  assumes "ed25519 P"
  shows "verify_device_response P (JStr (b64u_encode (public_bytes P pk))) c r = Inr (verify P pk r c)"
  using assms by (simp add: verify_device_response_def b64u_decode_encode ed25519_simps)

end
