(* ===== verification/Antireplay.thy ===== *)
theory Antireplay
  imports Errors
begin

text \<open>
  \<open>staykey/antireplay.py\<close>: the single-use challenge store. The random nonce of
  \<open>issue\<close> is an argument. The contract its two clients use is the locale
  \<open>nonce_store\<close>; the store of the code is its interpretation.
\<close>

section \<open>The store\<close>

datatype ChallengeStatus = OK | UNKNOWN | STATUS_REPLAYED

record ChallengeStore =
  ttl :: int
  nonce_bytes :: int
  pending :: "(bytes \<times> time) list"
  consumed :: "(bytes \<times> time) list"

definition new_store :: "int \<Rightarrow> int \<Rightarrow> ChallengeStore" where
  "new_store ttl_seconds n = \<lparr>ttl = ttl_seconds, nonce_bytes = n, pending = [], consumed = []\<rparr>"

text \<open>The keys of the entries older than \<open>limit\<close>, and \<open>dict.pop(c, None)\<close> of each.\<close>

definition expired :: "int \<Rightarrow> time \<Rightarrow> (bytes \<times> time) list \<Rightarrow> bytes list" where
  "expired limit now d = map fst (filter (\<lambda>(c, t). now - t > limit) d)"

definition pop_all :: "bytes list \<Rightarrow> (bytes \<times> time) list \<Rightarrow> (bytes \<times> time) list" where
  "pop_all cs d = fold AList.delete cs d"

definition gc :: "time \<Rightarrow> ChallengeStore \<Rightarrow> ChallengeStore" where
  "gc now s =
     s\<lparr>pending := pop_all (expired (ttl s) now (pending s)) (pending s),
       consumed := pop_all (expired (ttl s * 4) now (consumed s)) (consumed s)\<rparr>"

text \<open>\<open>challenge\<close> is what \<open>os.urandom\<close> returned.\<close>

definition issue :: "bytes \<Rightarrow> time \<Rightarrow> ChallengeStore \<Rightarrow> ChallengeStore" where
  "issue challenge now s =
     (let s' = gc now s in s'\<lparr>pending := AList.update challenge now (pending s')\<rparr>)"

definition check :: "ChallengeStore \<Rightarrow> bytes \<Rightarrow> time \<Rightarrow> ChallengeStatus" where
  "check s challenge now =
     (if map_of (consumed s) challenge \<noteq> None then STATUS_REPLAYED
      else case map_of (pending s) challenge of
             None \<Rightarrow> UNKNOWN
           | Some issued_at \<Rightarrow> if now - issued_at > ttl s then UNKNOWN else OK)"

definition consume :: "bytes \<Rightarrow> time \<Rightarrow> ChallengeStore \<Rightarrow> ChallengeStore" where
  "consume challenge now s =
     s\<lparr>pending := AList.delete challenge (pending s),
       consumed := AList.update challenge now (consumed s)\<rparr>"

section \<open>The contract of a single-use challenge store\<close>

text \<open>
  What the lock and the connected-room authorizer rely on: consuming makes a
  challenge replayed and touches no other; issuing revives no other challenge, and
  makes its own valid for \<open>lifetime\<close> seconds, unless it was consumed before.
\<close>

locale nonce_store =
  fixes chk :: "'s \<Rightarrow> 'c \<Rightarrow> time \<Rightarrow> ChallengeStatus"
    and iss :: "'c \<Rightarrow> time \<Rightarrow> 's \<Rightarrow> 's"
    and con :: "'c \<Rightarrow> time \<Rightarrow> 's \<Rightarrow> 's"
    and inv :: "'s \<Rightarrow> bool"
    and lifetime :: "'s \<Rightarrow> int"
  assumes consume_same: "chk (con c t s) c t' = STATUS_REPLAYED"
    and consume_other: "c \<noteq> d \<Longrightarrow> chk (con c t s) d t' = chk s d t'"
    and issue_OK_iff: "inv s \<Longrightarrow> chk s c t \<noteq> STATUS_REPLAYED \<Longrightarrow>
      chk (iss c t s) c t' = OK \<longleftrightarrow> t' - t \<le> lifetime s"
    and issue_other_OK: "inv s \<Longrightarrow> c \<noteq> d \<Longrightarrow> chk (iss c t s) d t' = OK \<Longrightarrow> chk s d t' = OK"
    and issue_not_replayed: "inv s \<Longrightarrow> chk (iss c t s) d t' = STATUS_REPLAYED \<Longrightarrow>
      chk s d t' = STATUS_REPLAYED"
    and inv_issue: "inv s \<Longrightarrow> chk s c t \<noteq> STATUS_REPLAYED \<Longrightarrow> inv (iss c t s)"
    and inv_consume: "inv s \<Longrightarrow> inv (con c t s)"
begin

text \<open>
  The history of a store: \<open>issued\<close> challenges and those \<open>accepted\<close> (found valid
  and then consumed), newest first.
\<close>

definition tracks :: "'s \<Rightarrow> 'c list \<Rightarrow> 'c list \<Rightarrow> bool" where
  "tracks s issued accepted \<longleftrightarrow>
     inv s \<and> distinct accepted \<and> set accepted \<subseteq> set issued \<and>
     (\<forall>c t. c \<notin> set issued \<longrightarrow> chk s c t = UNKNOWN) \<and>
     (\<forall>c t. c \<in> set accepted \<longrightarrow> chk s c t \<noteq> OK)"

lemma tracks_inv: "tracks s issued accepted \<Longrightarrow> inv s"
  by (simp add: tracks_def)

lemma tracks_distinct: "tracks s issued accepted \<Longrightarrow> distinct accepted"
  by (simp add: tracks_def)

lemma tracks_accepted_issued: "tracks s issued accepted \<Longrightarrow> set accepted \<subseteq> set issued"
  by (simp add: tracks_def)

lemma tracks_init: "inv s \<Longrightarrow> (\<And>c t. chk s c t = UNKNOWN) \<Longrightarrow> tracks s [] []"
  by (simp add: tracks_def)

lemma OK_issued: "tracks s issued accepted \<Longrightarrow> chk s c t = OK \<Longrightarrow> c \<in> set issued - set accepted"
  by (auto simp: tracks_def)

lemma tracks_issue:
  assumes "tracks s issued accepted" "c \<notin> set issued"
  shows "tracks (iss c t s) (c # issued) accepted"
proof -
  have i: "inv s" and new: "chk s c t = UNKNOWN"
    using assms by (auto simp: tracks_def)
  have unknown: "chk (iss c t s) d t' = UNKNOWN" if "d \<notin> set (c # issued)" for d t'
  proof -
    have d: "chk s d t' = UNKNOWN" "c \<noteq> d" using assms that by (auto simp: tracks_def)
    show ?thesis
      using issue_other_OK [OF i d(2), of t t'] issue_not_replayed [OF i, of c t d t'] d(1)
      by (cases "chk (iss c t s) d t'") auto
  qed
  have spent: "chk (iss c t s) d t' \<noteq> OK" if "d \<in> set accepted" for d t'
  proof -
    have "c \<noteq> d" "chk s d t' \<noteq> OK" using assms that by (auto simp: tracks_def)
    then show ?thesis using issue_other_OK [OF i] by blast
  qed
  have "inv (iss c t s)" by (rule inv_issue [OF i]) (simp add: new)
  then show ?thesis
    unfolding tracks_def using assms unknown spent by (auto simp: tracks_def)
qed

lemma tracks_accept:
  assumes "tracks s issued accepted" "chk s c t = OK"
  shows "tracks (con c t s) issued (c # accepted)"
proof -
  have c: "c \<in> set issued" "c \<notin> set accepted" using OK_issued [OF assms] by auto
  have "chk (con c t s) d t' \<noteq> OK" if "d \<in> set (c # accepted)" for d t'
    using that assms(1) consume_same consume_other [of c d t s t']
    by (cases "d = c") (auto simp: tracks_def)
  moreover have "chk (con c t s) d t' = UNKNOWN" if "d \<notin> set issued" for d t'
    using that c assms(1) consume_other [of c d t s t'] by (auto simp: tracks_def)
  ultimately show ?thesis
    using assms(1) c by (auto simp: tracks_def intro: inv_consume)
qed

end

section \<open>The store meets the contract\<close>

lemma map_of_pop_all: "map_of (pop_all cs d) c = (if c \<in> set cs then None else map_of d c)"
proof (induction cs arbitrary: d)
  case (Cons a cs)
  then show ?case by (simp add: pop_all_def delete_conv)
qed (simp add: pop_all_def)

lemma distinct_pop_all: "distinct (map fst d) \<Longrightarrow> distinct (map fst (pop_all cs d))"
  unfolding pop_all_def by (induction cs arbitrary: d) (auto intro: distinct_delete)

lemma in_expired:
  "distinct (map fst d) \<Longrightarrow>
     c \<in> set (expired l now d) \<longleftrightarrow> (\<exists>t. map_of d c = Some t \<and> now - t > l)"
  by (force simp: expired_def map_of_eq_Some_iff)

text \<open>Collection is a filter: it drops exactly the entries past their age.\<close>

definition young :: "int \<Rightarrow> time \<Rightarrow> time option \<Rightarrow> time option" where
  "young l now x = (case x of None \<Rightarrow> None | Some t \<Rightarrow> if now - t > l then None else Some t)"

lemma young_simps [simp]:
  "young l now None = None"
  "young l now (Some t) = (if now - t > l then None else Some t)"
  by (simp_all add: young_def)

lemma young_cases: "young l now x = None \<or> young l now x = x"
  by (cases x) auto

lemma map_of_collected:
  assumes "distinct (map fst d)"
  shows "map_of (pop_all (expired l now d) d) c = young l now (map_of d c)"
proof (cases "map_of d c")
  case None
  then show ?thesis by (simp add: map_of_pop_all)
next
  case (Some t)
  then have "c \<in> set (expired l now d) \<longleftrightarrow> now - t > l"
    using in_expired [OF assms] by simp
  then show ?thesis using Some by (simp add: map_of_pop_all)
qed

definition store_inv :: "ChallengeStore \<Rightarrow> bool" where
  "store_inv s \<longleftrightarrow>
     distinct (map fst (pending s)) \<and> distinct (map fst (consumed s)) \<and>
     (\<forall>c. map_of (pending s) c = None \<or> map_of (consumed s) c = None)"

lemma store_inv_new: "store_inv (new_store l n)"
  by (simp add: store_inv_def new_store_def)

lemma check_new: "check (new_store l n) c t = UNKNOWN"
  by (simp add: check_def new_store_def)

lemma map_of_update: "map_of (AList.update k v d) = (map_of d)(k \<mapsto> v)"
  by (rule update_conv')

lemma map_of_delete: "map_of (AList.delete k d) = (map_of d)(k := None)"
  by (rule delete_conv')

lemma ttl_issue [simp]: "ttl (issue c t s) = ttl s"
  by (simp add: issue_def gc_def Let_def)

lemma ttl_consume [simp]: "ttl (consume c t s) = ttl s"
  by (simp add: consume_def)

text \<open>The two dictionaries after each operation.\<close>

lemma after_consume:
  "map_of (pending (consume c t s)) = (map_of (pending s))(c := None)"
  "map_of (consumed (consume c t s)) = (map_of (consumed s))(c \<mapsto> t)"
  by (simp_all add: consume_def map_of_update map_of_delete)

lemma after_issue:
  assumes "store_inv s"
  shows "map_of (pending (issue c t s)) = (\<lambda>d. young (ttl s) t (map_of (pending s) d))(c \<mapsto> t)"
    and "map_of (consumed (issue c t s)) = (\<lambda>d. young (ttl s * 4) t (map_of (consumed s) d))"
  using assms
  by (simp_all add: issue_def gc_def Let_def map_of_update map_of_collected store_inv_def fun_eq_iff)

lemma store_inv_consume: "store_inv s \<Longrightarrow> store_inv (consume c t s)"
  unfolding store_inv_def after_consume
  by (simp add: consume_def distinct_update distinct_delete)

lemma check_replayed_iff: "check s c t = STATUS_REPLAYED \<longleftrightarrow> map_of (consumed s) c \<noteq> None"
  by (auto simp: check_def split: option.split)

lemma check_OK_iff:
  "check s c t = OK \<longleftrightarrow>
     map_of (consumed s) c = None \<and> (\<exists>t0. map_of (pending s) c = Some t0 \<and> t - t0 \<le> ttl s)"
  by (auto simp: check_def split: option.split)

lemma store_inv_issue:
  assumes "store_inv s" "check s c t \<noteq> STATUS_REPLAYED"
  shows "store_inv (issue c t s)"
  unfolding store_inv_def
proof (intro conjI allI)
  show "distinct (map fst (pending (issue c t s)))" "distinct (map fst (consumed (issue c t s)))"
    using assms(1)
    by (simp_all add: store_inv_def issue_def gc_def Let_def distinct_update distinct_pop_all)
  fix d
  have "map_of (consumed s) c = None" using assms(2) by (simp add: check_replayed_iff)
  moreover have "map_of (pending s) d = None \<or> map_of (consumed s) d = None"
    using assms(1) by (simp add: store_inv_def)
  ultimately show "map_of (pending (issue c t s)) d = None \<or> map_of (consumed (issue c t s)) d = None"
    by (auto simp: after_issue [OF assms(1)] young_def)
qed

interpretation challenges: nonce_store check issue consume store_inv ttl
proof unfold_locales
  fix c d t t' s
  show "check (consume c t s) c t' = STATUS_REPLAYED"
    by (simp add: check_replayed_iff after_consume)
  show "c \<noteq> d \<Longrightarrow> check (consume c t s) d t' = check s d t'"
    by (simp add: check_def after_consume split: option.split)
  show "store_inv s \<Longrightarrow> check s c t \<noteq> STATUS_REPLAYED \<Longrightarrow>
      check (issue c t s) c t' = OK \<longleftrightarrow> t' - t \<le> ttl s"
    by (simp add: check_OK_iff check_replayed_iff after_issue)
  show "check s d t' = OK" if inv: "store_inv s" and ok: "c \<noteq> d" "check (issue c t s) d t' = OK"
  proof -
    obtain t0 where t0: "map_of (pending s) d = Some t0" "t' - t0 \<le> ttl s"
      using ok young_cases [of "ttl s" t "map_of (pending s) d"]
      by (auto simp: check_OK_iff after_issue [OF inv])
    moreover have "map_of (consumed s) d = None"
      using inv t0(1) by (metis store_inv_def option.distinct(1))
    ultimately show ?thesis by (simp add: check_OK_iff)
  qed
  show "store_inv s \<Longrightarrow> check (issue c t s) d t' = STATUS_REPLAYED \<Longrightarrow> check s d t' = STATUS_REPLAYED"
    by (cases "map_of (consumed s) d") (auto simp: check_replayed_iff after_issue)
qed (auto intro: store_inv_consume store_inv_issue)

end
