(* ===== verification/Lock.thy ===== *)
theory Lock
  imports Credential_Facts Antireplay
begin

text \<open>
  \<open>staykey/lock.py\<close>: the offline door lock. Its state is the property public key,
  the last synced revocation snapshot and its challenge store; each operation is a
  function of that state and its arguments alone.
\<close>

section \<open>State and operations\<close>

record 'pk LockVerifier =
  lock_property_id :: pystr
  lock_room_id :: int
  lock_property_pub :: 'pk
  lock_revoked :: "pystr set"
  lock_challenges :: ChallengeStore

definition new_lock ::
  "('sk, 'pk) platform \<Rightarrow> pystr \<Rightarrow> int \<Rightarrow> bytes \<Rightarrow> pystr list \<Rightarrow> exn + 'pk LockVerifier" where
  "new_lock P property_id room_id property_pub_raw revoked =
     (case from_public_bytes P property_pub_raw of
        None \<Rightarrow> Inl ValueError
      | Some pub \<Rightarrow>
          Inr \<lparr>lock_property_id = property_id, lock_room_id = room_id, lock_property_pub = pub,
               lock_revoked = set revoked,
               lock_challenges = new_store CHALLENGE_TTL_SECONDS CHALLENGE_NONCE_BYTES\<rparr>)"

definition sync_revocations :: "pystr list \<Rightarrow> 'pk LockVerifier \<Rightarrow> 'pk LockVerifier" where
  "sync_revocations revoked lk = lk\<lparr>lock_revoked := set revoked\<rparr>"

text \<open>\<open>challenge\<close> is the random nonce the store draws; it is what the call returns.\<close>

definition begin_unlock :: "bytes \<Rightarrow> time \<Rightarrow> 'pk LockVerifier \<Rightarrow> 'pk LockVerifier" where
  "begin_unlock challenge now lk = lk\<lparr>lock_challenges := issue challenge now (lock_challenges lk)\<rparr>"

definition finish_unlock ::
  "('sk, 'pk) platform \<Rightarrow> pystr \<Rightarrow> bytes \<Rightarrow> bytes \<Rightarrow> time \<Rightarrow> ('pk LockVerifier, Decision) exec" where
  "finish_unlock P token challenge response now lk =
     (case evaluate_static P token (lock_property_pub lk) (lock_property_id lk) (lock_room_id lk)
             now (lock_revoked lk) of
        Inl e \<Rightarrow> (Inl e, lk)
      | Inr static \<Rightarrow>
          (case static_deny static of
             Some d \<Rightarrow> (Inr d, lk)
           | None \<Rightarrow>
               (case static_payload static of
                  None \<Rightarrow> (Inl AssertionError, lk)
                | Some payload \<Rightarrow>
                    let key_id = py_str P (field payload ''key_id'');
                        status = check (lock_challenges lk) challenge now
                    in if status = STATUS_REPLAYED then (Inr (deny REPLAYED (Some key_id)), lk)
                       else if status = UNKNOWN then (Inr (deny UNKNOWN_CHALLENGE (Some key_id)), lk)
                       else
                         (case verify_device_response P (field payload ''device_pub'')
                                 challenge response of
                            Inl e \<Rightarrow> (Inl e, lk)
                          | Inr False \<Rightarrow> (Inr (deny BAD_RESPONSE (Some key_id)), lk)
                          | Inr True \<Rightarrow>
                              (Inr (unlock key_id),
                               lk\<lparr>lock_challenges :=
                                    consume challenge now (lock_challenges lk)\<rparr>)))))"

section \<open>The decision in closed form\<close>

text \<open>
  The promise of the lock: the six checks of the design, as one predicate on the
  state and the presentation.
\<close>

definition opens ::
  "('sk, 'pk) platform \<Rightarrow> 'pk LockVerifier \<Rightarrow> pystr \<Rightarrow> bytes \<Rightarrow> bytes \<Rightarrow> time \<Rightarrow> payload \<Rightarrow> bool" where
  "opens P lk token challenge response now p \<longleftrightarrow>
     token_carries P (lock_property_pub lk) token p \<and>
     static_ok P p (lock_property_id lk) (lock_room_id lk) now (lock_revoked lk) \<and>
     check (lock_challenges lk) challenge now = OK \<and>
     verify_device_response P (field p ''device_pub'') challenge response = Inr True"

definition after_unlock :: "bytes \<Rightarrow> time \<Rightarrow> 'pk LockVerifier \<Rightarrow> 'pk LockVerifier" where
  "after_unlock challenge now lk =
     lk\<lparr>lock_challenges := consume challenge now (lock_challenges lk)\<rparr>"

text \<open>Every run of \<open>finish_unlock\<close> either opens and consumes, or changes nothing.\<close>

lemma finish_unlock_cases:
  assumes "finish_unlock P token challenge response now lk = (r, lk')"
  obtains (opened) p where "opens P lk token challenge response now p"
        "r = Inr (unlock (py_str P (field p ''key_id'')))" "lk' = after_unlock challenge now lk"
    | (denied) reason k where "r = Inr (deny reason k)" "lk' = lk"
    | (raised) e where "r = Inl e" "lk' = lk"
proof (cases rule: evaluate_static_cases [OF refl, of P token "lock_property_pub lk"
      "lock_property_id lk" "lock_room_id lk" now "lock_revoked lk"])
  case 1
  with assms show ?thesis by (auto simp: finish_unlock_def intro: raised)
next
  case 2
  with assms show ?thesis by (auto simp: finish_unlock_def Credential.denied_def intro: denied)
next
  case (3 p)
  show ?thesis
  proof (cases "check (lock_challenges lk) challenge now")
    case OK
    show ?thesis
    proof (cases "verify_device_response P (field p ''device_pub'') challenge response")
      case (Inl e)
      then show ?thesis using assms 3 OK by (auto simp: finish_unlock_def Let_def intro: raised)
    next
      case (Inr b)
      then show ?thesis using assms 3 OK
        by (cases b) (auto simp: finish_unlock_def Let_def opens_def after_unlock_def
            intro: denied opened)
    qed
  next
    case UNKNOWN
    then show ?thesis using assms 3 by (auto simp: finish_unlock_def Let_def intro: denied)
  next
    case STATUS_REPLAYED
    then show ?thesis using assms 3 by (auto simp: finish_unlock_def Let_def intro: denied)
  qed
qed

lemma finish_unlock_opens:
  assumes "opens P lk token challenge response now p"
  shows "finish_unlock P token challenge response now lk =
    (Inr (unlock (py_str P (field p ''key_id''))), after_unlock challenge now lk)"
proof -
  have "evaluate_static P token (lock_property_pub lk) (lock_property_id lk) (lock_room_id lk)
      now (lock_revoked lk) = Inr \<lparr>static_deny = None, static_payload = Some p\<rparr>"
    using assms by (simp add: evaluate_static_pass opens_def)
  then show ?thesis
    using assms by (simp add: finish_unlock_def Let_def opens_def after_unlock_def)
qed

section \<open>Runs of a lock\<close>

datatype lock_event =
    Begin bytes time
  | Finish pystr bytes bytes time
  | Sync "pystr list"

text \<open>The lock and the log of what it opened for: challenge, time and key, newest first.\<close>

type_synonym 'pk lock_log = "'pk LockVerifier \<times> (bytes \<times> time \<times> pystr option) list"

fun lock_step :: "('sk, 'pk) platform \<Rightarrow> lock_event \<Rightarrow> 'pk lock_log \<Rightarrow> 'pk lock_log" where
  "lock_step P (Begin c t) (lk, log) = (begin_unlock c t lk, log)"
| "lock_step P (Sync ks) (lk, log) = (sync_revocations ks lk, log)"
| "lock_step P (Finish token c r t) (lk, log) =
     (case finish_unlock P token c r t lk of
        (Inl e, lk') \<Rightarrow> (lk', log)
      | (Inr d, lk') \<Rightarrow> (lk', if unlocked d then (c, t, decision_key_id d) # log else log))"

definition lock_run ::
  "('sk, 'pk) platform \<Rightarrow> lock_event list \<Rightarrow> 'pk LockVerifier \<Rightarrow> 'pk lock_log" where
  "lock_run P es lk = fold (lock_step P) es (lk, [])"

primrec begun :: "lock_event list \<Rightarrow> bytes list" where
  "begun [] = []"
| "begun (e # es) = (case e of Begin c t \<Rightarrow> c # begun es | _ \<Rightarrow> begun es)"

lemma begun_snoc: "begun (es @ [e]) = begun es @ (case e of Begin c t \<Rightarrow> [c] | _ \<Rightarrow> [])"
  by (induction es) (auto split: lock_event.split)

lemma lock_run_snoc: "lock_run P (es @ [e]) lk = lock_step P e (lock_run P es lk)"
  by (simp add: lock_run_def)

lemma lock_step_challenges:
  assumes "lock_step P e (lk, log) = (lk', log')"
  obtains (began) c t where "e = Begin c t" "lock_challenges lk' = issue c t (lock_challenges lk)"
        "log' = log"
    | (opened) token c r t p where "e = Finish token c r t" "opens P lk token c r t p"
        "lock_challenges lk' = consume c t (lock_challenges lk)"
        "log' = (c, t, Some (py_str P (field p ''key_id''))) # log"
    | (other) "lock_challenges lk' = lock_challenges lk" "log' = log" "begun [e] = []"
proof (cases e)
  case (Begin c t)
  then show ?thesis using assms began by (auto simp: begin_unlock_def)
next
  case (Sync ks)
  then show ?thesis using assms other by (auto simp: sync_revocations_def)
next
  case (Finish token c r t)
  obtain res lk1 where f: "finish_unlock P token c r t lk = (res, lk1)" by force
  then show ?thesis
  proof (cases rule: finish_unlock_cases)
    case (opened p)
    then show ?thesis using assms f Finish that(2)
      by (auto simp: after_unlock_def unlock_def unlocked_def)
  next
    case denied
    then show ?thesis using assms f Finish other by auto
  next
    case raised
    then show ?thesis using assms f Finish other by auto
  qed
qed

text \<open>
  The store behind the lock goes through the history its events describe, so what
  the contract says of accepted challenges holds of opened ones.
\<close>

lemma lock_run_tracks:
  assumes "distinct (begun es)" "lock_challenges lk = new_store l n"
    and "lock_run P es lk = (lk', log)"
  shows "challenges.tracks (lock_challenges lk') (rev (begun es)) (map fst log)"
  using assms(1,3)
proof (induction es arbitrary: lk' log rule: rev_induct)
  case Nil
  then show ?case
    using assms(2) by (simp add: lock_run_def challenges.tracks_init store_inv_new check_new)
next
  case (snoc e es)
  obtain lk1 log1 where r1: "lock_run P es lk = (lk1, log1)" by force
  have d: "distinct (begun es)" using snoc.prems(1) by (simp add: begun_snoc)
  note tr = snoc.IH [OF d r1]
  have "lock_step P e (lk1, log1) = (lk', log)" using snoc.prems(2) r1 by (simp add: lock_run_snoc)
  then show ?case
  proof (cases rule: lock_step_challenges)
    case (began c t)
    then have "c \<notin> set (rev (begun es))" using snoc.prems(1) by (auto simp: begun_snoc)
    from challenges.tracks_issue [OF tr this] began show ?thesis by (simp add: begun_snoc)
  next
    case (opened token c r t p)
    then have "check (lock_challenges lk1) c t = OK" by (simp add: opens_def)
    from challenges.tracks_accept [OF tr this] opened show ?thesis by (simp add: begun_snoc)
  next
    case other
    then show ?thesis using tr by (cases e) (auto simp: begun_snoc)
  qed
qed

text \<open>A pending challenge dates from a \<open>Begin\<close>, so an opening is never later than its lifetime.\<close>

definition pending_from :: "lock_event list \<Rightarrow> int \<Rightarrow> ChallengeStore \<Rightarrow> bool" where
  "pending_from es l st \<longleftrightarrow>
     ttl st = l \<and> (\<forall>c t0. map_of (pending st) c = Some t0 \<longrightarrow> Begin c t0 \<in> set es)"

lemma pending_from_issue:
  assumes "pending_from es l st" "store_inv st"
  shows "pending_from (es @ [Begin c t]) l (issue c t st)"
  using assms young_cases [of l t]
  by (auto simp: pending_from_def after_issue) (metis option.distinct(1))

lemma lock_run_timely:
  assumes "distinct (begun es)" "lock_challenges lk = new_store l n"
    and "lock_run P es lk = (lk', log)"
  shows "pending_from es l (lock_challenges lk') \<and>
    (\<forall>(c, t, k) \<in> set log. \<exists>t0. Begin c t0 \<in> set es \<and> t - t0 \<le> l)"
  using assms(1,3)
proof (induction es arbitrary: lk' log rule: rev_induct)
  case Nil
  then show ?case using assms(2) by (simp add: lock_run_def pending_from_def new_store_def)
next
  case (snoc e es)
  obtain lk1 log1 where r1: "lock_run P es lk = (lk1, log1)" by force
  have d: "distinct (begun es)" using snoc.prems(1) by (simp add: begun_snoc)
  note IH = snoc.IH [OF d r1]
  have inv: "store_inv (lock_challenges lk1)"
    by (rule challenges.tracks_inv [OF lock_run_tracks [OF d assms(2) r1]])
  have "lock_step P e (lk1, log1) = (lk', log)" using snoc.prems(2) r1 by (simp add: lock_run_snoc)
  then show ?case
  proof (cases rule: lock_step_challenges)
    case (began c t)
    then show ?thesis using IH pending_from_issue [OF _ inv] by fastforce
  next
    case (opened token c r t p)
    then have "check (lock_challenges lk1) c t = OK" by (simp add: opens_def)
    then obtain t0 where "Begin c t0 \<in> set es" "t - t0 \<le> l"
      using IH by (auto simp: check_OK_iff pending_from_def)
    moreover have "pending_from (es @ [e]) l (lock_challenges lk')"
      using IH opened by (auto simp: pending_from_def after_consume)
    ultimately show ?thesis using IH opened by fastforce
  next
    case other
    then show ?thesis using IH by (fastforce simp: pending_from_def)
  qed
qed

end
