(* ===== verification/Sample_Platform.thy ===== *)
theory Sample_Platform
  imports Credential_Facts
begin

text \<open>
  A concrete platform on which the properties are evaluated: keys are octet
  strings, a private key is its own public key, and a signature is the key followed
  by the message. It has the documented behaviour of the package.
\<close>

definition sample_platform :: "(bytes, bytes) platform" where
  "sample_platform =
     \<lparr>uni_decimal = (\<lambda>_. None), uni_space = (\<lambda>_. False), uni_printable = (\<lambda>_. False),
      float_repr = (\<lambda>_. lit ''0.0''), spare_nesting = 0,
      public_key = (\<lambda>sk. sk), public_bytes = (\<lambda>pk. pk), private_bytes = (\<lambda>sk. sk),
      from_public_bytes = Some, from_private_bytes = Some,
      sign = (\<lambda>sk m. sk @ m), verify = (\<lambda>pk s m. s = pk @ m)\<rparr>"

lemma sample_platform_simps [simp]:
  "public_key sample_platform sk = sk"
  "public_bytes sample_platform pk = pk"
  "private_bytes sample_platform sk = sk"
  "from_public_bytes sample_platform b = Some b"
  "from_private_bytes sample_platform b = Some b"
  "sign sample_platform sk m = sk @ m"
  "verify sample_platform pk s m \<longleftrightarrow> s = pk @ m"
  by (simp_all add: sample_platform_def)

lemma sample_ed25519 [simp]: "ed25519 sample_platform"
  by (simp add: ed25519_def)

definition sample_fresh :: "bytes fresh" where
  "sample_fresh = \<lparr>fresh_sk = [7, 7], fresh_uuid = lit ''5f1e'', fresh_hex = lit ''00ff''\<rparr>"

lemma sample_fresh_simps [simp]:
  "fresh_uuid sample_fresh = lit ''5f1e''" "fresh_hex sample_fresh = lit ''00ff''"
  by (simp_all add: sample_fresh_def)

text \<open>A key for room 101, valid from 1000 to 2000.\<close>

definition sample_args :: "bytes issue_args" where
  "sample_args =
     \<lparr>ia_guest_id = lit ''g_ada'', ia_stay_id = lit ''s_ada'',
      ia_property_id = lit ''HILTON-DEMO-001'', ia_room_ids = [101],
      ia_valid_from = 1000, ia_valid_until = 2000, ia_issued_at = 1000,
      ia_device_sk = None, ia_key_id = Some (lit ''5f1e''), ia_nonce = None\<rparr>"

lemma sample_args_simps [simp]:
  "ia_guest_id sample_args = lit ''g_ada''" "ia_stay_id sample_args = lit ''s_ada''"
  "ia_property_id sample_args = lit ''HILTON-DEMO-001''" "ia_room_ids sample_args = [101]"
  "ia_valid_from sample_args = 1000" "ia_valid_until sample_args = 2000"
  "ia_key_id sample_args = Some (lit ''5f1e'')"
  "or_else (Some (lit ''5f1e'')) k = lit ''5f1e''"
  "device_key sample_fresh sample_args = [7, 7]"
  by (simp_all add: sample_args_def sample_fresh_def or_else_def device_key_def lit_def)

lemma sample_args_ok [simp]: "args_ok sample_fresh sample_args"
proof -
  have "short_int 101" "short_int 1000" "short_int 2000" by (simp_all add: short_int_64)
  then show ?thesis
    by (simp add: args_ok_def) (simp add: sample_args_def sample_fresh_def or_else_def)
qed

definition sample_issued :: "IssuedKey" where
  "sample_issued = projr (issue_credential sample_platform sample_fresh [1, 2] sample_args)"

lemma sample_issued:
  "issue_credential sample_platform sample_fresh [1, 2] sample_args = Inr sample_issued"
proof -
  obtain ik where "issue_credential sample_platform sample_fresh [1, 2] sample_args = Inr ik"
    by (rule issue_credential_Inr [of sample_fresh sample_args sample_platform "[1, 2]"]) simp_all
  then show ?thesis by (simp add: sample_issued_def)
qed

lemma sample_issued_id [simp]: "ik_key_id sample_issued = lit ''5f1e''"
  using issued_fields(1) [OF sample_issued] by simp

end
