(* ===== verification/Lock_Properties.thy ===== *)
theory Lock_Properties
  imports Lock Sample_Platform
begin

text \<open>
  What the offline lock guarantees: single-use challenges over a whole run, no
  opening without an authentic credential and the device key, and the decision for
  every credential the property issues.
\<close>

section \<open>Authentic tokens\<close>

text \<open>
  Documented behaviour of a signature scheme, for one presented token: a signature
  that verifies under the property key is over bytes the property signed, the
  canonical payloads of the credentials in \<open>L\<close>.
\<close>

definition property_signed ::
  "('sk, 'pk) platform \<Rightarrow> ('sk fresh \<times> 'sk issue_args) list \<Rightarrow> bytes \<Rightarrow> bool" where
  "property_signed P L b \<longleftrightarrow>
     list_ex (\<lambda>(f, a). canonical_bytes P (issue_payload P f a) = Inr b) L"

definition unforged ::
  "('sk, 'pk) platform \<Rightarrow> 'pk \<Rightarrow> ('sk fresh \<times> 'sk issue_args) list \<Rightarrow> pystr \<Rightarrow> bool" where
  "unforged P pub L token \<longleftrightarrow>
     (case parse_token P token of
        Inr (Some t) \<Rightarrow> verify P pub (pt_signature t) (pt_payload_bytes t) \<longrightarrow>
                        property_signed P L (pt_payload_bytes t)
      | _ \<Rightarrow> True)"

text \<open>A token that carries an authentic payload carries that of an issued credential.\<close>

lemma token_carries_issued:
  assumes "list_all (\<lambda>(f, a). args_ok f a) L" "unforged P pub L token" "token_carries P pub token p"
  obtains f a where "(f, a) \<in> set L" "p = sorted_payload (issue_payload P f a)"
proof -
  obtain t where t: "parse_token P token = Inr (Some t)" "pt_payload t = p"
    "verify P pub (pt_signature t) (pt_payload_bytes t)"
    using assms(3) by (auto simp: token_carries_def signature_ok_def)
  then obtain f a where fa: "(f, a) \<in> set L"
    "canonical_bytes P (issue_payload P f a) = Inr (pt_payload_bytes t)"
    using assms(2) by (auto simp: unforged_def property_signed_def list_ex_iff)
  then have "args_ok f a" using assms(1) by (auto simp: list_all_iff)
  then obtain b where "canonical_bytes P (issue_payload P f a) = Inr b"
    "json_loads (nesting_limit P) b = Inr (JObj (sorted_payload (issue_payload P f a)))"
    by (rule canonical_bytes_issue)
  moreover have "json_loads (nesting_limit P) (pt_payload_bytes t) = Inr (JObj (pt_payload t))"
    using t(1) by (auto simp: parse_token_def Let_def split: if_splits sum.splits json.splits)
  ultimately show ?thesis using that fa t(2) by simp
qed

lemma static_ok_issued:
  assumes "static_ok P (sorted_payload (issue_payload P f a)) prop room now revoked"
  shows "issued_decision (or_else (ia_key_id a) (fresh_uuid f)) a prop room now revoked = None"
  using assms field_issue_payload [OF map_of_sorted_payload [OF issue_payload_keys], of P f a]
  by (auto simp: static_ok_def issued_decision_def)

section \<open>Issued credentials at a lock\<close>

lemma token_carries_issued_token:
  assumes "args_ok f a" "issue_credential P f sk a = Inr ik"
    and "\<And>m. verify P pub (sign P sk m) m"
  shows "token_carries P pub (ik_token ik) (sorted_payload (ik_payload ik))"
proof -
  obtain b where
    "parse_token P (ik_token ik) = Inr (Some \<lparr>pt_payload = sorted_payload (issue_payload P f a),
       pt_payload_bytes = b, pt_signature = sign P sk b\<rparr>)"
    using issue_credential_Inr [OF assms(1) issued_fields(3) [OF assms(2)], of P sk] assms(2)
    by (metis (no_types, lifting) IssuedKey.select_convs(2) Inr_inject)
  then show ?thesis
    using assms(3) issued_fields(2) [OF assms(2)] by (simp add: token_carries_def signature_ok_def)
qed

lemma opens_issued:
  assumes "ed25519 P" "args_ok f a" "issue_credential P f sk a = Inr ik"
    and "lock_property_pub lk = public_key P sk"
    and "issued_decision (ik_key_id ik) a (lock_property_id lk) (lock_room_id lk) now
           (lock_revoked lk) = None"
    and "check (lock_challenges lk) c now = OK"
    and "verify P (public_key P (device_key f a)) response c"
  shows "opens P lk (ik_token ik) c response now (sorted_payload (ik_payload ik))"
proof -
  have sig: "verify P (lock_property_pub lk) (sign P sk m) m" for m
    using assms(1,4) by (simp add: ed25519_simps)
  note fields = field_issue_payload [OF map_of_sorted_payload [OF issue_payload_keys], of P f a]
  have "static_ok P (sorted_payload (ik_payload ik)) (lock_property_id lk) (lock_room_id lk) now
      (lock_revoked lk)"
    using evaluate_static_issued [OF assms(2,3) sig, of "lock_property_id lk" "lock_room_id lk" now
        "lock_revoked lk"] evaluate_static_pass [of P "ik_token ik" "lock_property_pub lk"]
    by (simp add: assms(5))
  then show ?thesis
    using token_carries_issued_token [OF assms(2,3) sig] assms(1,6,7) fields
    by (simp add: opens_def issued_fields(2) [OF assms(3)] verify_device_response_issued)
qed

lemma finish_unlock_issued:
  assumes "ed25519 P" "args_ok f a" "issue_credential P f sk a = Inr ik"
    and "lock_property_pub lk = public_key P sk"
    and "issued_decision (ik_key_id ik) a (lock_property_id lk) (lock_room_id lk) now
           (lock_revoked lk) = None"
    and "check (lock_challenges lk) c now = OK"
    and "verify P (public_key P (device_key f a)) response c"
  shows "finish_unlock P (ik_token ik) c response now lk =
    (Inr (unlock (ik_key_id ik)), after_unlock c now lk)"
proof -
  note fields = field_issue_payload [OF map_of_sorted_payload [OF issue_payload_keys], of P f a]
  show ?thesis
    using finish_unlock_opens [OF opens_issued [OF assms]] fields
    by (simp add: issued_fields [OF assms(3)])
qed

text \<open>The other outcomes: a check of an issued key that fails, no signature, a wrong device.\<close>

lemma finish_unlock_issued_denied:
  assumes "ed25519 P" "args_ok f a" "issue_credential P f sk a = Inr ik"
    and "lock_property_pub lk = public_key P sk"
    and "issued_decision (ik_key_id ik) a (lock_property_id lk) (lock_room_id lk) now
           (lock_revoked lk) = Some r"
  shows "finish_unlock P (ik_token ik) c response now lk = (Inr (deny r (Some (ik_key_id ik))), lk)"
proof -
  have "verify P (lock_property_pub lk) (sign P sk m) m" for m
    using assms(1,4) by (simp add: ed25519_simps)
  from evaluate_static_issued [OF assms(2,3) this, of "lock_property_id lk" "lock_room_id lk" now
      "lock_revoked lk"] assms(5)
  show ?thesis by (simp add: finish_unlock_def Credential.denied_def)
qed

lemma finish_unlock_unsigned:
  assumes "\<And>t. parse_token P token = Inr (Some t) \<Longrightarrow>
    \<not> signature_ok P (lock_property_pub lk) (pt_payload_bytes t) (pt_signature t)"
  shows "finish_unlock P token c r now lk =
    (case parse_token P token of
       Inl e \<Rightarrow> Inl e
     | Inr found \<Rightarrow> Inr (deny (if found = None then MALFORMED else FORGED_SIGNATURE) None), lk)"
  using assms
  by (auto simp: finish_unlock_def evaluate_static_def Credential.denied_def split: sum.split option.split)

lemma finish_unlock_wrong_device:
  assumes "ed25519 P" "args_ok f a" "issue_credential P f sk a = Inr ik"
    and "lock_property_pub lk = public_key P sk"
    and "issued_decision (ik_key_id ik) a (lock_property_id lk) (lock_room_id lk) now
           (lock_revoked lk) = None"
    and "check (lock_challenges lk) c now = OK"
    and "\<not> verify P (public_key P (device_key f a)) response c"
  shows "finish_unlock P (ik_token ik) c response now lk =
    (Inr (deny BAD_RESPONSE (Some (ik_key_id ik))), lk)"
proof -
  have sig: "verify P (lock_property_pub lk) (sign P sk m) m" for m
    using assms(1,4) by (simp add: ed25519_simps)
  note fields = field_issue_payload [OF map_of_sorted_payload [OF issue_payload_keys], of P f a]
  show ?thesis
    using evaluate_static_issued [OF assms(2,3) sig, of "lock_property_id lk" "lock_room_id lk" now
        "lock_revoked lk"] fields assms(1,5-7)
    by (simp add: finish_unlock_def Let_def issued_fields [OF assms(3)] verify_device_response_issued)
qed

text \<open>A lock for room 101 that has just issued the challenge \<open>[9]\<close>, and its opening.\<close>

definition sample_lock :: "bytes LockVerifier" where
  "sample_lock =
     \<lparr>lock_property_id = lit ''HILTON-DEMO-001'', lock_room_id = 101, lock_property_pub = [1, 2],
      lock_revoked = {}, lock_challenges = new_store 30 32\<rparr>"

definition sample_asked :: "bytes LockVerifier" where
  "sample_asked = begin_unlock [9] 1500 sample_lock"

lemma sample_lock_simps [simp]:
  "lock_property_id sample_lock = lit ''HILTON-DEMO-001''" "lock_room_id sample_lock = 101"
  "lock_property_pub sample_lock = [1, 2]" "lock_revoked sample_lock = {}"
  "lock_challenges sample_lock = new_store 30 32"
  by (simp_all add: sample_lock_def)

lemma sample_asked_simps [simp]:
  "lock_property_id sample_asked = lit ''HILTON-DEMO-001''" "lock_room_id sample_asked = 101"
  "lock_property_pub sample_asked = [1, 2]" "lock_revoked sample_asked = {}"
  by (simp_all add: sample_asked_def begin_unlock_def)

lemma sample_asked_OK [simp]: "check (lock_challenges sample_asked) [9] 1510 = OK"
  by (simp add: sample_asked_def begin_unlock_def issue_def gc_def new_store_def check_def Let_def
      expired_def pop_all_def)

lemma sample_unlock:
  "finish_unlock sample_platform (ik_token sample_issued) [9] [7, 7, 9] 1510 sample_asked =
     (Inr (unlock (lit ''5f1e'')), after_unlock [9] 1510 sample_asked)"
  using finish_unlock_issued [OF sample_ed25519 sample_args_ok sample_issued, of sample_asked
      1510 "[9]" "[7, 7, 9]"] by (simp add: issued_decision_def)

lemma sample_unforged:
  "unforged sample_platform [1, 2] [(sample_fresh, sample_args)] (ik_token sample_issued)"
proof -
  obtain b where
    "canonical_bytes sample_platform (issue_payload sample_platform sample_fresh sample_args) = Inr b"
    "parse_token sample_platform (ik_token sample_issued) =
       Inr (Some \<lparr>pt_payload = sorted_payload (issue_payload sample_platform sample_fresh sample_args),
             pt_payload_bytes = b, pt_signature = sign sample_platform [1, 2] b\<rparr>)"
    using issue_credential_Inr [OF sample_args_ok, of sample_platform "[1, 2]"] sample_issued
    by (metis (no_types, lifting) IssuedKey.select_convs(2) Inr_inject issued_fields(3))
  then show ?thesis by (simp add: unforged_def property_signed_def)
qed

text \<open>The presentation that opened a lock does not open it again.\<close>

lemma finish_unlock_again:
  assumes "opens P lk token c r now' p"
  shows "finish_unlock P token c r now' (after_unlock c now lk) =
    (Inr (deny REPLAYED (Some (py_str P (field p ''key_id'')))), after_unlock c now lk)"
proof -
  have "evaluate_static P token (lock_property_pub lk) (lock_property_id lk) (lock_room_id lk)
      now' (lock_revoked lk) = Inr \<lparr>static_deny = None, static_payload = Some p\<rparr>"
    using assms by (simp add: evaluate_static_pass opens_def)
  then show ?thesis
    by (simp add: finish_unlock_def after_unlock_def challenges.consume_same Let_def)
qed

section \<open>Properties\<close>

text \<open>
  C1: No unauthorized unlock. If a lock opens, and the signature on the presented token is not a
  forgery, then the token carries a credential the property issued, whose property,
  room, window and revocation status all admit this lock at this moment; the
  challenge is one this lock issued, in time and unused; and the response is a
  valid signature of the challenge under that credential's device key.
\<close>

theorem no_unauthorized_unlock:
  assumes "ed25519 P"
    and "list_all (\<lambda>(f, a). args_ok f a) L"
    and "unforged P (lock_property_pub lk) L token"
    and "finish_unlock P token challenge response now lk = (Inr d, lk')"
    and "unlocked d"
  shows "\<exists>(f, a) \<in> set L.
    ia_property_id a = lock_property_id lk \<and> lock_room_id lk \<in> set (ia_room_ids a) \<and>
    ia_valid_from a \<le> now \<and> now \<le> ia_valid_until a \<and>
    or_else (ia_key_id a) (fresh_uuid f) \<notin> lock_revoked lk \<and>
    decision_key_id d = Some (or_else (ia_key_id a) (fresh_uuid f)) \<and>
    check (lock_challenges lk) challenge now = OK \<and>
    verify P (public_key P (device_key f a)) response challenge"
  using assms(4)
proof (cases rule: finish_unlock_cases)
  case (opened p)
  then obtain f a where fa: "(f, a) \<in> set L" "p = sorted_payload (issue_payload P f a)"
    using token_carries_issued [OF assms(2,3)] by (auto simp: opens_def)
  note fields = field_issue_payload [OF map_of_sorted_payload [OF issue_payload_keys], of P f a]
  have dec: "issued_decision (or_else (ia_key_id a) (fresh_uuid f)) a (lock_property_id lk)
      (lock_room_id lk) now (lock_revoked lk) = None"
    using opened(1) static_ok_issued unfolding opens_def fa(2) by blast
  have "verify P (public_key P (device_key f a)) response challenge"
    "check (lock_challenges lk) challenge now = OK"
    using opened(1) fields
    by (auto simp: opens_def fa(2) verify_device_response_issued [OF assms(1)])
  moreover have "decision_key_id d = Some (or_else (ia_key_id a) (fresh_uuid f))"
    using opened(2) fields by (simp add: fa(2) unlock_def)
  ultimately show ?thesis
    using dec by (intro bexI [OF _ fa(1)]) (auto simp: issued_decision_def split: if_splits)
qed (use assms(5) in auto)

text \<open>The hypotheses hold of the sample lock, which opens for the sample credential.\<close>

theorem no_unauthorized_unlock_witness:
  "check (lock_challenges sample_asked) [9] 1510 = OK \<and>
   verify sample_platform (public_key sample_platform (device_key sample_fresh sample_args))
     [7, 7, 9] [9]"
proof -
  have L: "list_all (\<lambda>(f, a). args_ok f a) [(sample_fresh, sample_args)]" by simp
  have "unforged sample_platform (lock_property_pub sample_asked) [(sample_fresh, sample_args)]
      (ik_token sample_issued)" using sample_unforged by simp
  from no_unauthorized_unlock [OF sample_ed25519 L this sample_unlock unlocked_unlock]
  show ?thesis by simp
qed

text \<open>
  C7: Single use. Over any run of challenges, presentations and revocation syncs,
  where the random source never repeats a nonce, a lock opens at most once for each
  challenge, only for one it issued, and at most 30 seconds after it issued it.
\<close>

theorem lock_opens_once_in_time:
  assumes "distinct (begun es)"
    and "new_lock P prop room pub_raw revoked = Inr lk"
    and "lock_run P es lk = (lk', log)"
  shows "distinct (map fst log) \<and>
    (\<forall>(c, t, k) \<in> set log. c \<in> set (begun es) \<and>
       (\<exists>t0. Begin c t0 \<in> set es \<and> t - t0 \<le> CHALLENGE_TTL_SECONDS))"
proof -
  have new: "lock_challenges lk = new_store CHALLENGE_TTL_SECONDS CHALLENGE_NONCE_BYTES"
    using assms(2) by (auto simp: new_lock_def split: option.splits)
  note tr = lock_run_tracks [OF assms(1) new assms(3)]
  have "distinct (map fst log)" by (rule challenges.tracks_distinct [OF tr])
  moreover have "c \<in> set (begun es)" if "(c, t, k) \<in> set log" for c t k
    using challenges.tracks_accepted_issued [OF tr] that by force
  ultimately show ?thesis using lock_run_timely [OF assms(1) new assms(3)] by fast
qed

definition sample_run :: "lock_event list" where
  "sample_run =
     [Begin [9] 1500, Finish (ik_token sample_issued) [9] [7, 7, 9] 1510,
      Finish (ik_token sample_issued) [9] [7, 7, 9] 1511]"

lemma sample_run_log:
  "new_lock sample_platform (lit ''HILTON-DEMO-001'') 101 [1, 2] [] = Inr sample_lock"
  "lock_run sample_platform sample_run sample_lock =
     (after_unlock [9] 1510 sample_asked, [([9], 1510, Some (lit ''5f1e''))])"
proof -
  show "new_lock sample_platform (lit ''HILTON-DEMO-001'') 101 [1, 2] [] = Inr sample_lock"
    by (simp add: new_lock_def sample_lock_def CHALLENGE_TTL_SECONDS_def CHALLENGE_NONCE_BYTES_def)
  have "opens sample_platform sample_asked (ik_token sample_issued) [9] [7, 7, 9] 1511
      (sorted_payload (ik_payload sample_issued))"
    by (rule opens_issued [OF sample_ed25519 sample_args_ok sample_issued])
      (simp_all add: issued_decision_def sample_asked_def begin_unlock_def issue_def gc_def
        new_store_def check_def Let_def expired_def pop_all_def)
  then have "finish_unlock sample_platform (ik_token sample_issued) [9] [7, 7, 9] 1511
      (after_unlock [9] 1510 sample_asked) =
      (Inr (deny REPLAYED (Some (py_str sample_platform
         (field (sorted_payload (ik_payload sample_issued)) ''key_id'')))),
       after_unlock [9] 1510 sample_asked)"
    by (rule finish_unlock_again)
  then show "lock_run sample_platform sample_run sample_lock =
     (after_unlock [9] 1510 sample_asked, [([9], 1510, Some (lit ''5f1e''))])"
    using sample_unlock
    by (simp add: lock_run_def sample_run_def sample_asked_def [symmetric])
qed

text \<open>A run that opens once for its challenge and denies its replay.\<close>

theorem lock_opens_once_in_time_witness:
  "lock_run sample_platform sample_run sample_lock =
     (after_unlock [9] 1510 sample_asked, [([9], 1510, Some (lit ''5f1e''))]) \<and>
   distinct (map fst [([9 :: byte], 1510 :: time, Some (lit ''5f1e''))])"
proof -
  have "distinct (begun sample_run)" by (simp add: sample_run_def)
  from lock_opens_once_in_time [OF this sample_run_log] show ?thesis
    using sample_run_log(2) by blast
qed

text \<open>
  C15: The lock's decision. \<open>finish_unlock\<close> opens exactly for the presentations \<open>opens\<close>
  describes (an authentic token, admitted by property, room, window and revocation
  list, a live challenge and the device's signature of it); then it names the key and
  consumes the challenge, and in every other case, raising included, the lock is as
  it was, so that the guest may try again with the same challenge.
\<close>

theorem finish_unlock_decides:
  "((\<exists>d. fst (finish_unlock P token c r now lk) = Inr d \<and> unlocked d) \<longleftrightarrow>
      (\<exists>p. opens P lk token c r now p)) \<and>
   (case finish_unlock P token c r now lk of
      (Inl e, lk') \<Rightarrow> lk' = lk
    | (Inr d, lk') \<Rightarrow>
        if unlocked d
        then lk' = lk\<lparr>lock_challenges := consume c now (lock_challenges lk)\<rparr>
        else lk' = lk \<and> reason d \<noteq> None)"
proof -
  obtain res lk1 where f: "finish_unlock P token c r now lk = (res, lk1)" by force
  then show ?thesis
  proof (cases rule: finish_unlock_cases)
    case (opened p)
    then show ?thesis using f by (auto simp: after_unlock_def)
  next
    case (denied reason k)
    then have "\<not> opens P lk token c r now p" for p using f finish_unlock_opens by fastforce
    then show ?thesis using f denied by auto
  next
    case (raised e)
    then have "\<not> opens P lk token c r now p" for p using f finish_unlock_opens by fastforce
    then show ?thesis using f raised by auto
  qed
qed

text \<open>
  C17: The decision table of issued credentials. A guest who holds an issued token and
  signs a live challenge with the device key is admitted exactly when the property,
  the room, the inclusive window and the revocation list admit the key, and is
  otherwise denied with the first failing check as the reason.
\<close>

theorem issued_key_decision:
  assumes "ed25519 P" "args_ok f a" "issue_credential P f sk a = Inr ik"
    and "lock_property_pub lk = public_key P sk"
    and "check (lock_challenges lk) c now = OK"
    and "device_sign P (ik_device_sk_b64 ik) c = Inr response"
  shows "fst (finish_unlock P (ik_token ik) c response now lk) =
    Inr (if ia_property_id a \<noteq> lock_property_id lk then deny WRONG_PROPERTY (Some (ik_key_id ik))
         else if lock_room_id lk \<notin> set (ia_room_ids a) then deny WRONG_ROOM (Some (ik_key_id ik))
         else if now < ia_valid_from a then deny NOT_YET_VALID (Some (ik_key_id ik))
         else if now > ia_valid_until a then deny EXPIRED (Some (ik_key_id ik))
         else if ik_key_id ik \<in> lock_revoked lk then deny REVOKED (Some (ik_key_id ik))
         else unlock (ik_key_id ik))"
proof (cases "issued_decision (ik_key_id ik) a (lock_property_id lk) (lock_room_id lk) now
    (lock_revoked lk)")
  case None
  have "verify P (public_key P (device_key f a)) response c"
    using assms(1,6) device_sign_issued [OF assms(1,3)] by (auto simp: ed25519_simps)
  from finish_unlock_issued [OF assms(1-4) None assms(5) this] None show ?thesis
    by (auto simp: issued_decision_def split: if_splits)
next
  case (Some reason)
  from finish_unlock_issued_denied [OF assms(1-4) this] Some show ?thesis
    by (auto simp: issued_decision_def split: if_splits)
qed

text \<open>The sample key is admitted at its door, and denied once it is on the synced list.\<close>

theorem issued_key_decision_witness:
  "fst (finish_unlock sample_platform (ik_token sample_issued) [9] [7, 7, 9] 1510 sample_asked) =
     Inr (unlock (lit ''5f1e'')) \<and>
   fst (finish_unlock sample_platform (ik_token sample_issued) [9] [7, 7, 9] 1510
      (sync_revocations [lit ''5f1e''] sample_asked)) = Inr (deny REVOKED (Some (lit ''5f1e'')))"
proof -
  have signed: "device_sign sample_platform (ik_device_sk_b64 sample_issued) [9] = Inr [7, 7, 9]"
    using device_sign_issued [OF sample_ed25519 sample_issued] by simp
  show ?thesis
    using issued_key_decision [OF sample_ed25519 sample_args_ok sample_issued _ _ signed,
        of sample_asked 1510]
      issued_key_decision [OF sample_ed25519 sample_args_ok sample_issued _ _ signed,
        of "sync_revocations [lit ''5f1e''] sample_asked" 1510]
    by (simp add: sync_revocations_def)
qed

end
