(* ===== verification/Db.thy ===== *)
theory Db
  imports Credential
begin

text \<open>
  \<open>staykey/db.py\<close>: the tables of the reservation store and its row helpers, with
  what SQLite does for each statement: the parameters that cannot be bound, the
  primary keys and foreign keys it enforces, and autocommit outside transactions.
\<close>

section \<open>Rows\<close>

record guest_row =
  gu_guest_id :: pystr
  gu_name :: pystr
  gu_email :: pystr

record room_row =
  ro_room_id :: int
  ro_property_id :: pystr
  ro_number :: pystr
  ro_room_type :: pystr

record stay_row =
  st_stay_id :: pystr
  st_guest_id :: pystr
  st_property_id :: pystr
  st_room_type :: pystr
  st_room_id :: "int option"
  st_check_in :: time
  st_check_out :: time
  st_status :: pystr

text \<open>The \<open>active\<close> columns only ever hold 1 or 0.\<close>

record assignment_row =
  as_id :: int
  as_room_id :: int
  as_stay_id :: pystr
  as_check_in :: time
  as_check_out :: time
  as_active :: bool

record key_row =
  ke_key_id :: pystr
  ke_stay_id :: pystr
  ke_room_id :: int
  ke_issued_at :: time
  ke_valid_from :: time
  ke_valid_until :: time
  ke_token :: pystr
  ke_active :: bool

record revocation_row =
  re_key_id :: pystr
  re_revoked_at :: time
  re_reason :: pystr

text \<open>The tables, rows in the order of insertion; \<open>assign_seq\<close> is the last id \<open>AUTOINCREMENT\<close> gave.\<close>

record db =
  guests :: "guest_row list"
  rooms :: "room_row list"
  stays :: "stay_row list"
  assignments :: "assignment_row list"
  keys :: "key_row list"
  revocations :: "revocation_row list"
  assign_seq :: int

definition init_db :: db where
  "init_db = \<lparr>guests = [], rooms = [], stays = [], assignments = [], keys = [], revocations = [],
              assign_seq = 0\<rparr>"

section \<open>Statements\<close>

text \<open>
  A parameter of a statement. Binding an integer beyond 64 bits raises an
  \<open>OverflowError\<close>, a string that has no UTF-8 form a \<open>UnicodeEncodeError\<close>.
\<close>

datatype sql_value = SqlInt int | SqlText pystr | SqlNull

definition bind_error :: "sql_value \<Rightarrow> exn option" where
  "bind_error v =
     (case v of
        SqlInt i \<Rightarrow> if - (2 ^ 63) \<le> i \<and> i < 2 ^ 63 then None else Some OverflowError
      | SqlText s \<Rightarrow> if list_all is_scalar s then None else Some ValueError
      | SqlNull \<Rightarrow> None)"

fun first_error :: "sql_value list \<Rightarrow> exn option" where
  "first_error [] = None"
| "first_error (v # vs) = (case bind_error v of Some e \<Rightarrow> Some e | None \<Rightarrow> first_error vs)"

definition execute :: "sql_value list \<Rightarrow> ('s, 'a) exec \<Rightarrow> ('s, 'a) exec" where
  "execute params statement =
     (case first_error params of Some e \<Rightarrow> raise e | None \<Rightarrow> statement)"

text \<open>A row that breaks a constraint is refused.\<close>

definition insert_if :: "('s \<Rightarrow> bool) \<Rightarrow> ('s \<Rightarrow> 's) \<Rightarrow> ('s, unit) exec" where
  "insert_if ok put s = (if ok s then (Inr (), put s) else (Inl IntegrityError, s))"

definition fetchone :: "'r list \<Rightarrow> 'r option" where
  "fetchone rs = (case rs of [] \<Rightarrow> None | r # _ \<Rightarrow> Some r)"

definition update_where :: "('r \<Rightarrow> bool) \<Rightarrow> ('r \<Rightarrow> 'r) \<Rightarrow> 'r list \<Rightarrow> 'r list" where
  "update_where p f rs = map (\<lambda>r. if p r then f r else r) rs"

text \<open>
  \<open>try: BEGIN IMMEDIATE; ...; COMMIT except Exception: ROLLBACK; raise\<close>. The lock of
  the transaction lets no other writer in between, so it is one step.
\<close>

definition transaction :: "('s, 'a) exec \<Rightarrow> ('s, 'a) exec" where
  "transaction body s =
     (case body s of (Inl e, _) \<Rightarrow> (Inl e, s) | (Inr x, s') \<Rightarrow> (Inr x, s'))"

section \<open>Row helpers\<close>

definition add_guest :: "pystr \<Rightarrow> pystr \<Rightarrow> pystr \<Rightarrow> (db, unit) exec" where
  "add_guest guest_id name email =
     execute [SqlText guest_id, SqlText name, SqlText email]
       (insert_if (\<lambda>d. guest_id \<notin> gu_guest_id ` set (guests d))
          (\<lambda>d. d\<lparr>guests := guests d @
             [\<lparr>gu_guest_id = guest_id, gu_name = name, gu_email = email\<rparr>]\<rparr>))"

definition add_room :: "int \<Rightarrow> pystr \<Rightarrow> pystr \<Rightarrow> pystr \<Rightarrow> (db, unit) exec" where
  "add_room room_id property_id number room_type =
     execute [SqlInt room_id, SqlText property_id, SqlText number, SqlText room_type]
       (insert_if (\<lambda>d. room_id \<notin> ro_room_id ` set (rooms d))
          (\<lambda>d. d\<lparr>rooms := rooms d @
             [\<lparr>ro_room_id = room_id, ro_property_id = property_id, ro_number = number,
               ro_room_type = room_type\<rparr>]\<rparr>))"

definition get_room :: "int \<Rightarrow> (db, room_row option) exec" where
  "get_room room_id =
     execute [SqlInt room_id]
       (query (\<lambda>d. fetchone (filter (\<lambda>r. ro_room_id r = room_id) (rooms d))))"

definition add_stay ::
  "pystr \<Rightarrow> pystr \<Rightarrow> pystr \<Rightarrow> pystr \<Rightarrow> time \<Rightarrow> time \<Rightarrow> (db, unit) exec" where
  "add_stay stay_id guest_id property_id room_type check_in check_out =
     execute [SqlText stay_id, SqlText guest_id, SqlText property_id, SqlText room_type,
              SqlInt check_in, SqlInt check_out]
       (insert_if
          (\<lambda>d. stay_id \<notin> st_stay_id ` set (stays d) \<and> guest_id \<in> gu_guest_id ` set (guests d))
          (\<lambda>d. d\<lparr>stays := stays d @
             [\<lparr>st_stay_id = stay_id, st_guest_id = guest_id, st_property_id = property_id,
               st_room_type = room_type, st_room_id = None, st_check_in = check_in,
               st_check_out = check_out, st_status = lit ''reserved''\<rparr>]\<rparr>))"

definition get_stay :: "pystr \<Rightarrow> (db, stay_row option) exec" where
  "get_stay stay_id =
     execute [SqlText stay_id]
       (query (\<lambda>d. fetchone (filter (\<lambda>s. st_stay_id s = stay_id) (stays d))))"

definition set_stay_status :: "pystr \<Rightarrow> pystr \<Rightarrow> (db, unit) exec" where
  "set_stay_status stay_id status =
     execute [SqlText status, SqlText stay_id]
       (modify (\<lambda>d. d\<lparr>stays :=
          update_where (\<lambda>s. st_stay_id s = stay_id) (\<lambda>s. s\<lparr>st_status := status\<rparr>) (stays d)\<rparr>))"

text \<open>The update is refused where it would point a stay at a room that is not there.\<close>

definition set_stay_room :: "pystr \<Rightarrow> int \<Rightarrow> (db, unit) exec" where
  "set_stay_room stay_id room_id =
     execute [SqlInt room_id, SqlText stay_id]
       (insert_if
          (\<lambda>d. stay_id \<in> st_stay_id ` set (stays d) \<longrightarrow> room_id \<in> ro_room_id ` set (rooms d))
          (\<lambda>d. d\<lparr>stays :=
             update_where (\<lambda>s. st_stay_id s = stay_id) (\<lambda>s. s\<lparr>st_room_id := Some room_id\<rparr>)
               (stays d)\<rparr>))"

definition add_key :: "key_row \<Rightarrow> (db, unit) exec" where
  "add_key row =
     execute [SqlText (ke_key_id row), SqlText (ke_stay_id row), SqlInt (ke_room_id row),
              SqlInt (ke_issued_at row), SqlInt (ke_valid_from row), SqlInt (ke_valid_until row),
              SqlText (ke_token row)]
       (insert_if
          (\<lambda>d. ke_key_id row \<notin> ke_key_id ` set (keys d) \<and>
               ke_stay_id row \<in> st_stay_id ` set (stays d))
          (\<lambda>d. d\<lparr>keys := keys d @ [row\<lparr>ke_active := True\<rparr>]\<rparr>))"

text \<open>\<open>UPDATE keys SET active=0 WHERE stay_id=? AND active=1\<close>\<close>

definition deactivate_keys :: "pystr \<Rightarrow> (db, unit) exec" where
  "deactivate_keys stay_id =
     execute [SqlText stay_id]
       (modify (\<lambda>d. d\<lparr>keys :=
          update_where (\<lambda>k. ke_stay_id k = stay_id \<and> ke_active k) (\<lambda>k. k\<lparr>ke_active := False\<rparr>)
            (keys d)\<rparr>))"

definition deactivate_keys_for_stay :: "pystr \<Rightarrow> (db, pystr list) exec" where
  "deactivate_keys_for_stay stay_id =
     bindE
       (execute [SqlText stay_id]
          (query (\<lambda>d. map ke_key_id
             (filter (\<lambda>k. ke_stay_id k = stay_id \<and> ke_active k) (keys d)))))
       (\<lambda>key_ids. thenE (deactivate_keys stay_id) (ret key_ids))"

definition revoke_key :: "pystr \<Rightarrow> time \<Rightarrow> pystr \<Rightarrow> (db, unit) exec" where
  "revoke_key key_id revoked_at why =
     execute [SqlText key_id, SqlInt revoked_at, SqlText why]
       (modify (\<lambda>d.
          if key_id \<in> re_key_id ` set (revocations d) then d
          else d\<lparr>revocations := revocations d @
            [\<lparr>re_key_id = key_id, re_revoked_at = revoked_at, re_reason = why\<rparr>]\<rparr>))"

definition revocation_list :: "(db, pystr list) exec" where
  "revocation_list = query (\<lambda>d. map re_key_id (revocations d))"

definition active_assignment_for_room :: "int \<Rightarrow> (db, assignment_row option) exec" where
  "active_assignment_for_room room_id =
     execute [SqlInt room_id]
       (query (\<lambda>d. fetchone (sort_key (\<lambda>a. - as_id a)
          (filter (\<lambda>a. as_room_id a = room_id \<and> as_active a) (assignments d)))))"

end
