(* ===== verification/Db_Facts.thy ===== *)
theory Db_Facts
  imports Db
begin

text \<open>
  The invariant of the store, kept by every statement on every path: primary keys
  are unique, foreign keys point at rows, assignment ids are below the counter, and
  what a row holds can be bound again.
\<close>

section \<open>The invariant\<close>

definition fits :: "int \<Rightarrow> bool" where
  "fits i \<longleftrightarrow> - (2 ^ 63) \<le> i \<and> i < 2 ^ 63"

definition clean :: "pystr \<Rightarrow> bool" where
  "clean s \<longleftrightarrow> list_all is_scalar s"

lemma bind_error_None [simp]:
  "bind_error (SqlInt i) = None \<longleftrightarrow> fits i"
  "bind_error (SqlText s) = None \<longleftrightarrow> clean s"
  "bind_error SqlNull = None"
  by (simp_all add: bind_error_def fits_def clean_def)

lemma first_error_None [simp]: "first_error vs = None \<longleftrightarrow> (\<forall>v \<in> set vs. bind_error v = None)"
  by (induction vs) (auto split: option.split)

definition tables_ok :: "db \<Rightarrow> bool" where
  "tables_ok d \<longleftrightarrow>
     distinct (map gu_guest_id (guests d)) \<and> distinct (map ro_room_id (rooms d)) \<and>
     distinct (map st_stay_id (stays d)) \<and> distinct (map as_id (assignments d)) \<and>
     distinct (map ke_key_id (keys d)) \<and> distinct (map re_key_id (revocations d)) \<and>
     (\<forall>a \<in> set (assignments d). as_id a \<le> assign_seq d)"

definition refs_ok :: "db \<Rightarrow> bool" where
  "refs_ok d \<longleftrightarrow>
     st_guest_id ` set (stays d) \<subseteq> gu_guest_id ` set (guests d) \<and>
     (\<forall>s \<in> set (stays d). \<forall>r. st_room_id s = Some r \<longrightarrow> r \<in> ro_room_id ` set (rooms d)) \<and>
     as_room_id ` set (assignments d) \<subseteq> ro_room_id ` set (rooms d) \<and>
     as_stay_id ` set (assignments d) \<subseteq> st_stay_id ` set (stays d) \<and>
     ke_stay_id ` set (keys d) \<subseteq> st_stay_id ` set (stays d)"

definition values_ok :: "db \<Rightarrow> bool" where
  "values_ok d \<longleftrightarrow>
     (\<forall>r \<in> set (rooms d). fits (ro_room_id r) \<and> clean (ro_property_id r)) \<and>
     (\<forall>s \<in> set (stays d). clean (st_stay_id s) \<and> clean (st_property_id s) \<and>
        clean (st_guest_id s) \<and> clean (st_room_type s) \<and>
        fits (st_check_in s) \<and> fits (st_check_out s)) \<and>
     (\<forall>k \<in> set (keys d). clean (ke_key_id k))"

definition db_ok :: "db \<Rightarrow> bool" where
  "db_ok d \<longleftrightarrow> tables_ok d \<and> refs_ok d \<and> values_ok d"

lemmas db_ok_defs = db_ok_def tables_ok_def refs_ok_def values_ok_def

lemma db_ok_init: "db_ok init_db"
  by (simp add: db_ok_defs init_db_def)

section \<open>Statements\<close>

lemma execute_ok [simp]: "\<forall>v \<in> set ps. bind_error v = None \<Longrightarrow> execute ps m = m"
  by (simp add: execute_def flip: first_error_None)

lemma execute_error: "first_error ps = Some e \<Longrightarrow> execute ps m = raise e"
  by (simp add: execute_def)

lemma execute_cases:
  obtains "\<forall>v \<in> set ps. bind_error v = None" "execute ps m = m"
    | e where "first_error ps = Some e" "execute ps m = raise e"
  by (cases "first_error ps") (auto simp: execute_error)

lemma keeps_execute [keeps_intros]:
  "(\<forall>v \<in> set ps. bind_error v = None \<Longrightarrow> keeps P m) \<Longrightarrow> keeps P (execute ps m)"
  by (cases ps m rule: execute_cases) (simp_all add: keeps_raise)

lemma keeps_insert_if: "(\<And>d. P d \<Longrightarrow> ok d \<Longrightarrow> P (put d)) \<Longrightarrow> keeps P (insert_if ok put)"
  by (simp add: keeps_def insert_if_def)

lemma keeps_transaction [keeps_intros]: "keeps P m \<Longrightarrow> keeps P (transaction m)"
  by (auto simp: keeps_def transaction_def split: prod.splits sum.splits)

lemma transaction_simps [simp]:
  "m s = (Inr x, t) \<Longrightarrow> transaction m s = (Inr x, t)"
  "m s = (Inl e, t) \<Longrightarrow> transaction m s = (Inl e, s)"
  by (simp_all add: transaction_def)

lemma set_update_where: "set (update_where p f rs) = (\<lambda>r. if p r then f r else r) ` set rs"
  by (simp add: update_where_def)

lemma in_update_where: "x \<in> set rs \<Longrightarrow> \<not> p x \<Longrightarrow> x \<in> set (update_where p f rs)"
  unfolding set_update_where by (rule image_eqI [where x = x]) simp_all

lemma map_update_where [simp]:
  "(\<And>r. g (f r) = g r) \<Longrightarrow> map g (update_where p f rs) = map g rs"
  by (simp add: update_where_def)

lemma image_update_where [simp]:
  "(\<And>r. g (f r) = g r) \<Longrightarrow> g ` set (update_where p f rs) = g ` set rs"
  using map_update_where [of g f p rs] by (metis list.set_map)

lemma ball_update_where [simp]:
  "(\<forall>r \<in> set (update_where p f rs). Q r) \<longleftrightarrow> (\<forall>r \<in> set rs. if p r then Q (f r) else Q r)"
  by (auto simp: set_update_where)

lemma fetchone_simps [simp]: "fetchone [] = None" "fetchone (r # rs) = Some r"
  by (simp_all add: fetchone_def)

lemma fetchone_Some:
  assumes "fetchone (filter p rs) = Some r"
  shows "r \<in> set rs \<and> p r"
proof -
  have "r \<in> set (filter p rs)" using assms by (cases "filter p rs") (simp_all add: fetchone_def)
  then show ?thesis by simp
qed

lemma fetchone_None: "fetchone (filter p rs) = None \<longleftrightarrow> (\<forall>r \<in> set rs. \<not> p r)"
proof -
  have "fetchone (filter p rs) = None \<longleftrightarrow> filter p rs = []" by (simp add: fetchone_def split: list.split)
  then show ?thesis by (simp only: filter_empty_conv)
qed

lemma same_key: "distinct (map k rs) \<Longrightarrow> x \<in> set rs \<Longrightarrow> y \<in> set rs \<Longrightarrow> k x = k y \<Longrightarrow> x = y"
  by (simp add: distinct_map inj_on_def)

text \<open>A row looked up by its key is the one row with that key.\<close>

lemma fetchone_key:
  assumes "distinct (map k rs)" "r \<in> set rs"
  shows "fetchone (filter (\<lambda>x. k x = k r) rs) = Some r"
proof -
  have "fetchone (filter (\<lambda>x. k x = k r) rs) \<noteq> None" using assms(2) by (auto simp: fetchone_None)
  then obtain x where "fetchone (filter (\<lambda>x. k x = k r) rs) = Some x" by blast
  with fetchone_Some [OF this] assms show ?thesis by (metis distinct_map inj_on_eq_iff)
qed

section \<open>Every helper keeps the invariant\<close>

lemma keeps_add_guest [keeps_intros]: "keeps db_ok (add_guest g n e)"
  unfolding add_guest_def
  by (intro keeps_intros keeps_insert_if) (auto simp: db_ok_defs)

lemma keeps_add_room [keeps_intros]: "keeps db_ok (add_room r p n t)"
  unfolding add_room_def
  by (intro keeps_intros keeps_insert_if) (auto simp: db_ok_defs)

lemma keeps_add_stay [keeps_intros]: "keeps db_ok (add_stay s g p t i out)"
  unfolding add_stay_def
  by (intro keeps_intros keeps_insert_if) (auto simp: db_ok_defs)

lemma keeps_set_stay_status [keeps_intros]: "keeps db_ok (set_stay_status s x)"
  unfolding set_stay_status_def
  by (intro keeps_intros keeps_modify) (simp add: db_ok_defs)

lemma keeps_set_stay_room [keeps_intros]: "keeps db_ok (set_stay_room s r)"
  unfolding set_stay_room_def
  by (intro keeps_intros keeps_insert_if) (auto simp: db_ok_defs)

lemma keeps_add_key [keeps_intros]: "keeps db_ok (add_key row)"
  unfolding add_key_def
  by (intro keeps_intros keeps_insert_if) (auto simp: db_ok_defs)

lemma keeps_deactivate_keys [keeps_intros]: "keeps db_ok (deactivate_keys s)"
  unfolding deactivate_keys_def
  by (intro keeps_intros keeps_modify) (simp add: db_ok_defs)

lemma keeps_revoke_key [keeps_intros]: "keeps db_ok (revoke_key k t r)"
  unfolding revoke_key_def
  by (intro keeps_intros keeps_modify) (auto simp: db_ok_defs)

lemma keeps_reads [keeps_intros]:
  "keeps db_ok (get_room r)" "keeps db_ok (get_stay s)" "keeps db_ok revocation_list"
  "keeps db_ok (active_assignment_for_room r)"
  unfolding get_room_def get_stay_def revocation_list_def active_assignment_for_room_def
  by (intro keeps_intros)+

lemma keeps_deactivate_keys_for_stay [keeps_intros]: "keeps db_ok (deactivate_keys_for_stay s)"
  unfolding deactivate_keys_for_stay_def by (intro keeps_intros)

end
