(* ===== verification/Reservation.thy ===== *)
theory Reservation
  imports Db_Facts
begin

text \<open>
  \<open>staykey/reservation.py\<close>: overlap-safe room assignment. What the two operations
  need of the assignments table is the locale \<open>booking_ledger\<close>, interpreted here on
  the table; the calls themselves follow it.
\<close>

section \<open>Operations\<close>

definition overlap :: "time \<Rightarrow> time \<Rightarrow> time \<Rightarrow> time \<Rightarrow> bool" where
  "overlap i out i' out' \<longleftrightarrow> i < out' \<and> i' < out"

definition has_overlap :: "int \<Rightarrow> time \<Rightarrow> time \<Rightarrow> (db, bool) exec" where
  "has_overlap room_id check_in check_out =
     execute [SqlInt room_id, SqlInt check_out, SqlInt check_in]
       (query (\<lambda>d. fetchone
          (filter (\<lambda>a. as_room_id a = room_id \<and> as_active a \<and>
                       as_check_in a < check_out \<and> check_in < as_check_out a)
             (assignments d)) \<noteq> None))"

definition candidate_rooms :: "pystr \<Rightarrow> pystr \<Rightarrow> (db, int list) exec" where
  "candidate_rooms property_id room_type =
     execute [SqlText property_id, SqlText room_type]
       (query (\<lambda>d. sort (map ro_room_id
          (filter (\<lambda>r. ro_property_id r = property_id \<and> ro_room_type r = room_type) (rooms d)))))"

text \<open>The loop over the candidates, which breaks at the first free room.\<close>

primrec first_free :: "int list \<Rightarrow> time \<Rightarrow> time \<Rightarrow> (db, int option) exec" where
  "first_free [] check_in check_out = ret None"
| "first_free (r # rs) check_in check_out =
     bindE (has_overlap r check_in check_out)
       (\<lambda>taken. if \<not> taken then ret (Some r) else first_free rs check_in check_out)"

text \<open>The room asked for, if it is one of the stay's property; \<open>RoomUnavailableError\<close> otherwise.\<close>

definition asked_room :: "int \<Rightarrow> pystr \<Rightarrow> (db, int list) exec" where
  "asked_room r property_id =
     bindE (get_room r)
       (\<lambda>room. case room of
          None \<Rightarrow> raise RoomUnavailableError
        | Some ro \<Rightarrow> if ro_property_id ro \<noteq> property_id then raise RoomUnavailableError else ret [r])"

definition put_assignment :: "int \<Rightarrow> pystr \<Rightarrow> time \<Rightarrow> time \<Rightarrow> db \<Rightarrow> db" where
  "put_assignment r s i out d =
     d\<lparr>assignments := assignments d @
          [\<lparr>as_id = assign_seq d + 1, as_room_id = r, as_stay_id = s, as_check_in = i,
            as_check_out = out, as_active = True\<rparr>],
       assign_seq := assign_seq d + 1\<rparr>"

definition add_assignment :: "int \<Rightarrow> pystr \<Rightarrow> time \<Rightarrow> time \<Rightarrow> (db, unit) exec" where
  "add_assignment r s i out =
     execute [SqlInt r, SqlText s, SqlInt i, SqlInt out]
       (insert_if (\<lambda>d. r \<in> ro_room_id ` set (rooms d) \<and> s \<in> st_stay_id ` set (stays d))
          (put_assignment r s i out))"

text \<open>\<open>UPDATE assignments SET active=0 WHERE stay_id=? AND active=1\<close>\<close>

definition retire :: "pystr \<Rightarrow> db \<Rightarrow> db" where
  "retire s d =
     d\<lparr>assignments := update_where (\<lambda>a. as_stay_id a = s \<and> as_active a)
         (\<lambda>a. a\<lparr>as_active := False\<rparr>) (assignments d)\<rparr>"

definition retire_assignments :: "pystr \<Rightarrow> (db, unit) exec" where
  "retire_assignments s = execute [SqlText s] (modify (retire s))"

text \<open>\<open>UPDATE assignments SET active=1 WHERE stay_id=? AND room_id=?\<close>; a null room matches no row.\<close>

definition restore_assignments :: "pystr \<Rightarrow> int option \<Rightarrow> (db, unit) exec" where
  "restore_assignments s room =
     execute [SqlText s, case room of None \<Rightarrow> SqlNull | Some r \<Rightarrow> SqlInt r]
       (modify (\<lambda>d. d\<lparr>assignments :=
          update_where (\<lambda>a. as_stay_id a = s \<and> Some (as_room_id a) = room)
            (\<lambda>a. a\<lparr>as_active := True\<rparr>) (assignments d)\<rparr>))"

text \<open>What \<open>assign_room\<close> does in its transaction, for the stay row it read before it.\<close>

definition assign_txn :: "stay_row \<Rightarrow> int option \<Rightarrow> (db, int) exec" where
  "assign_txn stay preferred =
     transaction
       (bindE
          (case preferred of
             Some r \<Rightarrow> asked_room r (st_property_id stay)
           | None \<Rightarrow> candidate_rooms (st_property_id stay) (st_room_type stay))
          (\<lambda>candidates.
             bindE (first_free candidates (st_check_in stay) (st_check_out stay))
               (\<lambda>chosen. case chosen of
                  None \<Rightarrow> raise RoomUnavailableError
                | Some r \<Rightarrow>
                    thenE (add_assignment r (st_stay_id stay) (st_check_in stay) (st_check_out stay))
                      (thenE (set_stay_room (st_stay_id stay) r) (ret r)))))"

definition assign_room :: "pystr \<Rightarrow> int option \<Rightarrow> (db, int) exec" where
  "assign_room stay_id preferred_room_id =
     bindE (get_stay stay_id)
       (\<lambda>stay. case stay of
          None \<Rightarrow> raise NotFoundError
        | Some s \<Rightarrow>
            (case st_room_id s of
               Some r \<Rightarrow> ret r
             | None \<Rightarrow> assign_txn s preferred_room_id))"

definition change_txn :: "stay_row \<Rightarrow> int option \<Rightarrow> (db, int) exec" where
  "change_txn stay new_room_id =
     transaction
       (thenE (retire_assignments (st_stay_id stay))
         (bindE
            (case new_room_id of
               Some r \<Rightarrow> asked_room r (st_property_id stay)
             | None \<Rightarrow>
                 bindE (candidate_rooms (st_property_id stay) (st_room_type stay))
                   (\<lambda>rs. ret (filter (\<lambda>r. Some r \<noteq> st_room_id stay) rs)))
            (\<lambda>candidates.
               bindE (first_free candidates (st_check_in stay) (st_check_out stay))
                 (\<lambda>chosen. case chosen of
                    None \<Rightarrow>
                      thenE (restore_assignments (st_stay_id stay) (st_room_id stay))
                        (raise RoomUnavailableError)
                  | Some r \<Rightarrow>
                      thenE (add_assignment r (st_stay_id stay) (st_check_in stay)
                               (st_check_out stay))
                        (thenE (set_stay_room (st_stay_id stay) r) (ret r))))))"

definition change_room :: "pystr \<Rightarrow> int option \<Rightarrow> (db, int) exec" where
  "change_room stay_id new_room_id =
     bindE (get_stay stay_id)
       (\<lambda>stay. case stay of
          None \<Rightarrow> raise NotFoundError
        | Some s \<Rightarrow> change_txn s new_room_id)"

end
