(* ===== verification/Reservation_Facts.thy ===== *)
theory Reservation_Facts
  imports Reservation
begin

text \<open>
  The no-double-booking guarantee. \<open>booking_ledger\<close> states what checking, booking
  and releasing promise of the set of active bookings, and derives that no two of
  them share a room at the same time; the assignments table is its interpretation,
  and the transactions of \<open>reservation.py\<close> are described by it.
\<close>

section \<open>The ledger\<close>

lemma overlap_sym: "overlap i out i' out' \<longleftrightarrow> overlap i' out' i out"
  by (auto simp: overlap_def)

locale booking_ledger =
  fixes bookings :: "'l \<Rightarrow> assignment_row set"
    and free :: "'l \<Rightarrow> int \<Rightarrow> time \<Rightarrow> time \<Rightarrow> bool"
    and book :: "int \<Rightarrow> pystr \<Rightarrow> time \<Rightarrow> time \<Rightarrow> 'l \<Rightarrow> 'l"
    and release :: "pystr \<Rightarrow> 'l \<Rightarrow> 'l"
    and inv :: "'l \<Rightarrow> bool"
  assumes free_iff: "free l r i out \<longleftrightarrow>
      (\<forall>b \<in> bookings l. as_room_id b = r \<longrightarrow> \<not> overlap (as_check_in b) (as_check_out b) i out)"
    and book_adds: "inv l \<Longrightarrow> \<exists>n. n \<notin> as_id ` bookings l \<and>
      bookings (book r s i out l) = insert \<lparr>as_id = n, as_room_id = r, as_stay_id = s,
        as_check_in = i, as_check_out = out, as_active = True\<rparr> (bookings l)"
    and release_drops: "bookings (release s l) = {b \<in> bookings l. as_stay_id b \<noteq> s}"
    and inv_book: "inv l \<Longrightarrow> inv (book r s i out l)"
    and inv_release: "inv l \<Longrightarrow> inv (release s l)"
begin

definition exclusive :: "'l \<Rightarrow> bool" where
  "exclusive l \<longleftrightarrow>
     (\<forall>a \<in> bookings l. \<forall>b \<in> bookings l.
        as_id a \<noteq> as_id b \<longrightarrow> as_room_id a = as_room_id b \<longrightarrow>
        \<not> overlap (as_check_in a) (as_check_out a) (as_check_in b) (as_check_out b))"

lemma exclusive_book:
  assumes "inv l" "exclusive l" "free l r i out"
  shows "exclusive (book r s i out l)"
proof -
  obtain n where n: "n \<notin> as_id ` bookings l"
    "bookings (book r s i out l) = insert \<lparr>as_id = n, as_room_id = r, as_stay_id = s,
       as_check_in = i, as_check_out = out, as_active = True\<rparr> (bookings l)"
    using book_adds [OF assms(1)] by blast
  have "\<not> overlap (as_check_in b) (as_check_out b) i out" "\<not> overlap i out (as_check_in b) (as_check_out b)"
    if "b \<in> bookings l" "as_room_id b = r" for b
    using assms(3) that by (auto simp: free_iff overlap_sym [of i])
  then show ?thesis using assms(2) by (auto simp: exclusive_def n(2))
qed

lemma exclusive_release: "exclusive l \<Longrightarrow> exclusive (release s l)"
  by (simp add: exclusive_def release_drops)

text \<open>Check and book as one step, and several of them racing for one room and window.\<close>

definition claim :: "int \<Rightarrow> time \<Rightarrow> time \<Rightarrow> pystr \<Rightarrow> 'l \<times> pystr list \<Rightarrow> 'l \<times> pystr list" where
  "claim r i out s = (\<lambda>(l, won). if free l r i out then (book r s i out l, s # won) else (l, won))"

lemma free_after_book:
  assumes "inv l" "i < out"
  shows "\<not> free (book r s i out l) r i out"
proof -
  obtain n where "bookings (book r s i out l) = insert \<lparr>as_id = n, as_room_id = r,
      as_stay_id = s, as_check_in = i, as_check_out = out, as_active = True\<rparr> (bookings l)"
    using book_adds [OF assms(1)] by blast
  then show ?thesis using assms(2) by (simp add: free_iff overlap_def)
qed

lemma claims_taken: "\<not> free l r i out \<Longrightarrow> fold (claim r i out) ss (l, won) = (l, won)"
  by (induction ss) (simp_all add: claim_def)

lemma one_claim_wins:
  assumes "inv l" "i < out" "free l r i out"
  shows "fold (claim r i out) (s # ss) (l, []) = (book r s i out l, [s])"
proof -
  have "fold (claim r i out) ss (book r s i out l, [s]) = (book r s i out l, [s])"
    using free_after_book [OF assms(1,2)] by (rule claims_taken)
  then show ?thesis using assms(3) by (simp add: claim_def)
qed

end

section \<open>The assignments table is a ledger\<close>

definition active_rows :: "db \<Rightarrow> assignment_row set" where
  "active_rows d = {a \<in> set (assignments d). as_active a}"

definition room_free :: "db \<Rightarrow> int \<Rightarrow> time \<Rightarrow> time \<Rightarrow> bool" where
  "room_free d r i out \<longleftrightarrow>
     \<not> list_ex (\<lambda>a. as_room_id a = r \<and> as_active a \<and> overlap (as_check_in a) (as_check_out a) i out)
         (assignments d)"

definition ids_below :: "db \<Rightarrow> bool" where
  "ids_below d \<longleftrightarrow> (\<forall>a \<in> set (assignments d). as_id a \<le> assign_seq d)"

interpretation ledger: booking_ledger active_rows room_free put_assignment retire ids_below
proof unfold_locales
  fix d r i out s
  show "room_free d r i out \<longleftrightarrow> (\<forall>b \<in> active_rows d. as_room_id b = r \<longrightarrow>
      \<not> overlap (as_check_in b) (as_check_out b) i out)"
    by (auto simp: room_free_def active_rows_def list_ex_iff)
  show "\<exists>n. n \<notin> as_id ` active_rows d \<and> active_rows (put_assignment r s i out d) =
      insert \<lparr>as_id = n, as_room_id = r, as_stay_id = s, as_check_in = i, as_check_out = out,
        as_active = True\<rparr> (active_rows d)" if "ids_below d"
    by (rule exI [of _ "assign_seq d + 1"])
      (use that in \<open>auto simp: ids_below_def active_rows_def put_assignment_def\<close>)
  show "active_rows (retire s d) = {b \<in> active_rows d. as_stay_id b \<noteq> s}"
    by (auto simp: active_rows_def retire_def set_update_where image_iff split: if_splits)
  show "ids_below d \<Longrightarrow> ids_below (put_assignment r s i out d)"
    by (auto simp: ids_below_def put_assignment_def)
  show "ids_below d \<Longrightarrow> ids_below (retire s d)"
    by (auto simp: ids_below_def retire_def)
qed

text \<open>No two active assignments of a room overlap.\<close>

definition no_double_book :: "db \<Rightarrow> bool" where
  "no_double_book d \<longleftrightarrow>
     (\<forall>a \<in> set (assignments d). \<forall>b \<in> set (assignments d).
        as_active a \<longrightarrow> as_active b \<longrightarrow> as_id a \<noteq> as_id b \<longrightarrow> as_room_id a = as_room_id b \<longrightarrow>
        \<not> overlap (as_check_in a) (as_check_out a) (as_check_in b) (as_check_out b))"

lemma no_double_book_exclusive: "no_double_book d \<longleftrightarrow> ledger.exclusive d"
  by (auto simp: no_double_book_def ledger.exclusive_def active_rows_def)

lemma db_ok_ids_below: "db_ok d \<Longrightarrow> ids_below d"
  by (simp add: db_ok_defs ids_below_def)

definition booking_ok :: "db \<Rightarrow> bool" where
  "booking_ok d \<longleftrightarrow> db_ok d \<and> no_double_book d"

section \<open>The transactions in closed form\<close>

text \<open>The room a transaction settles on: the one asked for, or the first free one of its type.\<close>

definition rooms_of :: "db \<Rightarrow> stay_row \<Rightarrow> int list" where
  "rooms_of d s = sort (map ro_room_id (filter (\<lambda>r. ro_property_id r = st_property_id s \<and>
     ro_room_type r = st_room_type s) (rooms d)))"

definition room_choice :: "db \<Rightarrow> stay_row \<Rightarrow> int option \<Rightarrow> int list \<Rightarrow> exn + int" where
  "room_choice d s wanted others =
     (case wanted of
        Some r \<Rightarrow>
          if \<not> fits r then Inl OverflowError
          else if list_ex (\<lambda>ro. ro_room_id ro = r \<and> ro_property_id ro = st_property_id s) (rooms d) \<and>
                  room_free d r (st_check_in s) (st_check_out s)
          then Inr r else Inl RoomUnavailableError
      | None \<Rightarrow>
          (case List.find (\<lambda>r. room_free d r (st_check_in s) (st_check_out s)) others of
             Some r \<Rightarrow> Inr r | None \<Rightarrow> Inl RoomUnavailableError))"

definition with_room :: "stay_row \<Rightarrow> int \<Rightarrow> db \<Rightarrow> db" where
  "with_room s r d =
     d\<lparr>stays := update_where (\<lambda>x. st_stay_id x = st_stay_id s) (\<lambda>x. x\<lparr>st_room_id := Some r\<rparr>)
         (stays d)\<rparr>"

definition booked :: "stay_row \<Rightarrow> int \<Rightarrow> db \<Rightarrow> db" where
  "booked s r d =
     with_room s r (put_assignment r (st_stay_id s) (st_check_in s) (st_check_out s) d)"

text \<open>A stay row read from the store, now or at some earlier moment.\<close>

definition stay_known :: "db \<Rightarrow> stay_row \<Rightarrow> bool" where
  "stay_known d s \<longleftrightarrow>
     st_stay_id s \<in> st_stay_id ` set (stays d) \<and> clean (st_stay_id s) \<and> clean (st_property_id s) \<and>
     clean (st_room_type s) \<and> fits (st_check_in s) \<and> fits (st_check_out s) \<and>
     (\<forall>r. st_room_id s = Some r \<longrightarrow> fits r)"

lemma stay_known_read: "db_ok d \<Longrightarrow> s \<in> set (stays d) \<Longrightarrow> stay_known d s"
  by (fastforce simp: stay_known_def db_ok_defs)

lemma has_overlap_free:
  "fits r \<Longrightarrow> fits i \<Longrightarrow> fits out \<Longrightarrow> has_overlap r i out d = (Inr (\<not> room_free d r i out), d)"
  by (simp add: has_overlap_def room_free_def fetchone_None list_ex_iff overlap_def
      del: not_None_eq)

lemma first_free_find:
  assumes "fits i" "fits out"
  shows "\<forall>r \<in> set rs. fits r \<Longrightarrow>
    first_free rs i out d = (Inr (List.find (\<lambda>r. room_free d r i out) rs), d)"
  by (induction rs) (simp_all add: has_overlap_free assms)

lemma candidate_rooms_of:
  "clean (st_property_id s) \<Longrightarrow> clean (st_room_type s) \<Longrightarrow>
     candidate_rooms (st_property_id s) (st_room_type s) d = (Inr (rooms_of d s), d)"
  by (simp add: candidate_rooms_def rooms_of_def)

lemma rooms_of_fits: "db_ok d \<Longrightarrow> \<forall>r \<in> set (rooms_of d s). fits r \<and> r \<in> ro_room_id ` set (rooms d)"
  by (auto simp: rooms_of_def db_ok_defs)

lemma asked_room_exec:
  assumes "db_ok d"
  shows "asked_room r p d =
    (if \<not> fits r then Inl OverflowError
     else if list_ex (\<lambda>ro. ro_room_id ro = r \<and> ro_property_id ro = p) (rooms d)
     then Inr [r] else Inl RoomUnavailableError, d)"
proof (cases "fits r")
  case False
  then have "get_room r d = (Inl OverflowError, d)"
    by (simp add: get_room_def execute_def bind_error_def fits_def)
  then show ?thesis using False by (simp add: asked_room_def)
next
  case True
  then have get: "get_room r d = (Inr (fetchone (filter (\<lambda>x. ro_room_id x = r) (rooms d))), d)"
    by (simp add: get_room_def)
  show ?thesis
  proof (cases "fetchone (filter (\<lambda>x. ro_room_id x = r) (rooms d))")
    case None
    then show ?thesis using True get by (auto simp: asked_room_def fetchone_None list_ex_iff)
  next
    case (Some x)
    have x: "x \<in> set (rooms d)" "ro_room_id x = r" using fetchone_Some [OF Some] by auto
    have "y = x" if "y \<in> set (rooms d)" "ro_room_id y = r" for y
      using same_key [of ro_room_id "rooms d" y x] assms that x by (simp add: db_ok_defs)
    then have "list_ex (\<lambda>ro. ro_room_id ro = r \<and> ro_property_id ro = p) (rooms d) \<longleftrightarrow>
        ro_property_id x = p" unfolding list_ex_iff using x by metis
    then show ?thesis using True get Some by (simp add: asked_room_def)
  qed
qed

text \<open>Booking a chosen room: both writes succeed.\<close>

lemma book_exec:
  assumes "stay_known d s" "fits r" "r \<in> ro_room_id ` set (rooms d)"
  shows "thenE (add_assignment r (st_stay_id s) (st_check_in s) (st_check_out s))
           (thenE (set_stay_room (st_stay_id s) r) (ret r)) d = (Inr r, booked s r d)"
proof -
  have "add_assignment r (st_stay_id s) (st_check_in s) (st_check_out s) d =
      (Inr (), put_assignment r (st_stay_id s) (st_check_in s) (st_check_out s) d)"
    using assms by (simp add: add_assignment_def insert_if_def stay_known_def)
  moreover have "set_stay_room (st_stay_id s) r
      (put_assignment r (st_stay_id s) (st_check_in s) (st_check_out s) d) = (Inr (), booked s r d)"
    using assms by (simp add: set_stay_room_def insert_if_def stay_known_def booked_def with_room_def
        put_assignment_def)
  ultimately show ?thesis by simp
qed

lemma chosen_in_rooms:
  assumes "db_ok d" "room_choice d s wanted others = Inr r"
    and "\<forall>r \<in> set others. fits r \<and> r \<in> ro_room_id ` set (rooms d)"
  shows "fits r" "r \<in> ro_room_id ` set (rooms d)" "room_free d r (st_check_in s) (st_check_out s)"
  using assms
  by (auto simp: room_choice_def list_ex_iff find_Some_iff
      split: option.splits if_splits)

lemma pick_exec:
  assumes "db_ok d" "stay_known d s"
    and others: "\<forall>r \<in> set others. fits r \<and> r \<in> ro_room_id ` set (rooms d)"
    and first: "first d = (case wanted of Some r \<Rightarrow> asked_room r (st_property_id s) d
                                         | None \<Rightarrow> (Inr others, d))"
  shows "bindE first (\<lambda>cs. bindE (first_free cs (st_check_in s) (st_check_out s)) k) d =
    (case room_choice d s wanted others of
       Inr r \<Rightarrow> k (Some r) d
     | Inl e \<Rightarrow> if wanted = None \<or> e = RoomUnavailableError \<and>
                    list_ex (\<lambda>ro. Some (ro_room_id ro) = wanted \<and>
                                  ro_property_id ro = st_property_id s) (rooms d)
                then k None d else (Inl e, d))"
proof -
  have t: "fits (st_check_in s)" "fits (st_check_out s)" using assms(2) by (simp_all add: stay_known_def)
  show ?thesis
  proof (cases wanted)
    case None
    then show ?thesis
      using first_free_find [OF t, of others] others first
      by (simp add: room_choice_def split: option.split)
  next
    case (Some r)
    then show ?thesis
      using first_free_find [OF t, of "[r]"] first
      by (auto simp: asked_room_exec [OF assms(1)] room_choice_def list_ex_iff)
  qed
qed

lemma assign_txn_exec:
  assumes "db_ok d" "stay_known d s"
  shows "assign_txn s wanted d =
    (case room_choice d s wanted (rooms_of d s) of
       Inl e \<Rightarrow> (Inl e, d) | Inr r \<Rightarrow> (Inr r, booked s r d))"
proof -
  note others = rooms_of_fits [OF assms(1), of s]
  have "(case wanted of Some r \<Rightarrow> asked_room r (st_property_id s)
      | None \<Rightarrow> candidate_rooms (st_property_id s) (st_room_type s)) d =
      (case wanted of Some r \<Rightarrow> asked_room r (st_property_id s) d | None \<Rightarrow> (Inr (rooms_of d s), d))"
    using assms(2) by (simp add: candidate_rooms_of stay_known_def split: option.split)
  note pick = pick_exec [where wanted = wanted and d = d and others = "rooms_of d s"
      and first = "case wanted of Some r \<Rightarrow> asked_room r (st_property_id s)
        | None \<Rightarrow> candidate_rooms (st_property_id s) (st_room_type s)", OF assms others this,
      where k = "\<lambda>chosen. case chosen of None \<Rightarrow> raise RoomUnavailableError
        | Some r \<Rightarrow> thenE (add_assignment r (st_stay_id s) (st_check_in s) (st_check_out s))
            (thenE (set_stay_room (st_stay_id s) r) (ret r))"]
  show ?thesis
  proof (cases "room_choice d s wanted (rooms_of d s)")
    case (Inl e)
    then have "wanted = None \<Longrightarrow> e = RoomUnavailableError"
      by (auto simp: room_choice_def split: option.splits if_splits)
    then show ?thesis using pick Inl by (auto simp: assign_txn_def transaction_def)
  next
    case (Inr r)
    with chosen_in_rooms [OF assms(1) Inr others] show ?thesis
      using pick book_exec [OF assms(2), of r] by (simp add: assign_txn_def)
  qed
qed

text \<open>Retiring and booking keep the invariant of the store.\<close>

lemma db_ok_retire: "db_ok d \<Longrightarrow> db_ok (retire s d)"
  by (simp add: db_ok_defs retire_def)

lemma retire_simps [simp]:
  "rooms (retire s d) = rooms d" "stays (retire s d) = stays d" "guests (retire s d) = guests d"
  "keys (retire s d) = keys d" "revocations (retire s d) = revocations d"
  by (simp_all add: retire_def)

lemma db_ok_booked:
  assumes "db_ok d" "stay_known d s" "r \<in> ro_room_id ` set (rooms d)"
  shows "db_ok (booked s r d)"
  using assms
  by (auto simp: db_ok_defs booked_def with_room_def put_assignment_def stay_known_def)

lemma stay_known_retire [simp]: "stay_known (retire x d) s = stay_known d s"
  by (simp add: stay_known_def)

lemma rooms_of_retire [simp]: "rooms_of (retire x d) s = rooms_of d s"
  by (simp add: rooms_of_def)

definition other_rooms :: "db \<Rightarrow> stay_row \<Rightarrow> int list" where
  "other_rooms d s = filter (\<lambda>r. Some r \<noteq> st_room_id s) (rooms_of d s)"

lemma change_txn_exec:
  assumes "db_ok d" "stay_known d s"
  shows "change_txn s wanted d =
    (case room_choice (retire (st_stay_id s) d) s wanted (other_rooms d s) of
       Inl e \<Rightarrow> (Inl e, d) | Inr r \<Rightarrow> (Inr r, booked s r (retire (st_stay_id s) d)))"
proof -
  let ?d = "retire (st_stay_id s) d"
  have ok: "db_ok ?d" "stay_known ?d s" using assms by (simp_all add: db_ok_retire)
  have others: "\<forall>r \<in> set (other_rooms d s). fits r \<and> r \<in> ro_room_id ` set (rooms ?d)"
    using rooms_of_fits [OF assms(1), of s] by (simp add: other_rooms_def)
  have retired: "retire_assignments (st_stay_id s) d = (Inr (), ?d)"
    using assms(2) by (simp add: retire_assignments_def stay_known_def)
  have first: "(case wanted of Some r \<Rightarrow> asked_room r (st_property_id s)
      | None \<Rightarrow> bindE (candidate_rooms (st_property_id s) (st_room_type s))
           (\<lambda>rs. ret (filter (\<lambda>r. Some r \<noteq> st_room_id s) rs))) ?d =
      (case wanted of Some r \<Rightarrow> asked_room r (st_property_id s) ?d
       | None \<Rightarrow> (Inr (other_rooms d s), ?d))"
    using assms(2)
    by (simp add: candidate_rooms_of stay_known_def other_rooms_def split: option.split)
  have restore: "\<exists>d'. restore_assignments (st_stay_id s) (st_room_id s) ?d = (Inr (), d')"
    using assms(2) by (auto simp: restore_assignments_def stay_known_def split: option.split)
  note pick = pick_exec [where wanted = wanted and others = "other_rooms d s"
      and first = "case wanted of Some r \<Rightarrow> asked_room r (st_property_id s)
        | None \<Rightarrow> bindE (candidate_rooms (st_property_id s) (st_room_type s))
           (\<lambda>rs. ret (filter (\<lambda>r. Some r \<noteq> st_room_id s) rs))", OF ok others first,
      where k = "\<lambda>chosen. case chosen of
          None \<Rightarrow> thenE (restore_assignments (st_stay_id s) (st_room_id s))
            (raise RoomUnavailableError)
        | Some r \<Rightarrow> thenE (add_assignment r (st_stay_id s) (st_check_in s) (st_check_out s))
            (thenE (set_stay_room (st_stay_id s) r) (ret r))"]
  show ?thesis
  proof (cases "room_choice ?d s wanted (other_rooms d s)")
    case (Inl e)
    then have "wanted = None \<Longrightarrow> e = RoomUnavailableError"
      by (auto simp: room_choice_def split: option.splits if_splits)
    then show ?thesis using pick Inl restore retired
      by (auto simp: change_txn_def transaction_def)
  next
    case (Inr r)
    with chosen_in_rooms [OF ok(1) Inr others] show ?thesis
      using pick book_exec [OF ok(2), of r] retired by (simp add: change_txn_def)
  qed
qed

section \<open>Statements that leave the assignments alone\<close>

lemma keeps_booking_ok:
  assumes "keeps db_ok m" "\<And>A. keeps (\<lambda>d. assignments d = A) m"
  shows "keeps booking_ok m"
proof (rule keepsI)
  fix d r d'
  assume ok: "booking_ok d" and run: "m d = (r, d')"
  have "assignments d' = assignments d" by (rule keepsD [OF assms(2) refl run])
  moreover have "db_ok d'" using keepsD [OF assms(1) _ run] ok by (simp add: booking_ok_def)
  ultimately show "booking_ok d'" using ok by (simp add: booking_ok_def no_double_book_def)
qed

lemma keeps_assignments:
  "keeps (\<lambda>d. assignments d = A) (add_guest g n e)"
  "keeps (\<lambda>d. assignments d = A) (add_room i p n t)"
  "keeps (\<lambda>d. assignments d = A) (add_stay s g p t c out)"
  "keeps (\<lambda>d. assignments d = A) (set_stay_status s x)"
  "keeps (\<lambda>d. assignments d = A) (add_key k)"
  "keeps (\<lambda>d. assignments d = A) (deactivate_keys s)"
  "keeps (\<lambda>d. assignments d = A) (revoke_key kid now why)"
  unfolding add_guest_def add_room_def add_stay_def set_stay_status_def add_key_def
    deactivate_keys_def revoke_key_def
  by (intro keeps_intros keeps_insert_if keeps_modify; simp)+

lemmas keeps_booking_statements [keeps_intros] =
  keeps_booking_ok [OF keeps_add_guest keeps_assignments(1)]
  keeps_booking_ok [OF keeps_add_room keeps_assignments(2)]
  keeps_booking_ok [OF keeps_add_stay keeps_assignments(3)]
  keeps_booking_ok [OF keeps_set_stay_status keeps_assignments(4)]
  keeps_booking_ok [OF keeps_add_key keeps_assignments(5)]
  keeps_booking_ok [OF keeps_deactivate_keys keeps_assignments(6)]
  keeps_booking_ok [OF keeps_revoke_key keeps_assignments(7)]

lemma keeps_any_reads [keeps_intros]:
  "keeps P (get_room i)" "keeps P (get_stay s)" "keeps P revocation_list"
  "keeps P (active_assignment_for_room i)"
  unfolding get_room_def get_stay_def revocation_list_def active_assignment_for_room_def
  by (intro keeps_intros)+

lemma keeps_deactivate_for_stay [keeps_intros]: "keeps booking_ok (deactivate_keys_for_stay s)"
  unfolding deactivate_keys_for_stay_def by (intro keeps_intros)

section \<open>Every call keeps the guarantee\<close>

lemma booked_exclusive:
  assumes "booking_ok d" "stay_known d s" "r \<in> ro_room_id ` set (rooms d)"
    and "room_free d r (st_check_in s) (st_check_out s)"
  shows "booking_ok (booked s r d)"
proof -
  have "ledger.exclusive (put_assignment r (st_stay_id s) (st_check_in s) (st_check_out s) d)"
    using assms by (intro ledger.exclusive_book)
      (simp_all add: booking_ok_def no_double_book_exclusive db_ok_ids_below)
  then have "no_double_book (booked s r d)"
    by (simp add: no_double_book_exclusive ledger.exclusive_def active_rows_def booked_def
        with_room_def)
  then show ?thesis using assms by (simp add: booking_ok_def db_ok_booked)
qed

lemma retire_booking_ok: "booking_ok d \<Longrightarrow> booking_ok (retire s d)"
  by (simp add: booking_ok_def db_ok_retire no_double_book_exclusive ledger.exclusive_release)

lemma keeps_retire_assignments [keeps_intros]: "keeps booking_ok (retire_assignments s)"
  unfolding retire_assignments_def by (intro keeps_intros keeps_modify retire_booking_ok)

lemma assign_txn_booking_ok:
  assumes "booking_ok d" "stay_known d s" "assign_txn s wanted d = (r, d')"
  shows "booking_ok d'"
proof -
  have ok: "db_ok d" using assms(1) by (simp add: booking_ok_def)
  show ?thesis
    using assms assign_txn_exec [OF ok assms(2)] booked_exclusive [OF assms(1,2)]
      chosen_in_rooms [OF ok _ rooms_of_fits [OF ok]]
    by (auto split: sum.splits)
qed

lemma change_txn_booking_ok:
  assumes "booking_ok d" "stay_known d s" "change_txn s wanted d = (r, d')"
  shows "booking_ok d'"
proof -
  let ?d = "retire (st_stay_id s) d"
  have ok: "db_ok d" "db_ok ?d" "booking_ok ?d"
    using assms(1) by (simp_all add: booking_ok_def [of d] db_ok_retire retire_booking_ok)
  have others: "\<forall>r \<in> set (other_rooms d s). fits r \<and> r \<in> ro_room_id ` set (rooms ?d)"
    using rooms_of_fits [OF ok(1), of s] by (simp add: other_rooms_def)
  show ?thesis
    using assms change_txn_exec [OF ok(1) assms(2)] booked_exclusive [OF ok(3), of s]
      chosen_in_rooms [OF ok(2) _ others]
    by (auto split: sum.splits)
qed

lemma get_stay_cases:
  assumes "get_stay i d = (r, d')"
  obtains (raised) e where "r = Inl e" "d' = d"
    | (missing) "r = Inr None" "d' = d" "i \<notin> st_stay_id ` set (stays d)"
    | (found) s where "r = Inr (Some s)" "d' = d" "s \<in> set (stays d)" "st_stay_id s = i"
proof (cases "clean i")
  case True
  let ?f = "fetchone (filter (\<lambda>s. st_stay_id s = i) (stays d))"
  from True have r: "r = Inr ?f" "d' = d" using assms by (auto simp: get_stay_def)
  show ?thesis
  proof (cases ?f)
    case None
    then have "\<forall>s \<in> set (stays d). st_stay_id s \<noteq> i" by (simp add: fetchone_None)
    then show ?thesis using r None by (intro missing) auto
  next
    case (Some s)
    then show ?thesis using r fetchone_Some [OF Some] by (intro found) auto
  qed
next
  case False
  then show ?thesis using assms raised by (auto simp: get_stay_def execute_def bind_error_def clean_def)
qed

lemma keeps_assign_room [keeps_intros]: "keeps booking_ok (assign_room i wanted)"
proof (rule keepsI)
  fix d r d'
  assume ok: "booking_ok d" and run: "assign_room i wanted d = (r, d')"
  obtain res d1 where g: "get_stay i d = (res, d1)" by force
  then show "booking_ok d'"
  proof (cases rule: get_stay_cases)
    case (found s)
    then show ?thesis
      using run g ok assign_txn_booking_ok [OF ok] stay_known_read [of d s]
      by (cases "st_room_id s") (auto simp: assign_room_def booking_ok_def)
  qed (use run g ok in \<open>auto simp: assign_room_def\<close>)
qed

lemma keeps_change_room [keeps_intros]: "keeps booking_ok (change_room i wanted)"
proof (rule keepsI)
  fix d r d'
  assume ok: "booking_ok d" and run: "change_room i wanted d = (r, d')"
  obtain res d1 where g: "get_stay i d = (res, d1)" by force
  then show "booking_ok d'"
  proof (cases rule: get_stay_cases)
    case (found s)
    then show ?thesis
      using run g ok change_txn_booking_ok [OF ok] stay_known_read [of d s]
      by (auto simp: change_room_def booking_ok_def)
  qed (use run g ok in \<open>auto simp: change_room_def\<close>)
qed

section \<open>What the calls return\<close>

text \<open>A room the request may be given: of the stay's property, and of its type or the one asked for.\<close>

definition eligible :: "db \<Rightarrow> stay_row \<Rightarrow> int option \<Rightarrow> int \<Rightarrow> bool" where
  "eligible d s wanted r \<longleftrightarrow>
     list_ex (\<lambda>ro. ro_room_id ro = r \<and> ro_property_id ro = st_property_id s \<and>
        (case wanted of None \<Rightarrow> ro_room_type ro = st_room_type s | Some w \<Rightarrow> r = w)) (rooms d)"

lemma eligible_None: "eligible d s None r \<longleftrightarrow> r \<in> set (rooms_of d s)"
  by (auto simp: eligible_def rooms_of_def list_ex_iff)

lemma find_least:
  assumes "sorted xs" "List.find p xs = Some x"
  shows "x \<in> set xs" "p x" "y \<in> set xs \<Longrightarrow> p y \<Longrightarrow> x \<le> y"
proof -
  obtain k where k: "k < length xs" "p (xs ! k)" "x = xs ! k" "\<forall>j < k. \<not> p (xs ! j)"
    using assms(2) by (auto simp: find_Some_iff)
  then show "x \<in> set xs" "p x" by auto
  assume "y \<in> set xs" "p y"
  then obtain j where "j < length xs" "y = xs ! j" by (auto simp: in_set_conv_nth)
  then show "x \<le> y" using k assms(1) \<open>p y\<close> by (metis linorder_not_le sorted_nth_mono)
qed

lemma room_choice_Some:
  "room_choice d s (Some w) others =
     (if \<not> fits w then Inl OverflowError
      else if eligible d s (Some w) w \<and> room_free d w (st_check_in s) (st_check_out s)
      then Inr w else Inl RoomUnavailableError)"
  by (auto simp: room_choice_def eligible_def list_ex_iff)

lemma room_choice_None:
  "room_choice d s None others =
     (case List.find (\<lambda>r. room_free d r (st_check_in s) (st_check_out s)) others of
        Some r \<Rightarrow> Inr r | None \<Rightarrow> Inl RoomUnavailableError)"
  by (simp add: room_choice_def)

lemma room_choice_cong:
  "rooms d = rooms d' \<Longrightarrow> assignments d = assignments d' \<Longrightarrow>
     room_choice d s wanted others = room_choice d' s wanted others"
  unfolding room_choice_def room_free_def by presburger

lemma get_stay_row:
  assumes "db_ok d" "s \<in> set (stays d)"
  shows "get_stay (st_stay_id s) d = (Inr (Some s), d)"
  using assms fetchone_key [of st_stay_id "stays d" s] by (simp add: get_stay_def db_ok_defs)

lemma assign_room_row:
  assumes "db_ok d" "s \<in> set (stays d)"
  shows "assign_room (st_stay_id s) wanted d =
    (case st_room_id s of
       Some r \<Rightarrow> (Inr r, d)
     | None \<Rightarrow>
         (case room_choice d s wanted (rooms_of d s) of
            Inl e \<Rightarrow> (Inl e, d) | Inr r \<Rightarrow> (Inr r, booked s r d)))"
  using get_stay_row [OF assms] assign_txn_exec [OF assms(1) stay_known_read [OF assms]]
  by (simp add: assign_room_def split: option.split)

lemma change_room_row:
  assumes "db_ok d" "s \<in> set (stays d)"
  shows "change_room (st_stay_id s) wanted d =
    (case room_choice (retire (st_stay_id s) d) s wanted (other_rooms d s) of
       Inl e \<Rightarrow> (Inl e, d) | Inr r \<Rightarrow> (Inr r, booked s r (retire (st_stay_id s) d)))"
  using get_stay_row [OF assms] change_txn_exec [OF assms(1) stay_known_read [OF assms]]
  by (simp add: change_room_def)

lemma booked_stay:
  assumes "s \<in> set (stays d)"
  shows "s\<lparr>st_room_id := Some r\<rparr> \<in> set (stays (booked s r d))"
  using assms by (force simp: booked_def with_room_def put_assignment_def set_update_where)

end
