(* ===== verification/Race.thy ===== *)
theory Race
  imports Reservation_Facts
begin

text \<open>
  Concurrent callers of \<open>reservation.py\<close>. A call reads its stay before its
  transaction, and any other statement may commit in between, so a call is two
  atomic steps. The guarantee holds in every state any interleaving reaches, and of
  several callers racing for one room exactly one wins.
\<close>

section \<open>Calls as two steps\<close>

datatype call =
    Assign pystr "int option"
  | Assigning stay_row "int option"
  | Change pystr "int option"
  | Changing stay_row "int option"
  | Done "exn + int"

definition call_step :: "db \<Rightarrow> call \<Rightarrow> db \<times> call" where
  "call_step d c =
     (case c of
        Assign i wanted \<Rightarrow>
          (case get_stay i d of
             (Inl e, d') \<Rightarrow> (d', Done (Inl e))
           | (Inr None, d') \<Rightarrow> (d', Done (Inl NotFoundError))
           | (Inr (Some s), d') \<Rightarrow>
               (case st_room_id s of
                  Some r \<Rightarrow> (d', Done (Inr r))
                | None \<Rightarrow> (d', Assigning s wanted)))
      | Assigning s wanted \<Rightarrow> (case assign_txn s wanted d of (r, d') \<Rightarrow> (d', Done r))
      | Change i wanted \<Rightarrow>
          (case get_stay i d of
             (Inl e, d') \<Rightarrow> (d', Done (Inl e))
           | (Inr None, d') \<Rightarrow> (d', Done (Inl NotFoundError))
           | (Inr (Some s), d') \<Rightarrow> (d', Changing s wanted))
      | Changing s wanted \<Rightarrow> (case change_txn s wanted d of (r, d') \<Rightarrow> (d', Done r))
      | Done r \<Rightarrow> (d, Done r))"

text \<open>Left alone, the steps of a call are the call.\<close>

definition completes :: "db \<Rightarrow> call \<Rightarrow> db \<times> call" where
  "completes d c = (case call_step d c of (d', c') \<Rightarrow> call_step d' c')"

lemma assign_room_steps:
  "assign_room i wanted d = (r, d') \<longleftrightarrow> completes d (Assign i wanted) = (d', Done r)"
  by (auto simp: assign_room_def completes_def call_step_def bindE_def
      split: prod.splits sum.splits option.splits)

lemma change_room_steps:
  "change_room i wanted d = (r, d') \<longleftrightarrow> completes d (Change i wanted) = (d', Done r)"
  by (auto simp: change_room_def completes_def call_step_def bindE_def
      split: prod.splits sum.splits option.splits)

section \<open>Interleavings\<close>

text \<open>
  Other statements of the program that write and commit by themselves, one at a
  time.
\<close>

inductive statement :: "db \<Rightarrow> db \<Rightarrow> bool" where
  stmt_guest: "add_guest g n e d = (r, d') \<Longrightarrow> statement d d'"
| stmt_room: "add_room i p n t d = (r, d') \<Longrightarrow> statement d d'"
| stmt_stay: "add_stay s g p t i out d = (r, d') \<Longrightarrow> statement d d'"
| stmt_status: "set_stay_status s x d = (r, d') \<Longrightarrow> statement d d'"
| stmt_key: "add_key k d = (r, d') \<Longrightarrow> statement d d'"
| stmt_deactivate: "deactivate_keys s d = (r, d') \<Longrightarrow> statement d d'"
| stmt_revoke: "revoke_key k t why d = (r, d') \<Longrightarrow> statement d d'"
| stmt_retire: "retire_assignments s d = (r, d') \<Longrightarrow> statement d d'"

inductive interleave :: "db \<times> call list \<Rightarrow> db \<times> call list \<Rightarrow> bool" where
  il_call: "n < length cs \<Longrightarrow> call_step d (cs ! n) = (d', c) \<Longrightarrow>
    interleave (d, cs) (d', cs[n := c])"
| il_assign: "interleave (d, cs) (d, cs @ [Assign i wanted])"
| il_change: "interleave (d, cs) (d, cs @ [Change i wanted])"
| il_other: "statement d d' \<Longrightarrow> interleave (d, cs) (d', cs)"

inductive_cases interleaveE: "interleave (d, cs) (d', cs')"

section \<open>What a statement leaves alone\<close>

text \<open>Stays are never deleted, and only their status and room are updated.\<close>

definition grows :: "db \<Rightarrow> db \<Rightarrow> bool" where
  "grows d d' \<longleftrightarrow> st_stay_id ` set (stays d) \<subseteq> st_stay_id ` set (stays d')"

lemma grows_refl [simp]: "grows d d"
  by (simp add: grows_def)

lemma stay_known_grows: "stay_known d s \<Longrightarrow> grows d d' \<Longrightarrow> stay_known d' s"
  by (auto simp: stay_known_def grows_def)

lemma execute_run:
  assumes "execute ps m d = (r, d')"
  obtains "d' = d" | "m d = (r, d')"
  using assms by (cases ps m rule: execute_cases) auto

lemma insert_if_run:
  assumes "insert_if ok put d = (r, d')"
  obtains "d' = d" | "ok d" "d' = put d"
  using assms by (cases "ok d") (auto simp: insert_if_def)

lemma statement_grows:
  assumes "statement d d'"
  shows "grows d d'"
  using assms
proof cases
  case stmt_guest
  then show ?thesis unfolding add_guest_def
    by (elim execute_run insert_if_run) (auto simp: grows_def)
next
  case stmt_room
  then show ?thesis unfolding add_room_def
    by (elim execute_run insert_if_run) (auto simp: grows_def)
next
  case stmt_stay
  then show ?thesis unfolding add_stay_def
    by (elim execute_run insert_if_run) (auto simp: grows_def)
next
  case stmt_status
  then show ?thesis unfolding set_stay_status_def
    by (elim execute_run) (auto simp: grows_def)
next
  case stmt_key
  then show ?thesis unfolding add_key_def
    by (elim execute_run insert_if_run) (auto simp: grows_def)
next
  case stmt_deactivate
  then show ?thesis unfolding deactivate_keys_def
    by (elim execute_run) (auto simp: grows_def)
next
  case stmt_revoke
  then show ?thesis unfolding revoke_key_def
    by (elim execute_run) (auto simp: grows_def split: if_splits)
next
  case stmt_retire
  then show ?thesis unfolding retire_assignments_def
    by (elim execute_run) (auto simp: grows_def)
qed

lemma statement_booking_ok:
  assumes "statement d d'" "booking_ok d"
  shows "booking_ok d'"
  using assms
  by (induction rule: statement.induct)
    (auto elim!: keepsD [rotated -1] intro: keeps_booking_statements keeps_retire_assignments)

section \<open>Every interleaving is safe\<close>

definition calls_known :: "db \<Rightarrow> call list \<Rightarrow> bool" where
  "calls_known d cs \<longleftrightarrow>
     list_all (\<lambda>c. case c of Assigning s w \<Rightarrow> stay_known d s | Changing s w \<Rightarrow> stay_known d s
                        | _ \<Rightarrow> True) cs"

definition race_inv :: "db \<times> call list \<Rightarrow> bool" where
  "race_inv = (\<lambda>(d, cs). booking_ok d \<and> calls_known d cs)"

lemma calls_known_grows: "calls_known d cs \<Longrightarrow> grows d d' \<Longrightarrow> calls_known d' cs"
  by (auto simp: calls_known_def list_all_iff stay_known_grows split: call.splits)

lemma grows_booked: "grows d (booked s r (retire x d))" "grows d (booked s r d)"
  by (simp_all add: grows_def booked_def with_room_def put_assignment_def)

lemma call_step_inv:
  assumes "race_inv (d, cs)" "n < length cs" "call_step d (cs ! n) = (d', c)"
  shows "booking_ok d' \<and> grows d d' \<and> calls_known d' [c]"
proof -
  have ok: "booking_ok d" "db_ok d" "calls_known d [cs ! n]"
    using assms(1,2) by (auto simp: race_inv_def booking_ok_def calls_known_def list_all_iff)
  have read: ?thesis if call: "cs ! n = Assign i w \<or> cs ! n = Change i w" for i w
  proof -
    obtain r d1 where g: "get_stay i d = (r, d1)" by force
    then show ?thesis
    proof (cases rule: get_stay_cases)
      case (found s)
      then show ?thesis using call g assms(3) ok(1) stay_known_read [OF ok(2)]
        by (auto simp: call_step_def calls_known_def split: option.splits)
    qed (use call g assms(3) ok(1) in \<open>auto simp: call_step_def calls_known_def\<close>)
  qed
  show ?thesis
  proof (cases "cs ! n")
    case (Assign i w)
    then show ?thesis using read by blast
  next
    case (Change i w)
    then show ?thesis using read by blast
  next
    case (Assigning s w)
    then have s: "stay_known d s" using ok(3) by (simp add: calls_known_def)
    show ?thesis using Assigning assms(3) assign_txn_booking_ok [OF ok(1) s] assign_txn_exec [OF ok(2) s]
      by (auto simp: call_step_def calls_known_def grows_booked split: prod.splits sum.splits)
  next
    case (Changing s w)
    then have s: "stay_known d s" using ok(3) by (simp add: calls_known_def)
    show ?thesis using Changing assms(3) change_txn_booking_ok [OF ok(1) s] change_txn_exec [OF ok(2) s]
      by (auto simp: call_step_def calls_known_def grows_booked split: prod.splits sum.splits)
  next
    case (Done r)
    then have "d' = d" "c = cs ! n" using assms(3) by (simp_all add: call_step_def)
    then show ?thesis using ok(1,3) by simp
  qed
qed

lemma interleave_inv:
  assumes "interleave st st'" "race_inv st"
  shows "race_inv st'"
  using assms
proof (induction rule: interleave.induct)
  case (il_call n cs d d' c)
  from call_step_inv [OF il_call.prems il_call.hyps] have c: "booking_ok d'" "grows d d'"
    "calls_known d' [c]" by auto
  moreover have "calls_known d' cs" using il_call.prems c(2) by (auto simp: race_inv_def calls_known_grows)
  ultimately show ?case
    by (auto simp: race_inv_def calls_known_def list_all_iff dest!: set_update_subset_insert [THEN subsetD])
next
  case (il_other d d' cs)
  then show ?case
    using statement_booking_ok statement_grows calls_known_grows by (auto simp: race_inv_def)
qed (auto simp: race_inv_def calls_known_def)

lemma interleavings_safe:
  assumes "interleave\<^sup>*\<^sup>* st st'" "race_inv st"
  shows "race_inv st'"
  using assms by (induction rule: rtranclp_induct) (auto intro: interleave_inv)

section \<open>A race for one room\<close>

text \<open>A schedule names the caller that takes the next step.\<close>

definition tick :: "nat \<Rightarrow> db \<times> call list \<Rightarrow> db \<times> call list" where
  "tick n = (\<lambda>(d, cs).
     if n < length cs then (case call_step d (cs ! n) of (d', c) \<Rightarrow> (d', cs[n := c])) else (d, cs))"

definition run_schedule :: "nat list \<Rightarrow> db \<times> call list \<Rightarrow> db \<times> call list" where
  "run_schedule ns st = fold tick ns st"

lemma run_schedule_interleave: "interleave\<^sup>*\<^sup>* st (run_schedule ns st)"
proof (induction ns arbitrary: st)
  case (Cons n ns)
  obtain d cs where st: "st = (d, cs)" by force
  have "interleave\<^sup>*\<^sup>* st (tick n st)"
    by (auto simp: tick_def st split: prod.split intro: r_into_rtranclp il_call)
  then show ?case using Cons.IH [of "tick n st"] by (simp add: run_schedule_def)
qed (simp add: run_schedule_def)

text \<open>
  Callers \<open>ids ! k\<close>, each for a stay of its own with the same window and no room yet,
  all ask for room \<open>r\<close>. A caller waits until its transaction; the first to get there
  books.
\<close>

definition wants :: "int \<Rightarrow> pystr \<Rightarrow> time \<Rightarrow> time \<Rightarrow> db \<Rightarrow> pystr \<Rightarrow> call \<Rightarrow> bool" where
  "wants r p i out d sid c \<longleftrightarrow>
     (\<exists>s. st_stay_id s = sid \<and> st_check_in s = i \<and> st_check_out s = out \<and> st_property_id s = p \<and>
        (c = Assign sid (Some r) \<and> s \<in> set (stays d) \<and> st_room_id s = None \<or>
         c = Assigning s (Some r) \<and> stay_known d s))"

definition lost :: "call \<Rightarrow> bool" where
  "lost c \<longleftrightarrow> c = Done (Inl RoomUnavailableError)"

definition race_state ::
  "int \<Rightarrow> pystr \<Rightarrow> time \<Rightarrow> time \<Rightarrow> pystr list \<Rightarrow> db \<times> call list \<Rightarrow> bool" where
  "race_state r p i out ids = (\<lambda>(d, cs).
     length cs = length ids \<and> distinct ids \<and> db_ok d \<and> i < out \<and>
     list_ex (\<lambda>ro. ro_room_id ro = r \<and> ro_property_id ro = p) (rooms d) \<and>
     (if room_free d r i out then \<forall>k < length ids. wants r p i out d (ids ! k) (cs ! k)
      else \<exists>w < length ids. cs ! w = Done (Inr r) \<and>
             (\<forall>k < length ids. k \<noteq> w \<longrightarrow> wants r p i out d (ids ! k) (cs ! k) \<or> lost (cs ! k))))"

text \<open>The steps of a waiting caller.\<close>

lemma wants_step:
  assumes "db_ok d" "wants r p i out d sid c" "call_step d c = (d', c')"
    and "list_ex (\<lambda>ro. ro_room_id ro = r \<and> ro_property_id ro = p) (rooms d)"
  obtains (reading) "d' = d" "wants r p i out d sid c'"
    | (winning) s where "room_free d r i out" "c' = Done (Inr r)" "d' = booked s r d"
        "st_stay_id s = sid" "st_check_in s = i" "st_check_out s = out" "stay_known d s"
    | (losing) "\<not> room_free d r i out" "lost c'" "d' = d"
proof -
  have fit: "fits r" using assms(1,4) by (auto simp: db_ok_defs list_ex_iff)
  obtain s where s: "st_stay_id s = sid" "st_check_in s = i" "st_check_out s = out"
    "st_property_id s = p"
    "c = Assign sid (Some r) \<and> s \<in> set (stays d) \<and> st_room_id s = None \<or>
     c = Assigning s (Some r) \<and> stay_known d s"
    using assms(2) by (auto simp: wants_def)
  from s(5) show ?thesis
  proof (elim disjE conjE)
    assume c: "c = Assign sid (Some r)" and mem: "s \<in> set (stays d)" "st_room_id s = None"
    have "fetchone (filter (\<lambda>x. st_stay_id x = sid) (stays d)) = Some s" "clean sid"
      using assms(1) mem s(1) fetchone_key [of st_stay_id "stays d" s] by (auto simp: db_ok_defs)
    then have "get_stay sid d = (Inr (Some s), d)" by (simp add: get_stay_def)
    then have "d' = d" "c' = Assigning s (Some r)"
      using assms(3) mem(2) by (simp_all add: c call_step_def)
    then show ?thesis using reading s stay_known_read [OF assms(1) mem(1)] by (auto simp: wants_def)
  next
    assume c: "c = Assigning s (Some r)" and known: "stay_known d s"
    note exec = assign_txn_exec [OF assms(1) known, of "Some r"]
    show ?thesis
    proof (cases "room_free d r i out")
      case True
      then have "room_choice d s (Some r) (rooms_of d s) = Inr r"
        using fit s(2-4) assms(4) by (simp add: room_choice_def)
      then have "assign_txn s (Some r) d = (Inr r, booked s r d)" using exec by simp
      then have won: "c' = Done (Inr r)" "d' = booked s r d"
        using assms(3) by (simp_all add: c call_step_def)
      show ?thesis by (rule winning [OF True won s(1-3) known])
    next
      case False
      then have "room_choice d s (Some r) (rooms_of d s) = Inl RoomUnavailableError"
        using fit s(2-4) by (simp add: room_choice_def)
      then have "assign_txn s (Some r) d = (Inl RoomUnavailableError, d)" using exec by simp
      then have "d' = d" "lost c'" using assms(3) by (simp_all add: c call_step_def lost_def)
      then show ?thesis using losing [OF False] by simp
    qed
  qed
qed

text \<open>Booking for one stay leaves the others waiting.\<close>

lemma wants_booked:
  assumes "wants r p i out d sid c" "st_stay_id s \<noteq> sid"
  shows "wants r p i out (booked s r d) sid c"
proof -
  have "x \<in> set (stays (booked s r d))" if "x \<in> set (stays d)" "st_stay_id x = sid" for x
    using that assms(2)
    by (simp add: booked_def with_room_def put_assignment_def in_update_where)
  moreover have "stay_known (booked s r d) x" if "stay_known d x" for x
    using stay_known_grows [OF that grows_booked(2)] .
  moreover obtain x where "st_stay_id x = sid" "st_check_in x = i" "st_check_out x = out"
    "st_property_id x = p" "c = Assign sid (Some r) \<and> x \<in> set (stays d) \<and> st_room_id x = None \<or>
     c = Assigning x (Some r) \<and> stay_known d x"
    using assms(1) unfolding wants_def by blast
  ultimately show ?thesis unfolding wants_def by (intro exI [of _ x]) blast
qed

lemma booked_taken:
  assumes "db_ok d" "i < out" "st_check_in s = i" "st_check_out s = out"
  shows "\<not> room_free (booked s r d) r i out"
proof -
  have "\<not> room_free (put_assignment r (st_stay_id s) i out d) r i out"
    using ledger.free_after_book [OF db_ok_ids_below [OF assms(1)] assms(2)] .
  then show ?thesis using assms(3,4) by (simp add: room_free_def booked_def with_room_def)
qed

lemma call_step_Done [simp]: "call_step d (Done x) = (d, Done x)"
  by (simp add: call_step_def)

lemma booked_rooms [simp]: "rooms (booked s r d) = rooms d"
  by (simp add: booked_def with_room_def put_assignment_def)

lemma tick_race_state:
  assumes "race_state r p i out ids (d, cs)"
  shows "race_state r p i out ids (tick n (d, cs))"
proof (cases "n < length cs")
  case False
  then show ?thesis using assms by (simp add: tick_def)
next
  case n: True
  obtain d' c' where step: "call_step d (cs ! n) = (d', c')" by force
  have tick: "tick n (d, cs) = (d', cs[n := c'])" using n step by (simp add: tick_def)
  have st: "length cs = length ids" "distinct ids" "db_ok d" "i < out"
    "list_ex (\<lambda>ro. ro_room_id ro = r \<and> ro_property_id ro = p) (rooms d)"
    using assms by (simp_all add: race_state_def)
  show ?thesis
  proof (cases "room_free d r i out")
    case free: True
    then have w: "\<forall>k < length ids. wants r p i out d (ids ! k) (cs ! k)"
      using assms by (simp add: race_state_def)
    with n st(1) have "wants r p i out d (ids ! n) (cs ! n)" by simp
    then show ?thesis
    proof (cases rule: wants_step [OF st(3) _ step st(5), consumes 1])
      case 1
      then show ?thesis using assms free w n by (simp add: tick race_state_def nth_list_update)
    next
      case winning: (2 s)
      have "r \<in> ro_room_id ` set (rooms d)" using st(5) by (auto simp: list_ex_iff)
      then have "db_ok d'" using db_ok_booked [OF st(3)] winning by simp
      moreover have "\<not> room_free d' r i out"
        using booked_taken [OF st(3,4)] winning by simp
      moreover have "wants r p i out d' (ids ! k) (cs ! k)" if "k < length ids" "k \<noteq> n" for k
      proof -
        have "ids ! k \<noteq> ids ! n" using that n st(1,2) by (simp add: nth_eq_iff_index_eq)
        then show ?thesis using wants_booked that(1) w winning by metis
      qed
      ultimately show ?thesis using st n winning
        by (auto simp: tick race_state_def nth_list_update intro!: exI [of _ n])
    next
      case 3
      then show ?thesis using free by simp
    qed
  next
    case taken: False
    then obtain w where w: "w < length ids" "cs ! w = Done (Inr r)"
      "\<forall>k < length ids. k \<noteq> w \<longrightarrow> wants r p i out d (ids ! k) (cs ! k) \<or> lost (cs ! k)"
      using assms by (auto simp: race_state_def)
    have "d' = d \<and> (n = w \<longrightarrow> c' = Done (Inr r)) \<and>
      (n \<noteq> w \<longrightarrow> wants r p i out d (ids ! n) c' \<or> lost c')"
    proof (cases "n = w \<or> lost (cs ! n)")
      case True
      then show ?thesis using step w(2) by (auto simp: lost_def)
    next
      case False
      then have "wants r p i out d (ids ! n) (cs ! n)" using w(3) n st(1) by metis
      then show ?thesis
        by (cases rule: wants_step [OF st(3) _ step st(5), consumes 1]) (use False taken in auto)
    qed
    then show ?thesis using st taken w n
      by (auto simp: tick race_state_def nth_list_update intro!: exI [of _ w])
  qed
qed

lemma schedule_race_state:
  "race_state r p i out ids st \<Longrightarrow> race_state r p i out ids (run_schedule ns st)"
proof (induction ns arbitrary: st)
  case (Cons n ns)
  then show ?case using tick_race_state [of r p i out ids "fst st" "snd st" n]
    by (simp add: run_schedule_def)
qed (simp add: run_schedule_def)

end
