(* ===== verification/Sample_Hotel.thy ===== *)
theory Sample_Hotel
  imports Race Sample_Platform
begin

text \<open>
  A small hotel on which the properties of the store are evaluated: two king rooms,
  two guests, and two overlapping stays without a room.
\<close>

lemma clean_lit [simp]: "clean (lit s)"
  using text_ok_lit [of s] by (simp add: clean_def text_ok_def)

definition hotel_stay :: "string \<Rightarrow> string \<Rightarrow> time \<Rightarrow> time \<Rightarrow> stay_row" where
  "hotel_stay s g i out =
     \<lparr>st_stay_id = lit s, st_guest_id = lit g, st_property_id = lit ''HILTON-DEMO-001'',
      st_room_type = lit ''king'', st_room_id = None, st_check_in = i, st_check_out = out,
      st_status = lit ''reserved''\<rparr>"

definition hotel_room :: "int \<Rightarrow> room_row" where
  "hotel_room r =
     \<lparr>ro_room_id = r, ro_property_id = lit ''HILTON-DEMO-001'', ro_number = lit ''n'',
      ro_room_type = lit ''king''\<rparr>"

definition hotel :: db where
  "hotel = init_db
     \<lparr>guests := [\<lparr>gu_guest_id = lit ''g_ada'', gu_name = lit ''Ada'', gu_email = lit ''a@x''\<rparr>,
                 \<lparr>gu_guest_id = lit ''g_ben'', gu_name = lit ''Ben'', gu_email = lit ''b@x''\<rparr>],
      rooms := [hotel_room 101, hotel_room 102],
      stays := [hotel_stay ''s_ada'' ''g_ada'' 1000 90000,
                hotel_stay ''s_ben'' ''g_ben'' 1000 90000]\<rparr>"

lemma hotel_simps [simp]:
  "guests hotel = [\<lparr>gu_guest_id = lit ''g_ada'', gu_name = lit ''Ada'', gu_email = lit ''a@x''\<rparr>,
                   \<lparr>gu_guest_id = lit ''g_ben'', gu_name = lit ''Ben'', gu_email = lit ''b@x''\<rparr>]"
  "rooms hotel = [hotel_room 101, hotel_room 102]"
  "stays hotel = [hotel_stay ''s_ada'' ''g_ada'' 1000 90000, hotel_stay ''s_ben'' ''g_ben'' 1000 90000]"
  "assignments hotel = []" "keys hotel = []" "revocations hotel = []" "assign_seq hotel = 0"
  by (simp_all add: hotel_def init_db_def)

lemma hotel_row_simps [simp]:
  "ro_room_id (hotel_room r) = r" "ro_property_id (hotel_room r) = lit ''HILTON-DEMO-001''"
  "ro_room_type (hotel_room r) = lit ''king''"
  "st_stay_id (hotel_stay s g i out) = lit s" "st_guest_id (hotel_stay s g i out) = lit g"
  "st_property_id (hotel_stay s g i out) = lit ''HILTON-DEMO-001''"
  "st_room_type (hotel_stay s g i out) = lit ''king''" "st_room_id (hotel_stay s g i out) = None"
  "st_check_in (hotel_stay s g i out) = i" "st_check_out (hotel_stay s g i out) = out"
  "st_status (hotel_stay s g i out) = lit ''reserved''"
  by (simp_all add: hotel_stay_def hotel_room_def)

lemma hotel_db_ok [simp]: "db_ok hotel"
  by (simp add: db_ok_defs fits_def)

lemma hotel_booking_ok [simp]: "booking_ok hotel"
  by (simp add: booking_ok_def no_double_book_def)

text \<open>The hotel is what these statements make of the empty store.\<close>

definition hotel_script :: "(db, unit) exec list" where
  "hotel_script =
     [add_guest (lit ''g_ada'') (lit ''Ada'') (lit ''a@x''),
      add_guest (lit ''g_ben'') (lit ''Ben'') (lit ''b@x''),
      add_room 101 (lit ''HILTON-DEMO-001'') (lit ''n'') (lit ''king''),
      add_room 102 (lit ''HILTON-DEMO-001'') (lit ''n'') (lit ''king''),
      add_stay (lit ''s_ada'') (lit ''g_ada'') (lit ''HILTON-DEMO-001'') (lit ''king'') 1000 90000,
      add_stay (lit ''s_ben'') (lit ''g_ben'') (lit ''HILTON-DEMO-001'') (lit ''king'') 1000 90000]"

lemma hotel_script_run: "fold (\<lambda>m d. snd (m d)) hotel_script init_db = hotel"
  by (simp add: hotel_script_def add_guest_def add_room_def add_stay_def insert_if_def fits_def
      init_db_def hotel_def hotel_room_def hotel_stay_def)

lemma script_interleave:
  "(\<And>m d. m \<in> set ms \<Longrightarrow> statement d (snd (m d))) \<Longrightarrow>
     interleave\<^sup>*\<^sup>* (d, cs) (fold (\<lambda>m d. snd (m d)) ms d, cs)"
proof (induction ms arbitrary: d)
  case (Cons m ms)
  have "interleave (d, cs) (snd (m d), cs)" using Cons.prems by (intro il_other) simp
  moreover have "interleave\<^sup>*\<^sup>* (snd (m d), cs) (fold (\<lambda>m d. snd (m d)) ms (snd (m d)), cs)"
    using Cons by simp
  ultimately show ?case by (simp add: converse_rtranclp_into_rtranclp)
qed simp

lemma hotel_reachable: "interleave\<^sup>*\<^sup>* (init_db, cs) (hotel, cs)"
proof -
  have "statement d (snd (m d))" if "m \<in> set hotel_script" for m d
    using that unfolding hotel_script_def
    by (auto intro: stmt_guest [OF prod.collapse [symmetric]] stmt_room [OF prod.collapse [symmetric]]
        stmt_stay [OF prod.collapse [symmetric]])
  then have "interleave\<^sup>*\<^sup>* (init_db, cs) (fold (\<lambda>m d. snd (m d)) hotel_script init_db, cs)"
    by (rule script_interleave)
  then show ?thesis by (simp add: hotel_script_run)
qed

end
