(* ===== verification/Reservation_Properties.thy ===== *)
theory Reservation_Properties
  imports Sample_Hotel
begin

text \<open>
  The guarantees of \<open>staykey/reservation.py\<close>: no double booking in any interleaving,
  one winner of a race for a room, what a call books, and what a failed call leaves.
\<close>

text \<open>
  C6: No double booking. Starting from the empty store, whatever interleaving of room
  assignments, room changes (each two steps, with any other statement of the program
  between them) and other committed writes has run, no two active assignments of a
  room overlap.
\<close>

theorem never_double_booked:
  assumes "interleave\<^sup>*\<^sup>* (init_db, []) (d, cs)"
  shows "no_double_book d"
proof -
  have "race_inv (init_db, [])"
    by (simp add: race_inv_def booking_ok_def db_ok_init no_double_book_def calls_known_def)
      (simp add: init_db_def)
  from interleavings_safe [OF assms this] show ?thesis by (simp add: race_inv_def booking_ok_def)
qed

text \<open>
  One winner. Several callers, each for a stay of its own with the same window and
  no room yet, ask for the same free room of their property. Whatever the order of
  their steps, once all have finished exactly one has the room and every other one was
  refused with \<open>RoomUnavailableError\<close>.
\<close>

theorem one_caller_wins:
  assumes "db_ok d" "distinct ids" "ids \<noteq> []" "i < out"
    and "list_ex (\<lambda>ro. ro_room_id ro = r \<and> ro_property_id ro = p) (rooms d)"
    and "room_free d r i out"
    and "list_all (\<lambda>sid. list_ex (\<lambda>s. st_stay_id s = sid \<and> st_check_in s = i \<and>
           st_check_out s = out \<and> st_property_id s = p \<and> st_room_id s = None) (stays d)) ids"
    and "run_schedule ns (d, map (\<lambda>sid. Assign sid (Some r)) ids) = (d', cs)"
    and "list_all (\<lambda>c. case c of Done _ \<Rightarrow> True | _ \<Rightarrow> False) cs"
  shows "\<exists>w < length cs. cs ! w = Done (Inr r) \<and>
    (\<forall>k < length cs. k \<noteq> w \<longrightarrow> cs ! k = Done (Inl RoomUnavailableError))"
proof -
  have "race_state r p i out ids (d, map (\<lambda>sid. Assign sid (Some r)) ids)"
    using assms(1,2,4-7)
    by (auto simp: race_state_def wants_def list_all_iff list_ex_iff)
  then have st: "race_state r p i out ids (d', cs)" using schedule_race_state assms(8) by metis
  have finished: "\<exists>x. cs ! k = Done x" if "k < length cs" for k
    using assms(9) that by (cases "cs ! k") (force simp: list_all_length)+
  then have idle: "\<not> wants r p i out d' (ids ! k) (cs ! k)" if "k < length cs" for k
    using finished [OF that] by (auto simp: wants_def)
  have len: "length cs = length ids" using st by (simp add: race_state_def)
  then have "\<not> room_free d' r i out"
    using st idle [of 0] assms(3) by (auto simp: race_state_def)
  then show ?thesis using st idle len by (auto simp: race_state_def lost_def)
qed

text \<open>Ada and Ben race for room 101; the schedule lets both read before either writes.\<close>

definition two_callers :: "call list" where
  "two_callers = [Assign (lit ''s_ada'') (Some 101), Assign (lit ''s_ben'') (Some 101)]"

lemma race_run:
  "run_schedule [0, 1, 1, 0] (hotel, two_callers) =
     (booked (hotel_stay ''s_ben'' ''g_ben'' 1000 90000) 101 hotel,
      [Done (Inl RoomUnavailableError), Done (Inr 101)])"
proof -
  let ?ada = "hotel_stay ''s_ada'' ''g_ada'' 1000 90000"
  let ?ben = "hotel_stay ''s_ben'' ''g_ben'' 1000 90000"
  let ?d = "booked ?ben 101 hotel"
  have known: "stay_known hotel ?ada" "stay_known hotel ?ben" by (simp_all add: stay_known_read)
  have read: "get_stay (lit ''s_ada'') hotel = (Inr (Some ?ada), hotel)"
    "get_stay (lit ''s_ben'') hotel = (Inr (Some ?ben), hotel)"
    by (simp_all add: get_stay_def)
  have ben: "assign_txn ?ben (Some 101) hotel = (Inr 101, ?d)"
    by (simp add: assign_txn_exec known room_choice_def fits_def room_free_def)
  have ok: "db_ok ?d" by (rule db_ok_booked) (simp_all add: known)
  have k: "stay_known ?d ?ada" by (rule stay_known_grows [OF known(1) grows_booked(2)])
  have "\<not> room_free ?d 101 1000 90000" by (rule booked_taken) simp_all
  then have ada: "assign_txn ?ada (Some 101) ?d = (Inl RoomUnavailableError, ?d)"
    by (simp add: assign_txn_exec [OF ok k] room_choice_def fits_def)
  show ?thesis
    by (simp add: run_schedule_def tick_def two_callers_def call_step_def read ben ada)
qed

text \<open>An interleaved run of the two callers from the empty store, and the race they run.\<close>

lemma two_callers_map: "two_callers = map (\<lambda>sid. Assign sid (Some 101)) [lit ''s_ada'', lit ''s_ben'']"
  by (simp add: two_callers_def)

theorem one_caller_wins_witness:
  "\<exists>w < 2. [Done (Inl RoomUnavailableError), Done (Inr 101)] ! w = Done (Inr 101)"
proof -
  have "\<exists>w < length [Done (Inl RoomUnavailableError), Done (Inr 101)].
      [Done (Inl RoomUnavailableError), Done (Inr 101)] ! w = Done (Inr 101) \<and>
      (\<forall>k < length [Done (Inl RoomUnavailableError), Done (Inr 101)]. k \<noteq> w \<longrightarrow>
        [Done (Inl RoomUnavailableError), Done (Inr 101)] ! k = Done (Inl RoomUnavailableError))"
    by (rule one_caller_wins [OF hotel_db_ok _ _ _ _ _ _ race_run [unfolded two_callers_map],
          of 1000 90000 "lit ''HILTON-DEMO-001''"]) (simp_all add: room_free_def)
  then show ?thesis by auto
qed

theorem never_double_booked_witness:
  "no_double_book (booked (hotel_stay ''s_ben'' ''g_ben'' 1000 90000) 101 hotel)"
proof -
  let ?calls = "[Assign (lit ''s_ada'') (Some 101)]"
  have "interleave\<^sup>*\<^sup>* (hotel, []) (hotel, ?calls)"
    using il_assign [of hotel "[]"] by (intro r_into_rtranclp) simp
  moreover have "interleave\<^sup>*\<^sup>* (hotel, ?calls) (hotel, two_callers)"
    using il_assign [of hotel ?calls] by (intro r_into_rtranclp) (simp add: two_callers_def)
  moreover note run_schedule_interleave [of "(hotel, two_callers)" "[0, 1, 1, 0]", unfolded race_run]
  ultimately have "interleave\<^sup>*\<^sup>* (init_db, [])
      (booked (hotel_stay ''s_ben'' ''g_ben'' 1000 90000) 101 hotel,
       [Done (Inl RoomUnavailableError), Done (Inr 101)])"
    using hotel_reachable [of "[]"] by (meson rtranclp_trans)
  then show ?thesis by (rule never_double_booked)
qed

text \<open>
  C18: What \<open>assign_room\<close> books. For a stay without a room it returns an eligible room
  that is free for the whole window, the smallest one when the caller asks for none in
  particular, and books exactly that; it refuses exactly when no eligible room is free,
  and then nothing has changed.
\<close>

theorem assign_room_books:
  assumes "db_ok d" "s \<in> set (stays d)" "st_room_id s = None"
    and "\<forall>w. wanted = Some w \<longrightarrow> fits w"
  shows "case assign_room (st_stay_id s) wanted d of
      (Inr r, d') \<Rightarrow>
        eligible d s wanted r \<and> room_free d r (st_check_in s) (st_check_out s) \<and>
        (\<forall>r'. eligible d s wanted r' \<and> room_free d r' (st_check_in s) (st_check_out s) \<longrightarrow> r \<le> r') \<and>
        d' = booked s r d
    | (Inl e, d') \<Rightarrow>
        e = RoomUnavailableError \<and> d' = d \<and>
        (\<forall>r. eligible d s wanted r \<longrightarrow> \<not> room_free d r (st_check_in s) (st_check_out s))"
proof (cases wanted)
  case None
  let ?free = "\<lambda>r. room_free d r (st_check_in s) (st_check_out s)"
  have "sorted (rooms_of d s)" by (simp add: rooms_of_def)
  note least = find_least [OF this, of ?free]
  show ?thesis
  proof (cases "List.find ?free (rooms_of d s)")
    case none: None
    then have "assign_room (st_stay_id s) None d = (Inl RoomUnavailableError, d)"
      by (simp add: assign_room_row [OF assms(1,2)] assms(3) room_choice_None)
    then show ?thesis using none by (simp add: None eligible_None find_None_iff)
  next
    case (Some r)
    then have "assign_room (st_stay_id s) None d = (Inr r, booked s r d)"
      by (simp add: assign_room_row [OF assms(1,2)] assms(3) room_choice_None)
    then show ?thesis using least [OF Some] by (simp add: None eligible_None)
  qed
next
  case (Some w)
  have "eligible d s (Some w) r \<Longrightarrow> r = w" for r by (auto simp: eligible_def list_ex_iff)
  then show ?thesis
    using assms(4) by (auto simp: assign_room_row [OF assms(1,2)] assms(3) Some room_choice_Some)
qed

text \<open>Ada's assignment in the empty hotel is the smaller of its two rooms.\<close>

theorem assign_room_books_witness:
  "\<exists>d'. assign_room (lit ''s_ada'') None hotel = (Inr 101, d') \<and>
     room_free hotel 101 1000 90000"
proof -
  let ?s = "hotel_stay ''s_ada'' ''g_ada'' 1000 90000"
  have run: "assign_room (st_stay_id ?s) None hotel = (Inr 101, booked ?s 101 hotel)"
    by (simp add: assign_room_row room_choice_None rooms_of_def room_free_def del: hotel_row_simps(4))
  show ?thesis
    using assign_room_books [of hotel ?s None] run by simp
qed

text \<open>
  A repeated request is harmless: assigning a room to a stay that has just got one
  returns the same room and books nothing.
\<close>

theorem assign_room_again:
  assumes "db_ok d" "assign_room sid wanted d = (Inr r, d')"
  shows "assign_room sid wanted' d' = (Inr r, d')"
proof -
  obtain res d1 where g: "get_stay sid d = (res, d1)" by force
  then show ?thesis
  proof (cases rule: get_stay_cases)
    case (found s)
    note row = assign_room_row [OF assms(1) found(3), of wanted, unfolded found(4)]
    show ?thesis
    proof (cases "st_room_id s")
      case None
      then have d': "d' = booked s r d" and choice: "room_choice d s wanted (rooms_of d s) = Inr r"
        using assms(2) row by (auto split: sum.splits)
      let ?s = "s\<lparr>st_room_id := Some r\<rparr>"
      have ok: "db_ok d'"
        unfolding d' using chosen_in_rooms(2) [OF assms(1) choice rooms_of_fits [OF assms(1)]]
        by (rule db_ok_booked [OF assms(1) stay_known_read [OF assms(1) found(3)]])
      have "?s \<in> set (stays d')" unfolding d' by (rule booked_stay [OF found(3)])
      from assign_room_row [OF ok this, of wanted'] found(4) show ?thesis by simp
    next
      case (Some r0)
      then have "d' = d" "r = r0" using assms(2) row by simp_all
      then show ?thesis
        using assign_room_row [OF assms(1) found(3), of wanted'] Some found(4) by simp
    qed
  qed (use assms(2) g in \<open>auto simp: assign_room_def\<close>)
qed

theorem assign_room_again_witness:
  "\<exists>d'. assign_room (lit ''s_ada'') (Some 102) d' = (Inr 101, d')"
proof -
  let ?s = "hotel_stay ''s_ada'' ''g_ada'' 1000 90000"
  have "assign_room (st_stay_id ?s) None hotel = (Inr 101, booked ?s 101 hotel)"
    by (simp add: assign_room_row room_choice_None rooms_of_def room_free_def del: hotel_row_simps(4))
  from assign_room_again [OF hotel_db_ok this] show ?thesis by auto
qed

text \<open>
  C19: A room change is all or nothing. If it returns a room, that room was free once the
  stay's own booking is set aside, it is another room unless the caller named it, the
  stay's one active assignment is now there, its row says so, and no other stay's
  assignment has changed; if it raises, the store is as it was.
\<close>

theorem change_room_moves:
  assumes "db_ok d" "s \<in> set (stays d)"
  shows "case change_room (st_stay_id s) wanted d of
      (Inr r, d') \<Rightarrow>
        eligible d s wanted r \<and> (wanted = None \<longrightarrow> st_room_id s \<noteq> Some r) \<and>
        room_free (retire (st_stay_id s) d) r (st_check_in s) (st_check_out s) \<and>
        {a \<in> active_rows d'. as_stay_id a = st_stay_id s} =
          {\<lparr>as_id = assign_seq d + 1, as_room_id = r, as_stay_id = st_stay_id s,
            as_check_in = st_check_in s, as_check_out = st_check_out s, as_active = True\<rparr>} \<and>
        {a \<in> active_rows d'. as_stay_id a \<noteq> st_stay_id s} =
          {a \<in> active_rows d. as_stay_id a \<noteq> st_stay_id s} \<and>
        s\<lparr>st_room_id := Some r\<rparr> \<in> set (stays d')
    | (Inl e, d') \<Rightarrow> d' = d"
proof -
  let ?d = "retire (st_stay_id s) d"
  note run = change_room_row [OF assms, of wanted]
  show ?thesis
  proof (cases "room_choice ?d s wanted (other_rooms d s)")
    case (Inl e)
    then show ?thesis using run by simp
  next
    case (Inr r)
    have picked: "eligible d s wanted r \<and> (wanted = None \<longrightarrow> st_room_id s \<noteq> Some r) \<and>
        room_free ?d r (st_check_in s) (st_check_out s)"
    proof (cases wanted)
      case None
      then show ?thesis using Inr
        by (auto simp: room_choice_None eligible_None find_Some_iff other_rooms_def
            split: option.splits dest!: nth_mem)
    next
      case (Some w)
      then show ?thesis using Inr
        by (auto simp: room_choice_Some eligible_def split: if_splits)
    qed
    have rows: "active_rows (booked s r ?d) = insert
        \<lparr>as_id = assign_seq d + 1, as_room_id = r, as_stay_id = st_stay_id s,
         as_check_in = st_check_in s, as_check_out = st_check_out s, as_active = True\<rparr>
        {a \<in> active_rows d. as_stay_id a \<noteq> st_stay_id s}"
      unfolding ledger.release_drops [symmetric]
      by (auto simp: active_rows_def booked_def with_room_def put_assignment_def retire_def)
    show ?thesis using run Inr picked booked_stay [of s ?d r] assms(2) by (auto simp: rows)
  qed
qed

text \<open>Ada is moved to room 102.\<close>

theorem change_room_moves_witness:
  "room_free (retire (lit ''s_ada'') hotel) 102 1000 90000"
proof -
  let ?s = "hotel_stay ''s_ada'' ''g_ada'' 1000 90000"
  have "room_free (retire (lit ''s_ada'') hotel) 102 1000 90000"
    by (simp add: room_free_def retire_def update_where_def)
  then have "change_room (lit ''s_ada'') (Some 102) hotel =
      (Inr 102, booked ?s 102 (retire (lit ''s_ada'') hotel))"
    using change_room_row [of hotel ?s "Some 102"]
    by (simp add: room_choice_Some eligible_def fits_def)
  with change_room_moves [of hotel ?s "Some 102"] show ?thesis by simp
qed

text \<open>What a second booking of a stay with a row read before the first one finds.\<close>

lemma second_choice:
  assumes "db_ok d" "s \<in> set (stays d)" "st_check_in s < st_check_out s"
    and "eligible d s w r'" "room_free d r' (st_check_in s) (st_check_out s)" "r' \<noteq> r"
  obtains r2 where "room_choice (booked s r d) s w (rooms_of (booked s r d) s) = Inr r2" "r2 \<noteq> r"
proof -
  let ?d = "booked s r d" and ?i = "st_check_in s" and ?o = "st_check_out s"
  have "rooms ?d = rooms d" by simp
  then have same: "rooms_of ?d s = rooms_of d s" "eligible ?d s v q = eligible d s v q" for v q
    unfolding rooms_of_def eligible_def by presburger+
  have taken: "\<not> room_free ?d r ?i ?o" using booked_taken [OF assms(1,3)] by simp
  have free: "room_free ?d r' ?i ?o"
    using assms(5,6) by (simp add: room_free_def booked_def with_room_def put_assignment_def)
  show ?thesis
  proof (cases w)
    case None
    have "r' \<in> set (rooms_of d s)" using assms(4) by (simp add: None eligible_None)
    then obtain r2 where r2: "List.find (\<lambda>q. room_free ?d q ?i ?o) (rooms_of d s) = Some r2"
      using free by (cases "List.find (\<lambda>q. room_free ?d q ?i ?o) (rooms_of d s)") (auto simp: find_None_iff)
    then have "room_free ?d r2 ?i ?o" by (auto simp: find_Some_iff)
    then have "r2 \<noteq> r" using taken by auto
    then show ?thesis using that [of r2] r2 by (simp add: None room_choice_None same)
  next
    case (Some q)
    have "q = r'" using assms(4) by (auto simp: Some eligible_def list_ex_iff)
    moreover have "fits r'"
      using assms(1,4) by (auto simp: eligible_def list_ex_iff db_ok_defs)
    ultimately have "room_choice ?d s w (rooms_of ?d s) = Inr r'"
      using assms(4) free by (simp add: Some room_choice_Some same)
    then show ?thesis using that assms(6) by blast
  qed
qed

text \<open>
  C20: Two racing requests for one stay are not harmless. Whatever stay has no room yet and
  whatever rooms the two requests ask for: if both read the stay before either books, and a
  room of the second request's choice is free besides the one that goes to the first, both
  succeed with different rooms, and the stay, which asked for one, ends with an active
  assignment of each.
\<close>

theorem racing_requests_book_twice:
  assumes "db_ok d" "s \<in> set (stays d)" "st_room_id s = None" "st_check_in s < st_check_out s"
    and "assign_room (st_stay_id s) w d = (Inr r, d1)"
    and "eligible d s w' r'" "room_free d r' (st_check_in s) (st_check_out s)" "r' \<noteq> r"
    and "ns \<in> {[0, 1, 0, 1], [1, 0, 0, 1]}"
  shows "\<exists>r2 d'. run_schedule ns (d, [Assign (st_stay_id s) w, Assign (st_stay_id s) w']) =
      (d', [Done (Inr r), Done (Inr r2)]) \<and> r2 \<noteq> r \<and>
    {a \<in> active_rows d'. as_stay_id a = st_stay_id s} =
      {a \<in> active_rows d. as_stay_id a = st_stay_id s} \<union>
      {\<lparr>as_id = assign_seq d + 1, as_room_id = r, as_stay_id = st_stay_id s,
         as_check_in = st_check_in s, as_check_out = st_check_out s, as_active = True\<rparr>,
       \<lparr>as_id = assign_seq d + 2, as_room_id = r2, as_stay_id = st_stay_id s,
         as_check_in = st_check_in s, as_check_out = st_check_out s, as_active = True\<rparr>}"
proof -
  let ?d = "booked s r d"
  have known: "stay_known d s" by (rule stay_known_read [OF assms(1,2)])
  have read: "get_stay (st_stay_id s) d = (Inr (Some s), d)" by (rule get_stay_row [OF assms(1,2)])
  have choice: "room_choice d s w (rooms_of d s) = Inr r"
    using assms(5) assign_room_row [OF assms(1,2), of w] assms(3) by (auto split: sum.splits)
  have first: "assign_txn s w d = (Inr r, ?d)" by (simp add: assign_txn_exec [OF assms(1) known] choice)
  have "r \<in> ro_room_id ` set (rooms d)"
    by (rule chosen_in_rooms(2) [OF assms(1) choice rooms_of_fits [OF assms(1)]])
  then have ok: "db_ok ?d" "stay_known ?d s"
    using db_ok_booked [OF assms(1) known] stay_known_grows [OF known grows_booked(2)] by auto
  obtain r2 where r2: "room_choice ?d s w' (rooms_of ?d s) = Inr r2" "r2 \<noteq> r"
    by (rule second_choice [OF assms(1,2,4,6-8)])
  then have second: "assign_txn s w' ?d = (Inr r2, booked s r2 ?d)"
    by (simp add: assign_txn_exec [OF ok])
  have "run_schedule ns (d, [Assign (st_stay_id s) w, Assign (st_stay_id s) w']) =
      (booked s r2 ?d, [Done (Inr r), Done (Inr r2)])"
    using assms(9) by (auto simp: run_schedule_def tick_def call_step_def read first second assms(3))
  moreover have "{a \<in> active_rows (booked s r2 ?d). as_stay_id a = st_stay_id s} =
      {a \<in> active_rows d. as_stay_id a = st_stay_id s} \<union>
      {\<lparr>as_id = assign_seq d + 1, as_room_id = r, as_stay_id = st_stay_id s,
         as_check_in = st_check_in s, as_check_out = st_check_out s, as_active = True\<rparr>,
       \<lparr>as_id = assign_seq d + 2, as_room_id = r2, as_stay_id = st_stay_id s,
         as_check_in = st_check_in s, as_check_out = st_check_out s, as_active = True\<rparr>}"
    by (auto simp: active_rows_def booked_def with_room_def put_assignment_def)
  ultimately show ?thesis using r2(2) by blast
qed

text \<open>Ada's request, sent twice: she gets both rooms of the hotel.\<close>

theorem racing_requests_book_twice_witness:
  "\<exists>r2 d'. run_schedule [0, 1, 0, 1] (hotel, [Assign (lit ''s_ada'') None, Assign (lit ''s_ada'') None]) =
      (d', [Done (Inr 101), Done (Inr r2)]) \<and> r2 \<noteq> 101"
proof -
  let ?s = "hotel_stay ''s_ada'' ''g_ada'' 1000 90000"
  have run: "assign_room (st_stay_id ?s) None hotel = (Inr 101, booked ?s 101 hotel)"
    by (simp add: assign_room_row room_choice_None rooms_of_def room_free_def del: hotel_row_simps(4))
  have "eligible hotel ?s None 102" "room_free hotel 102 (st_check_in ?s) (st_check_out ?s)"
    by (simp_all add: eligible_def room_free_def)
  from racing_requests_book_twice [OF hotel_db_ok _ _ _ run this, of "[0, 1, 0, 1]"] show ?thesis by auto
qed

end
