(* ===== verification/Keys.thy ===== *)
theory Keys
  imports Db Text_Codec
begin

text \<open>
  \<open>staykey/keys.py\<close>: the property key pair and the issuance of a key for a stay's
  assigned room, bounded by the stay and a rolling lifetime.
\<close>

section \<open>The property key\<close>

text \<open>The PEM file: its content and its permission bits.\<close>

type_synonym pem_file = "(bytes \<times> int) option"

text \<open>
  \<open>load_pem\<close> and \<open>pem_of\<close> are the package's PEM reader and writer. \<open>env\<close> is the
  environment variable, \<open>generated\<close> the key a call would generate. An unset or empty
  variable falls through to the file; a new file has the mode of the process's umask
  only until \<open>chmod\<close> sets 0o600.
\<close>

definition load_or_create_property_key ::
  "(bytes \<Rightarrow> exn + 'sk) \<Rightarrow> ('sk \<Rightarrow> bytes) \<Rightarrow> pystr option \<Rightarrow> 'sk \<Rightarrow> (pem_file, 'sk) exec" where
  "load_or_create_property_key load_pem pem_of env generated file =
     (case env of
        Some (c # cs) \<Rightarrow>
          (case utf8_encode (c # cs) of
             Inl e \<Rightarrow> (Inl e, file)
           | Inr pem \<Rightarrow> (load_pem pem, file))
      | _ \<Rightarrow>
          (case file of
             Some (content, mode) \<Rightarrow> (load_pem content, file)
           | None \<Rightarrow> (Inr generated, Some (pem_of generated, 384))))"

definition property_public_raw :: "('sk, 'pk) platform \<Rightarrow> 'sk \<Rightarrow> bytes" where
  "property_public_raw P sk = public_bytes P (public_key P sk)"

definition property_public_b64 :: "('sk, 'pk) platform \<Rightarrow> 'sk \<Rightarrow> pystr" where
  "property_public_b64 P sk = rstrip PAD (b64encode (property_public_raw P sk))"

section \<open>Issuance for a stay\<close>

definition effective_window :: "time \<Rightarrow> time \<Rightarrow> time \<Rightarrow> time \<times> time" where
  "effective_window check_in check_out issued_at =
     (check_in, min check_out (issued_at + KEY_TTL_SECONDS))"

text \<open>The arguments of \<open>issue_credential\<close> for a stay in a room.\<close>

definition stay_args :: "'sk fresh \<Rightarrow> stay_row \<Rightarrow> int \<Rightarrow> time \<Rightarrow> 'sk issue_args" where
  "stay_args f stay room now =
     (case effective_window (st_check_in stay) (st_check_out stay) now of
        (valid_from, valid_until) \<Rightarrow>
          \<lparr>ia_guest_id = st_guest_id stay, ia_stay_id = st_stay_id stay,
           ia_property_id = st_property_id stay, ia_room_ids = [room],
           ia_valid_from = valid_from, ia_valid_until = valid_until, ia_issued_at = now,
           ia_device_sk = None, ia_key_id = Some (fresh_uuid f), ia_nonce = None\<rparr>)"

definition issued_row :: "IssuedKey \<Rightarrow> stay_row \<Rightarrow> int \<Rightarrow> time \<Rightarrow> key_row" where
  "issued_row issued stay room now =
     (case effective_window (st_check_in stay) (st_check_out stay) now of
        (valid_from, valid_until) \<Rightarrow>
          \<lparr>ke_key_id = ik_key_id issued, ke_stay_id = st_stay_id stay, ke_room_id = room,
           ke_issued_at = now, ke_valid_from = valid_from, ke_valid_until = valid_until,
           ke_token = ik_token issued, ke_active = True\<rparr>)"

definition issue_for_stay ::
  "('sk, 'pk) platform \<Rightarrow> 'sk fresh \<Rightarrow> 'sk \<Rightarrow> pystr \<Rightarrow> time \<Rightarrow> (db, IssuedKey) exec" where
  "issue_for_stay P f property_sk stay_id now =
     bindE (get_stay stay_id)
       (\<lambda>stay. case stay of
          None \<Rightarrow> raise NotFoundError
        | Some s \<Rightarrow>
            (case st_room_id s of
               None \<Rightarrow> raise ValidationError
             | Some room \<Rightarrow>
                 (case effective_window (st_check_in s) (st_check_out s) now of
                    (valid_from, valid_until) \<Rightarrow>
                      if valid_until \<le> valid_from then raise ValidationError
                      else
                        (case issue_credential P f property_sk (stay_args f s room now) of
                           Inl e \<Rightarrow> raise e
                         | Inr issued \<Rightarrow>
                             thenE (add_key (issued_row issued s room now)) (ret issued)))))"

end
