(* ===== verification/Lifecycle.thy ===== *)
theory Lifecycle
  imports Keys Reservation
begin

text \<open>
  \<open>staykey/lifecycle.py\<close>: refresh, checkout and room change. Every statement outside
  the transaction of \<open>change_room\<close> commits by itself, so what ran before a raise
  stays.
\<close>

definition RESERVED :: pystr where "RESERVED = lit ''reserved''"
definition CHECKED_IN :: pystr where "CHECKED_IN = lit ''checked_in''"
definition CHECKED_OUT :: pystr where "CHECKED_OUT = lit ''checked_out''"

definition refresh_key ::
  "('sk, 'pk) platform \<Rightarrow> 'sk fresh \<Rightarrow> 'sk \<Rightarrow> pystr \<Rightarrow> time \<Rightarrow> (db, IssuedKey) exec" where
  "refresh_key P f property_sk stay_id now =
     bindE (get_stay stay_id)
       (\<lambda>stay. case stay of
          None \<Rightarrow> raise NotFoundError
        | Some s \<Rightarrow>
            if st_status s = CHECKED_OUT then raise StayKeyError
            else thenE (deactivate_keys stay_id) (issue_for_stay P f property_sk stay_id now))"

text \<open>Deactivate the active keys of a stay and revoke each of them.\<close>

definition revoke_all :: "pystr \<Rightarrow> time \<Rightarrow> pystr \<Rightarrow> (db, pystr list) exec" where
  "revoke_all stay_id now why =
     bindE (deactivate_keys_for_stay stay_id)
       (\<lambda>revoked. thenE (for_each (\<lambda>k. revoke_key k now why) revoked) (ret revoked))"

definition checkout :: "pystr \<Rightarrow> time \<Rightarrow> (db, pystr list) exec" where
  "checkout stay_id now =
     bindE (get_stay stay_id)
       (\<lambda>stay. case stay of
          None \<Rightarrow> raise NotFoundError
        | Some s \<Rightarrow>
            bindE (revoke_all stay_id now (lit ''checkout''))
              (\<lambda>revoked.
                 thenE (retire_assignments stay_id)
                   (thenE (set_stay_status stay_id CHECKED_OUT) (ret revoked))))"

definition lifecycle_change_room ::
  "('sk, 'pk) platform \<Rightarrow> 'sk fresh \<Rightarrow> 'sk \<Rightarrow> pystr \<Rightarrow> time \<Rightarrow> int option \<Rightarrow>
     (db, int \<times> pystr list \<times> IssuedKey) exec" where
  "lifecycle_change_room P f property_sk stay_id now new_room_id =
     bindE (get_stay stay_id)
       (\<lambda>stay. case stay of
          None \<Rightarrow> raise NotFoundError
        | Some s \<Rightarrow>
            if st_status s = CHECKED_OUT then raise StayKeyError
            else
              bindE (revoke_all stay_id now (lit ''room_change''))
                (\<lambda>revoked.
                   bindE (change_room stay_id new_room_id)
                     (\<lambda>new_room.
                        bindE (issue_for_stay P f property_sk stay_id now)
                          (\<lambda>issued. ret (new_room, revoked, issued)))))"

end
