(* ===== verification/Lifecycle_Facts.thy ===== *)
theory Lifecycle_Facts
  imports Lifecycle Reservation_Facts Credential_Facts
begin

text \<open>
  Issuance, checkout and room change in closed form on a store that satisfies its
  invariant, and the invariant after each.
\<close>

section \<open>Every operation keeps the booking guarantee\<close>

lemma keeps_issue_for_stay [keeps_intros]: "keeps booking_ok (issue_for_stay P f sk i now)"
  unfolding issue_for_stay_def by (intro keeps_intros)

lemma keeps_refresh_key [keeps_intros]: "keeps booking_ok (refresh_key P f sk i now)"
  unfolding refresh_key_def by (intro keeps_intros)

lemma keeps_revoke_all [keeps_intros]: "keeps booking_ok (revoke_all i now why)"
  unfolding revoke_all_def by (intro keeps_intros)

lemma keeps_checkout [keeps_intros]: "keeps booking_ok (checkout i now)"
  unfolding checkout_def by (intro keeps_intros)

lemma keeps_lifecycle_change_room [keeps_intros]:
  "keeps booking_ok (lifecycle_change_room P f sk i now r)"
  unfolding lifecycle_change_room_def by (intro keeps_intros)

section \<open>Revocation\<close>

definition active_keys :: "pystr \<Rightarrow> db \<Rightarrow> pystr list" where
  "active_keys i d = map ke_key_id (filter (\<lambda>k. ke_stay_id k = i \<and> ke_active k) (keys d))"

definition revoked_ids :: "db \<Rightarrow> pystr set" where
  "revoked_ids d = re_key_id ` set (revocations d)"

text \<open>The keys of a stay set inactive, and ids added to the revocation list.\<close>

definition lapse_keys :: "pystr \<Rightarrow> db \<Rightarrow> db" where
  "lapse_keys i d = d\<lparr>keys := update_where (\<lambda>k. ke_stay_id k = i \<and> ke_active k)
     (\<lambda>k. k\<lparr>ke_active := False\<rparr>) (keys d)\<rparr>"

definition put_revocation :: "time \<Rightarrow> pystr \<Rightarrow> pystr \<Rightarrow> db \<Rightarrow> db" where
  "put_revocation now why k d =
     (if k \<in> re_key_id ` set (revocations d) then d
      else d\<lparr>revocations := revocations d @
        [\<lparr>re_key_id = k, re_revoked_at = now, re_reason = why\<rparr>]\<rparr>)"

lemma put_revocations_simps [simp]:
  "keys (fold (put_revocation now why) ks d) = keys d"
  "stays (fold (put_revocation now why) ks d) = stays d"
  "rooms (fold (put_revocation now why) ks d) = rooms d"
  "guests (fold (put_revocation now why) ks d) = guests d"
  "assignments (fold (put_revocation now why) ks d) = assignments d"
  "revoked_ids (fold (put_revocation now why) ks d) = revoked_ids d \<union> set ks"
  by (induction ks arbitrary: d) (auto simp: put_revocation_def revoked_ids_def)

lemma revoke_key_exec:
  "clean k \<Longrightarrow> clean why \<Longrightarrow> fits now \<Longrightarrow> revoke_key k now why d = (Inr (), put_revocation now why k d)"
  by (simp add: revoke_key_def put_revocation_def)

lemma revoke_each_exec:
  assumes "clean why" "fits now"
  shows "\<forall>k \<in> set ks. clean k \<Longrightarrow>
    for_each (\<lambda>k. revoke_key k now why) ks d = (Inr (), fold (put_revocation now why) ks d)"
  by (induction ks arbitrary: d) (simp_all add: revoke_key_exec assms)

lemma deactivate_exec:
  "clean i \<Longrightarrow> deactivate_keys_for_stay i d = (Inr (active_keys i d), lapse_keys i d)"
  by (simp add: deactivate_keys_for_stay_def deactivate_keys_def active_keys_def lapse_keys_def)

lemma active_keys_clean: "db_ok d \<Longrightarrow> \<forall>k \<in> set (active_keys i d). clean k"
  by (auto simp: active_keys_def db_ok_defs)

definition revoked_db :: "pystr \<Rightarrow> time \<Rightarrow> pystr \<Rightarrow> db \<Rightarrow> db" where
  "revoked_db i now why d = fold (put_revocation now why) (active_keys i d) (lapse_keys i d)"

lemma revoke_all_exec:
  assumes "db_ok d" "clean i" "clean why" "fits now \<or> active_keys i d = []"
  shows "revoke_all i now why d = (Inr (active_keys i d), revoked_db i now why d)"
proof (cases "active_keys i d = []")
  case True
  then show ?thesis using assms(2) by (simp add: revoke_all_def deactivate_exec revoked_db_def)
next
  case False
  then show ?thesis
    using assms revoke_each_exec [OF assms(3) _ active_keys_clean [OF assms(1), of i]]
    by (simp add: revoke_all_def deactivate_exec revoked_db_def)
qed

text \<open>A time that cannot be stored: the keys lapse and the first revocation raises.\<close>

lemma revoke_all_overflow:
  assumes "db_ok d" "clean i" "\<not> fits now" "active_keys i d \<noteq> []"
  shows "revoke_all i now why d = (Inl OverflowError, lapse_keys i d)"
proof -
  obtain k ks where ks: "active_keys i d = k # ks" using assms(4) by (cases "active_keys i d") auto
  then have "clean k" using active_keys_clean [OF assms(1), of i] by simp
  then have "revoke_key k now why (lapse_keys i d) = (Inl OverflowError, lapse_keys i d)"
    using assms(3) by (simp add: revoke_key_def execute_def bind_error_def fits_def clean_def)
  then show ?thesis using assms(2) by (simp add: revoke_all_def deactivate_exec ks)
qed

lemma revoked_db_simps [simp]:
  "stays (revoked_db i now why d) = stays d" "rooms (revoked_db i now why d) = rooms d"
  "guests (revoked_db i now why d) = guests d"
  "assignments (revoked_db i now why d) = assignments d"
  "keys (revoked_db i now why d) = keys (lapse_keys i d)"
  "revoked_ids (revoked_db i now why d) = revoked_ids d \<union> set (active_keys i d)"
  by (auto simp: revoked_db_def) (auto simp: lapse_keys_def revoked_ids_def)

lemma keeps_revoke_all_db [keeps_intros]: "keeps db_ok (revoke_all i now why)"
  unfolding revoke_all_def by (intro keeps_intros)

section \<open>Checkout\<close>

definition with_status :: "pystr \<Rightarrow> pystr \<Rightarrow> db \<Rightarrow> db" where
  "with_status i status d = d\<lparr>stays :=
     update_where (\<lambda>s. st_stay_id s = i) (\<lambda>s. s\<lparr>st_status := status\<rparr>) (stays d)\<rparr>"

lemma set_status_exec: "clean i \<Longrightarrow> clean x \<Longrightarrow> set_stay_status i x d = (Inr (), with_status i x d)"
  by (simp add: set_stay_status_def with_status_def)

lemma clean_lits [simp]: "clean (lit s)"
  using text_ok_lit [of s] by (simp add: clean_def text_ok_def)

lemma status_clean [simp]: "clean CHECKED_IN" "clean CHECKED_OUT"
  by (simp_all add: CHECKED_IN_def CHECKED_OUT_def)

definition checked_out_db :: "pystr \<Rightarrow> time \<Rightarrow> db \<Rightarrow> db" where
  "checked_out_db i now d =
     with_status i CHECKED_OUT (retire i (revoked_db i now (lit ''checkout'') d))"

lemma checkout_exec:
  assumes "db_ok d" "s \<in> set (stays d)" "fits now \<or> active_keys (st_stay_id s) d = []"
  shows "checkout (st_stay_id s) now d =
    (Inr (active_keys (st_stay_id s) d), checked_out_db (st_stay_id s) now d)"
proof -
  have "clean (st_stay_id s)" using stay_known_read [OF assms(1,2)] by (simp add: stay_known_def)
  then show ?thesis
    using get_stay_row [OF assms(1,2)] revoke_all_exec [OF assms(1) _ clean_lits assms(3), of "''checkout''"]
    by (simp add: checkout_def checked_out_db_def retire_assignments_def set_status_exec)
qed

lemma revoked_ids_simps [simp]:
  "revoked_ids (retire i d) = revoked_ids d" "revoked_ids (with_status i x d) = revoked_ids d"
  by (simp_all add: revoked_ids_def with_status_def)

lemma active_rows_cong: "assignments d = assignments d' \<Longrightarrow> active_rows d = active_rows d'"
  by (simp add: active_rows_def)

lemma checked_out_simps [simp]:
  "keys (checked_out_db i now d) = keys (lapse_keys i d)"
  "revoked_ids (checked_out_db i now d) = revoked_ids d \<union> set (active_keys i d)"
  "active_rows (checked_out_db i now d) = {a \<in> active_rows d. as_stay_id a \<noteq> i}"
proof -
  show "keys (checked_out_db i now d) = keys (lapse_keys i d)"
    by (simp add: checked_out_db_def with_status_def)
  show "revoked_ids (checked_out_db i now d) = revoked_ids d \<union> set (active_keys i d)"
    by (simp add: checked_out_db_def)
  have "active_rows (checked_out_db i now d) =
      active_rows (retire i (revoked_db i now (lit ''checkout'') d))"
    by (rule active_rows_cong) (simp add: checked_out_db_def with_status_def)
  then show "active_rows (checked_out_db i now d) = {a \<in> active_rows d. as_stay_id a \<noteq> i}"
    by (simp only: ledger.release_drops) (simp add: active_rows_def)
qed

lemma keeps_retire_assignments_db [keeps_intros]: "keeps db_ok (retire_assignments i)"
  unfolding retire_assignments_def by (intro keeps_intros keeps_modify db_ok_retire)

lemma keeps_checkout_db [keeps_intros]: "keeps db_ok (checkout i now)"
  unfolding checkout_def by (intro keeps_intros)

section \<open>Issuance for a stay\<close>

lemma issue_for_stay_row:
  assumes "db_ok d" "s \<in> set (stays d)" "st_room_id s = Some room"
  shows "issue_for_stay P f sk (st_stay_id s) now d =
    (if min (st_check_out s) (now + KEY_TTL_SECONDS) \<le> st_check_in s then (Inl ValidationError, d)
     else case issue_credential P f sk (stay_args f s room now) of
            Inl e \<Rightarrow> (Inl e, d)
          | Inr ik \<Rightarrow> thenE (add_key (issued_row ik s room now)) (ret ik) d)"
  using get_stay_row [OF assms(1,2)] assms(3)
  by (simp add: issue_for_stay_def effective_window_def split: sum.split)

lemma add_key_run:
  assumes "add_key row d = (Inr u, d')"
  shows "d' = d\<lparr>keys := keys d @ [row\<lparr>ke_active := True\<rparr>]\<rparr>"
    "clean (ke_key_id row)" "fits (ke_issued_at row)" "ke_key_id row \<notin> ke_key_id ` set (keys d)"
proof -
  let ?ps = "[SqlText (ke_key_id row), SqlText (ke_stay_id row), SqlInt (ke_room_id row),
      SqlInt (ke_issued_at row), SqlInt (ke_valid_from row), SqlInt (ke_valid_until row),
      SqlText (ke_token row)]"
  have ok: "first_error ?ps = None"
    using assms by (auto simp: add_key_def execute_def split: option.splits)
  then have "\<forall>v \<in> set ?ps. bind_error v = None" by (simp only: first_error_None)
  then show "clean (ke_key_id row)" "fits (ke_issued_at row)" by simp_all
  show "d' = d\<lparr>keys := keys d @ [row\<lparr>ke_active := True\<rparr>]\<rparr>" "ke_key_id row \<notin> ke_key_id ` set (keys d)"
    using assms ok by (auto simp: add_key_def execute_def insert_if_def split: if_splits)
qed

text \<open>What a successful issuance has written and returned.\<close>

lemma issue_for_stay_run:
  assumes "db_ok d" "issue_for_stay P f sk i now d = (Inr ik, d')"
  obtains s room where "s \<in> set (stays d)" "st_stay_id s = i" "st_room_id s = Some room"
    "st_check_in s < min (st_check_out s) (now + KEY_TTL_SECONDS)"
    "issue_credential P f sk (stay_args f s room now) = Inr ik"
    "d' = d\<lparr>keys := keys d @ [issued_row ik s room now]\<rparr>" "clean (ik_key_id ik)" "fits now"
    "ik_key_id ik \<notin> ke_key_id ` set (keys d)"
proof -
  obtain res d1 where g: "get_stay i d = (res, d1)" by force
  then show ?thesis
  proof (cases rule: get_stay_cases)
    case (found s)
    then obtain room where room: "st_room_id s = Some room"
      using assms(2) g by (cases "st_room_id s") (auto simp: issue_for_stay_def)
    note run = issue_for_stay_row [OF assms(1) found(3) room, of P f sk now, unfolded found(4)]
    obtain ik' where ik: "issue_credential P f sk (stay_args f s room now) = Inr ik'"
      "st_check_in s < min (st_check_out s) (now + KEY_TTL_SECONDS)"
      using assms(2) run not_le by (metis (no_types, lifting) Inl_Inr_False Pair_inject
          old.sum.exhaust old.sum.simps(5))
    then have late: "\<not> min (st_check_out s) (now + KEY_TTL_SECONDS) \<le> st_check_in s"
      by (simp only: not_le not_False_eq_True)
    then have "thenE (add_key (issued_row ik' s room now)) (ret ik') d = (Inr ik, d')"
      using assms(2) unfolding run if_not_P [OF late] ik(1) by simp
    then have add: "add_key (issued_row ik' s room now) d = (Inr (), d')" "ik' = ik"
      by (auto elim!: thenE_cases)
    have row: "ke_key_id (issued_row ik s room now) = ik_key_id ik"
      "ke_issued_at (issued_row ik s room now) = now"
      "(issued_row ik s room now)\<lparr>ke_active := True\<rparr> = issued_row ik s room now"
      by (simp_all add: issued_row_def effective_window_def)
    show ?thesis using that [OF found(3,4) room ik(2)] ik(1) add_key_run [OF add(1)[unfolded add(2)]] add(2)
      by (simp add: row)
  qed (use assms(2) g in \<open>auto simp: issue_for_stay_def\<close>)
qed

text \<open>The arguments a stay's row gives are fit to print, so issuance succeeds.\<close>

lemma fits_short: "fits i \<Longrightarrow> short_int i"
  by (rule short_int_64) (auto simp: fits_def)

lemma or_else_same [simp]: "or_else (Some x) x = x" "or_else None x = x"
  by (simp_all add: or_else_def)

lemma stay_args_simps [simp]:
  "ia_property_id (stay_args f s room now) = st_property_id s"
  "ia_stay_id (stay_args f s room now) = st_stay_id s"
  "ia_guest_id (stay_args f s room now) = st_guest_id s"
  "ia_room_ids (stay_args f s room now) = [room]"
  "ia_valid_from (stay_args f s room now) = st_check_in s"
  "ia_valid_until (stay_args f s room now) = min (st_check_out s) (now + KEY_TTL_SECONDS)"
  "ia_issued_at (stay_args f s room now) = now"
  "ia_key_id (stay_args f s room now) = Some (fresh_uuid f)"
  "ia_nonce (stay_args f s room now) = None"
  "device_key f (stay_args f s room now) = fresh_sk f"
  by (simp_all add: stay_args_def effective_window_def device_key_def)

lemma stay_room_fits:
  assumes "db_ok d" "s \<in> set (stays d)" "st_room_id s = Some room"
  shows "fits room" "room \<in> ro_room_id ` set (rooms d)"
  using assms by (fastforce simp: db_ok_defs)+

lemma stay_args_ok:
  assumes "db_ok d" "s \<in> set (stays d)" "st_room_id s = Some room" "fits now" "fresh_ok f"
    and "st_check_in s < min (st_check_out s) (now + KEY_TTL_SECONDS)"
  shows "args_ok f (stay_args f s room now)"
proof -
  have row: "clean (st_stay_id s)" "clean (st_guest_id s)" "clean (st_property_id s)"
    "fits (st_check_in s)" "fits (st_check_out s)"
    using assms(1,2) by (simp_all add: db_ok_defs)
  then have "fits (min (st_check_out s) (now + KEY_TTL_SECONDS))"
    using assms(6) by (auto simp: fits_def)
  then show ?thesis
    using row assms(4,5) stay_room_fits [OF assms(1-3)]
    by (simp add: args_ok_def fresh_ok_def fits_short del: min_less_iff_conj)
      (simp add: clean_def text_ok_def)
qed

lemma stay_key_id:
  assumes "issue_credential P f sk (stay_args f s room now) = Inr ik"
  shows "ik_key_id ik = fresh_uuid f"
  using issued_fields(1) [OF assms] by simp

lemma token_clean:
  assumes "args_ok f a" "issue_credential P f sk a = Inr ik"
  shows "clean (ik_token ik)"
proof -
  have "text_ok (b64u_encode b @ lit ''.'' @ b64u_encode s)" for b s
    using text_ok_b64u text_ok_lit by (simp add: text_ok_def)
  then show ?thesis
    using assms(2) by (auto simp: issue_credential_def Let_def clean_def text_ok_def
        split: if_splits sum.splits)
qed

lemma issue_for_stay_ok:
  assumes "db_ok d" "s \<in> set (stays d)" "st_room_id s = Some room" "fits now" "fresh_ok f"
    and "st_check_in s < min (st_check_out s) (now + KEY_TTL_SECONDS)"
    and "fresh_uuid f \<notin> ke_key_id ` set (keys d)"
  obtains ik where "issue_credential P f sk (stay_args f s room now) = Inr ik"
    "issue_for_stay P f sk (st_stay_id s) now d =
       (Inr ik, d\<lparr>keys := keys d @ [issued_row ik s room now]\<rparr>)"
proof -
  note ok = stay_args_ok [OF assms(1-6)]
  have "ia_valid_from (stay_args f s room now) < ia_valid_until (stay_args f s room now)"
    using assms(6) by simp
  then obtain ik where ik: "issue_credential P f sk (stay_args f s room now) = Inr ik"
    using issue_credential_Inr [OF ok, of P sk] by metis
  have row: "clean (st_stay_id s)" "fits (st_check_in s)" "fits (st_check_out s)"
    "fits (min (st_check_out s) (now + KEY_TTL_SECONDS))" "st_stay_id s \<in> st_stay_id ` set (stays d)"
    using assms(1,2,6) by (auto simp: db_ok_defs fits_def)
  have "clean (fresh_uuid f)" using assms(5) by (simp add: fresh_ok_def clean_def text_ok_def)
  then have "add_key (issued_row ik s room now) d =
      (Inr (), d\<lparr>keys := keys d @ [issued_row ik s room now]\<rparr>)"
    using row assms(4,7) stay_key_id [OF ik] token_clean [OF ok ik] stay_room_fits(1) [OF assms(1-3)]
    by (simp add: add_key_def insert_if_def issued_row_def effective_window_def)
  moreover have "\<not> min (st_check_out s) (now + KEY_TTL_SECONDS) \<le> st_check_in s"
    using assms(6) by (simp only: not_le)
  ultimately have "issue_for_stay P f sk (st_stay_id s) now d =
       (Inr ik, d\<lparr>keys := keys d @ [issued_row ik s room now]\<rparr>)"
    unfolding issue_for_stay_row [OF assms(1-3)] by (simp add: ik)
  then show ?thesis using that ik by blast
qed

section \<open>Refresh\<close>

lemma lapse_keys_simps [simp]:
  "stays (lapse_keys i d) = stays d" "revocations (lapse_keys i d) = revocations d"
  "rooms (lapse_keys i d) = rooms d" "assignments (lapse_keys i d) = assignments d"
  "ke_key_id ` set (keys (lapse_keys i d)) = ke_key_id ` set (keys d)"
  "active_keys i (lapse_keys i d) = []"
  by (simp_all add: lapse_keys_def active_keys_def filter_empty_conv)

lemma deactivate_keys_exec: "clean i \<Longrightarrow> deactivate_keys i d = (Inr (), lapse_keys i d)"
  by (simp add: deactivate_keys_def lapse_keys_def)

lemma refresh_key_run:
  assumes "db_ok d" "refresh_key P f sk i now d = (Inr ik, d')"
  obtains s where "s \<in> set (stays d)" "st_stay_id s = i" "st_status s \<noteq> CHECKED_OUT"
    "issue_for_stay P f sk i now (lapse_keys i d) = (Inr ik, d')" "db_ok (lapse_keys i d)"
proof -
  obtain res d1 where g: "get_stay i d = (res, d1)" by force
  then show ?thesis
  proof (cases rule: get_stay_cases)
    case (found s)
    then have c: "clean i" using assms(1) by (auto simp: db_ok_defs)
    have "db_ok (lapse_keys i d)"
      using keepsD [OF keeps_deactivate_keys assms(1) deactivate_keys_exec [OF c]] .
    moreover have "get_stay i d = (Inr (Some s), d)" using g found(1,2) by simp
    then have "refresh_key P f sk i now d = (if st_status s = CHECKED_OUT then (Inl StayKeyError, d)
        else issue_for_stay P f sk i now (lapse_keys i d))"
      using c by (simp add: refresh_key_def deactivate_keys_exec)
    then have "st_status s \<noteq> CHECKED_OUT" "issue_for_stay P f sk i now (lapse_keys i d) = (Inr ik, d')"
      using assms(2) by (simp_all split: if_splits)
    ultimately show ?thesis using that [OF found(3,4)] by blast
  qed (use assms(2) g in \<open>auto simp: refresh_key_def\<close>)
qed

lemma keeps_issue_for_stay_db [keeps_intros]: "keeps db_ok (issue_for_stay P f sk i now)"
  unfolding issue_for_stay_def by (intro keeps_intros)

text \<open>After a refresh the new key is the one active key of the stay.\<close>

lemma refresh_active:
  assumes "db_ok d" "refresh_key P f sk i now d = (Inr ik, d')"
  shows "active_keys i d' = [ik_key_id ik]" "ik_key_id ik \<notin> ke_key_id ` set (keys d)"
    "revocations d' = revocations d" "stays d' = stays d" "db_ok d'"
    "i \<in> st_stay_id ` set (stays d)"
proof -
  obtain s where s: "s \<in> set (stays d)" "st_stay_id s = i"
    "issue_for_stay P f sk i now (lapse_keys i d) = (Inr ik, d')" "db_ok (lapse_keys i d)"
    using refresh_key_run [OF assms] by metis
  obtain s' room where d': "d' = (lapse_keys i d)\<lparr>keys := keys (lapse_keys i d) @ [issued_row ik s' room now]\<rparr>"
    "ik_key_id ik \<notin> ke_key_id ` set (keys (lapse_keys i d))" "st_stay_id s' = i"
    using issue_for_stay_run [OF s(4,3)] by metis
  have row: "ke_stay_id (issued_row ik s' room now) = i" "ke_active (issued_row ik s' room now)"
    "ke_key_id (issued_row ik s' room now) = ik_key_id ik"
    using d'(3) by (simp_all add: issued_row_def effective_window_def)
  have "active_keys i d' = active_keys i (lapse_keys i d) @ [ik_key_id ik]"
    using row by (simp add: d'(1) active_keys_def)
  then show "active_keys i d' = [ik_key_id ik]" by simp
  show "ik_key_id ik \<notin> ke_key_id ` set (keys d)" using d'(2) by simp
  show "revocations d' = revocations d" "stays d' = stays d" by (simp_all add: d'(1))
  show "db_ok d'" by (rule keepsD [OF keeps_issue_for_stay_db s(4,3)])
  show "i \<in> st_stay_id ` set (stays d)" using s(1,2) by blast
qed

lemma refresh_key_ok:
  assumes "db_ok d" "s \<in> set (stays d)" "st_room_id s = Some room" "fits now" "fresh_ok f"
    and "st_check_in s < min (st_check_out s) (now + KEY_TTL_SECONDS)"
    and "fresh_uuid f \<notin> ke_key_id ` set (keys d)" "st_status s \<noteq> CHECKED_OUT"
  obtains ik d' where "refresh_key P f sk (st_stay_id s) now d = (Inr ik, d')"
    "ik_key_id ik = fresh_uuid f"
proof -
  let ?d = "lapse_keys (st_stay_id s) d"
  have c: "clean (st_stay_id s)" using assms(1,2) by (simp add: db_ok_defs)
  have ok: "db_ok ?d" using keepsD [OF keeps_deactivate_keys assms(1) deactivate_keys_exec [OF c]] .
  obtain ik where ik: "issue_credential P f sk (stay_args f s room now) = Inr ik"
    "issue_for_stay P f sk (st_stay_id s) now ?d = (Inr ik, ?d\<lparr>keys := keys ?d @ [issued_row ik s room now]\<rparr>)"
    using assms ok by (elim issue_for_stay_ok [OF ok, of s room now f P sk, rotated -1]) simp_all
  then have "refresh_key P f sk (st_stay_id s) now d =
      (Inr ik, ?d\<lparr>keys := keys ?d @ [issued_row ik s room now]\<rparr>)"
    using get_stay_row [OF assms(1,2)] assms(8)
    by (simp add: refresh_key_def deactivate_keys_exec [OF c])
  then show ?thesis by (rule that) (rule stay_key_id [OF ik(1)])
qed

end
