(* ===== verification/Lifecycle_Properties.thy ===== *)
theory Lifecycle_Properties
  imports Lifecycle_Facts Lock_Properties Sample_Hotel
begin

text \<open>
  The life of a key: the window a stay's key opens its door in, what checkout and room
  change revoke, what a synced lock then denies, and what a refresh leaves behind.
\<close>

section \<open>Keys of a stay at a door\<close>

text \<open>
  The sample stay in room 101, and its first key, issued at time 1000.
\<close>

definition ada :: stay_row where
  "ada = hotel_stay ''s_ada'' ''g_ada'' 1000 90000"

definition ada_in :: stay_row where
  "ada_in = ada\<lparr>st_room_id := Some 101\<rparr>"

definition ada_hotel :: db where
  "ada_hotel = booked ada 101 hotel"

lemma ada_simps [simp]:
  "st_stay_id ada = lit ''s_ada''" "st_property_id ada = lit ''HILTON-DEMO-001''"
  "st_check_in ada = 1000" "st_check_out ada = 90000" "st_room_id ada = None"
  "st_stay_id ada_in = lit ''s_ada''" "st_property_id ada_in = lit ''HILTON-DEMO-001''"
  "st_check_in ada_in = 1000" "st_check_out ada_in = 90000" "st_room_id ada_in = Some 101"
  "st_status ada_in = lit ''reserved''"
  by (simp_all add: ada_def ada_in_def)

lemma ada_hotel_ok [simp]: "db_ok ada_hotel" "ada_in \<in> set (stays ada_hotel)"
  "keys ada_hotel = []" "revocations ada_hotel = []"
proof -
  have "ada \<in> set (stays hotel)" by (simp add: ada_def)
  then show "ada_in \<in> set (stays ada_hotel)"
    unfolding ada_in_def ada_hotel_def by (rule booked_stay)
  show "db_ok ada_hotel" unfolding ada_hotel_def
    by (rule db_ok_booked) (simp_all add: stay_known_read ada_def)
  show "keys ada_hotel = []" "revocations ada_hotel = []"
    by (simp_all add: ada_hotel_def booked_def with_room_def put_assignment_def)
qed

lemma sample_fresh_ok [simp]: "fresh_ok sample_fresh"
  by (simp add: fresh_ok_def)

definition other_fresh :: "bytes fresh" where
  "other_fresh = sample_fresh\<lparr>fresh_uuid := lit ''aaaa''\<rparr>"

lemma other_fresh_ok [simp]: "fresh_ok other_fresh" "fresh_uuid other_fresh = lit ''aaaa''"
  by (simp_all add: fresh_ok_def other_fresh_def)

lemma ada_issued:
  assumes "fresh_ok f"
  obtains ik where
    "issue_for_stay sample_platform f [1, 2] (lit ''s_ada'') 1000 ada_hotel =
       (Inr ik, ada_hotel\<lparr>keys := [issued_row ik ada_in 101 1000]\<rparr>)"
    "ik_key_id ik = fresh_uuid f"
    "issue_credential sample_platform f [1, 2] (stay_args f ada_in 101 1000) = Inr ik"
proof -
  have "fits 1000" by (simp add: fits_def)
  from issue_for_stay_ok [OF ada_hotel_ok(1,2) _ this assms, of 101 sample_platform "[1, 2]"]
  obtain ik where "issue_credential sample_platform f [1, 2] (stay_args f ada_in 101 1000) = Inr ik"
    "issue_for_stay sample_platform f [1, 2] (lit ''s_ada'') 1000 ada_hotel =
       (Inr ik, ada_hotel\<lparr>keys := [issued_row ik ada_in 101 1000]\<rparr>)"
    by (auto simp: KEY_TTL_SECONDS_def)
  with stay_key_id [OF this(1)] that show ?thesis by simp
qed

text \<open>Her checkout at time 1500.\<close>

lemma ada_checkout:
  assumes "fresh_ok f"
  obtains ik d1 d2 where
    "issue_for_stay sample_platform f [1, 2] (lit ''s_ada'') 1000 ada_hotel = (Inr ik, d1)"
    "ik_key_id ik = fresh_uuid f" "db_ok d1" "ada_in \<in> set (stays d1)"
    "checkout (lit ''s_ada'') 1500 d1 = (Inr [fresh_uuid f], d2)"
    "map re_key_id (revocations d2) = [fresh_uuid f]"
proof -
  obtain ik where ik: "issue_for_stay sample_platform f [1, 2] (lit ''s_ada'') 1000 ada_hotel =
       (Inr ik, ada_hotel\<lparr>keys := [issued_row ik ada_in 101 1000]\<rparr>)" "ik_key_id ik = fresh_uuid f"
    by (rule ada_issued [OF assms])
  let ?d = "ada_hotel\<lparr>keys := [issued_row ik ada_in 101 1000]\<rparr>"
  have ok: "db_ok ?d" by (rule keepsD [OF keeps_issue_for_stay_db ada_hotel_ok(1) ik(1)])
  have s: "ada_in \<in> set (stays ?d)" by simp
  have row: "ke_key_id (issued_row ik ada_in 101 1000) = fresh_uuid f"
    "ke_stay_id (issued_row ik ada_in 101 1000) = lit ''s_ada''"
    "ke_active (issued_row ik ada_in 101 1000)"
    using ik(2) by (simp_all add: issued_row_def effective_window_def)
  have "active_keys (lit ''s_ada'') ?d = [fresh_uuid f]" by (simp add: active_keys_def row)
  moreover have "map re_key_id (revocations (checked_out_db (lit ''s_ada'') 1500 ?d)) = [fresh_uuid f]"
    using calculation
    by (simp add: checked_out_db_def with_status_def revoked_db_def put_revocation_def)
  ultimately show ?thesis
    using that ik ok s checkout_exec [OF ok s, of 1500] by (simp add: fits_def)
qed

text \<open>The store once she has her key.\<close>

definition ada_keyed :: db where
  "ada_keyed = snd (issue_for_stay sample_platform sample_fresh [1, 2] (lit ''s_ada'') 1000 ada_hotel)"

lemma ada_keyed [simp]:
  "db_ok ada_keyed" "ada_in \<in> set (stays ada_keyed)"
  "active_keys (lit ''s_ada'') ada_keyed = [lit ''5f1e'']"
  "rooms ada_keyed = rooms hotel" "revocations ada_keyed = []"
  "assignments ada_keyed = [\<lparr>as_id = 1, as_room_id = 101, as_stay_id = lit ''s_ada'',
     as_check_in = 1000, as_check_out = 90000, as_active = True\<rparr>]"
  "hotel_stay ''s_ben'' ''g_ben'' 1000 90000 \<in> set (stays ada_keyed)"
  "map ke_stay_id (keys ada_keyed) = [lit ''s_ada'']"
proof -
  obtain ik where ik: "issue_for_stay sample_platform sample_fresh [1, 2] (lit ''s_ada'') 1000
      ada_hotel = (Inr ik, ada_hotel\<lparr>keys := [issued_row ik ada_in 101 1000]\<rparr>)"
    "ik_key_id ik = lit ''5f1e''" by (rule ada_issued [OF sample_fresh_ok]) simp
  have d: "ada_keyed = ada_hotel\<lparr>keys := [issued_row ik ada_in 101 1000]\<rparr>"
    by (simp add: ada_keyed_def ik(1))
  show "db_ok ada_keyed"
    unfolding d by (rule keepsD [OF keeps_issue_for_stay_db ada_hotel_ok(1) ik(1)])
  have "rooms ada_hotel = rooms hotel" by (simp add: ada_hotel_def)
  then show "ada_in \<in> set (stays ada_keyed)" "rooms ada_keyed = rooms hotel"
    "active_keys (lit ''s_ada'') ada_keyed = [lit ''5f1e'']" "revocations ada_keyed = []"
    using ik(2) by (simp_all add: d active_keys_def issued_row_def effective_window_def)
  show "assignments ada_keyed = [\<lparr>as_id = 1, as_room_id = 101, as_stay_id = lit ''s_ada'',
     as_check_in = 1000, as_check_out = 90000, as_active = True\<rparr>]"
    "hotel_stay ''s_ben'' ''g_ben'' 1000 90000 \<in> set (stays ada_keyed)"
    "map ke_stay_id (keys ada_keyed) = [lit ''s_ada'']"
    by (simp_all add: d ada_hotel_def booked_def with_room_def put_assignment_def set_update_where issued_row_def
        effective_window_def)
qed

lemma ada_keyed_ids: "ke_key_id ` set (keys ada_keyed) = {lit ''5f1e''}"
proof -
  obtain ik where ik: "issue_for_stay sample_platform sample_fresh [1, 2] (lit ''s_ada'') 1000
      ada_hotel = (Inr ik, ada_hotel\<lparr>keys := [issued_row ik ada_in 101 1000]\<rparr>)"
    "ik_key_id ik = lit ''5f1e''" by (rule ada_issued [OF sample_fresh_ok]) simp
  then show ?thesis by (simp add: ada_keyed_def issued_row_def effective_window_def)
qed

text \<open>The decision of a lock on the key of a stay.\<close>

lemma stay_key_decision:
  assumes "ed25519 P" "db_ok d" "fresh_ok f"
    and "issue_for_stay P f sk (st_stay_id s) now d = (Inr ik, d')" "s \<in> set (stays d)"
    and "lock_property_pub lk = public_key P sk"
    and "check (lock_challenges lk) c t = OK"
    and "device_sign P (ik_device_sk_b64 ik) c = Inr response"
  shows "(\<exists>k. fst (finish_unlock P (ik_token ik) c response t lk) = Inr (unlock k)) \<longleftrightarrow>
    st_property_id s = lock_property_id lk \<and> st_room_id s = Some (lock_room_id lk) \<and>
    st_check_in s \<le> t \<and> t \<le> st_check_out s \<and> t \<le> now + KEY_TTL_SECONDS \<and>
    ik_key_id ik \<notin> lock_revoked lk"
proof -
  obtain s' room where s': "s' \<in> set (stays d)" "st_stay_id s' = st_stay_id s"
    "st_room_id s' = Some room" "st_check_in s' < min (st_check_out s') (now + KEY_TTL_SECONDS)"
    "issue_credential P f sk (stay_args f s' room now) = Inr ik" "fits now"
    using issue_for_stay_run [OF assms(2,4)] by metis
  have same: "s' = s"
    using same_key [of st_stay_id "stays d" s' s] assms(2,5) s'(1,2) by (simp add: db_ok_defs)
  have ok: "args_ok f (stay_args f s room now)"
    using stay_args_ok [OF assms(2) s'(1,3,6) assms(3) s'(4)] by (simp only: same)
  have ik: "issue_credential P f sk (stay_args f s room now) = Inr ik" using s'(5) by (simp only: same)
  have sig: "verify P (lock_property_pub lk) (sign P sk m) m" for m
    using assms(1,6) by (simp add: ed25519_simps)
  have resp: "verify P (public_key P (device_key f (stay_args f s room now))) response c"
    using assms(1,8) device_sign_issued [OF assms(1) ik] by (auto simp: ed25519_simps)
  show ?thesis
  proof (cases "issued_decision (ik_key_id ik) (stay_args f s room now) (lock_property_id lk)
      (lock_room_id lk) t (lock_revoked lk)")
    case None
    from finish_unlock_issued [OF assms(1) ok ik assms(6) None assms(7) resp] None s'(3)
    show ?thesis by (auto simp: issued_decision_def same split: if_splits)
  next
    case (Some r)
    from evaluate_static_issued [OF ok ik sig, of "lock_property_id lk" "lock_room_id lk" t
        "lock_revoked lk"] Some s'(3)
    show ?thesis
      by (auto simp: finish_unlock_def Credential.denied_def issued_decision_def same
          split: if_splits)
  qed
qed

text \<open>
  C21: The key of a checked-in guest. A key issued for a stay opens exactly the door of
  the stay's room in its property, from check-in until check-out or 24 hours after
  issuance, whichever comes first, while it is not on the lock's revocation list,
  for the phone that signs a live challenge with the key's device key.
\<close>

theorem stay_key_opens_iff:
  assumes "ed25519 P" "db_ok d" "fresh_ok f"
    and "issue_for_stay P f sk (st_stay_id s) now d = (Inr ik, d')" "s \<in> set (stays d)"
    and "lock_property_pub lk = public_key P sk"
    and "check (lock_challenges lk) c t = OK"
    and "device_sign P (ik_device_sk_b64 ik) c = Inr response"
  shows "(\<exists>k. fst (finish_unlock P (ik_token ik) c response t lk) = Inr (unlock k)) \<longleftrightarrow>
    st_property_id s = lock_property_id lk \<and> st_room_id s = Some (lock_room_id lk) \<and>
    st_check_in s \<le> t \<and> t \<le> st_check_out s \<and> t \<le> now + KEY_TTL_SECONDS \<and>
    ik_key_id ik \<notin> lock_revoked lk"
  by (rule stay_key_decision [OF assms])

text \<open>Ada's key at the door of room 101, at time 1510.\<close>

theorem stay_key_opens_iff_witness:
  "\<exists>(ik :: IssuedKey) response k.
     fst (finish_unlock sample_platform (ik_token ik) [9] response 1510 sample_asked) = Inr (unlock k)"
proof -
  obtain ik where ik:
    "issue_for_stay sample_platform sample_fresh [1, 2] (lit ''s_ada'') 1000 ada_hotel =
       (Inr ik, ada_hotel\<lparr>keys := [issued_row ik ada_in 101 1000]\<rparr>)"
    "issue_credential sample_platform sample_fresh [1, 2] (stay_args sample_fresh ada_in 101 1000) = Inr ik"
    by (rule ada_issued [OF sample_fresh_ok])
  from device_sign_issued [OF sample_ed25519 ik(2)]
  have resp: "device_sign sample_platform (ik_device_sk_b64 ik) [9] = Inr (fresh_sk sample_fresh @ [9])"
    by simp
  have "(\<exists>k. fst (finish_unlock sample_platform (ik_token ik) [9] (fresh_sk sample_fresh @ [9]) 1510
      sample_asked) = Inr (unlock k)) \<longleftrightarrow> True"
    by (subst stay_key_opens_iff [where s = ada_in, OF sample_ed25519 ada_hotel_ok(1) sample_fresh_ok
          _ ada_hotel_ok(2) _ sample_asked_OK resp, of "[1, 2]" 1000])
      (use ik(1) in \<open>simp_all add: KEY_TTL_SECONDS_def\<close>)
  then show ?thesis by blast
qed

section \<open>Checkout\<close>

text \<open>
  C22: Checkout. It revokes exactly the keys active for the stay, and returns them;
  afterwards none of its keys is active, none of its assignments is, its status is
  checked out, and the bookings and keys of other stays are as they were.
\<close>

theorem checkout_revokes:
  assumes "db_ok d" "s \<in> set (stays d)" "fits now"
    and "checkout (st_stay_id s) now d = (r, d')"
  shows "r = Inr (map ke_key_id (filter (\<lambda>k. ke_stay_id k = st_stay_id s \<and> ke_active k) (keys d))) \<and>
    re_key_id ` set (revocations d') = re_key_id ` set (revocations d) \<union>
      ke_key_id ` {k \<in> set (keys d). ke_stay_id k = st_stay_id s \<and> ke_active k} \<and>
    {k \<in> set (keys d'). ke_stay_id k = st_stay_id s \<and> ke_active k} = {} \<and>
    {k \<in> set (keys d'). ke_stay_id k \<noteq> st_stay_id s} =
      {k \<in> set (keys d). ke_stay_id k \<noteq> st_stay_id s} \<and>
    active_rows d' = {a \<in> active_rows d. as_stay_id a \<noteq> st_stay_id s} \<and>
    s\<lparr>st_status := CHECKED_OUT\<rparr> \<in> set (stays d')"
proof -
  let ?i = "st_stay_id s"
  have run: "r = Inr (active_keys ?i d)" and d': "d' = checked_out_db ?i now d"
    using checkout_exec [OF assms(1,2)] assms(3,4) by auto
  have revoked: "re_key_id ` set (revocations d') = re_key_id ` set (revocations d) \<union>
      ke_key_id ` {k \<in> set (keys d). ke_stay_id k = ?i \<and> ke_active k}"
    using checked_out_simps(2) [of ?i now d] by (simp add: d' revoked_ids_def active_keys_def)
  have keys: "{k \<in> set (keys d'). ke_stay_id k = ?i \<and> ke_active k} = {}"
    "{k \<in> set (keys d'). ke_stay_id k \<noteq> ?i} = {k \<in> set (keys d). ke_stay_id k \<noteq> ?i}"
    by (auto simp: d' lapse_keys_def set_update_where image_iff split: if_splits)
  have "s\<lparr>st_status := CHECKED_OUT\<rparr> \<in> set (stays d')"
    using assms(2) by (force simp: d' checked_out_db_def with_status_def set_update_where)
  then show ?thesis using run revoked keys by (simp add: d' active_keys_def)
qed

theorem checkout_revokes_witness:
  "\<exists>d d'. db_ok d \<and> checkout (lit ''s_ada'') 1500 d = (Inr [lit ''5f1e''], d') \<and>
     ada_in\<lparr>st_status := CHECKED_OUT\<rparr> \<in> set (stays d')"
proof -
  obtain d1 d2 where d: "db_ok d1" "ada_in \<in> set (stays d1)"
    "checkout (st_stay_id ada_in) 1500 d1 = (Inr [lit ''5f1e''], d2)"
    using ada_checkout [OF sample_fresh_ok] by (metis ada_simps(6) sample_fresh_simps(1))
  have "fits 1500" by (simp add: fits_def)
  from checkout_revokes [OF d(1,2) this d(3)] d show ?thesis by auto
qed

text \<open>
  C23: Checkout locks out. Once a lock has synced the revocation list as it is after a
  checkout, no presentation of any token opens it with a key the checkout returned.
\<close>

theorem checkout_locks_out:
  assumes "db_ok d" "s \<in> set (stays d)" "fits now"
    and "checkout (st_stay_id s) now d = (Inr ks, d')"
    and "revocation_list d' = (Inr rs, d'')"
    and "finish_unlock P token c response t (sync_revocations rs lk) = (Inr dec, lk')"
    and "unlocked dec"
  shows "decision_key_id dec \<notin> Some ` set ks"
  using assms(6)
proof (cases rule: finish_unlock_cases)
  case (opened p)
  have "ks = active_keys (st_stay_id s) d" "d' = checked_out_db (st_stay_id s) now d"
    using checkout_exec [OF assms(1,2)] assms(3,4) by auto
  then have "set ks \<subseteq> re_key_id ` set (revocations d')"
    using checked_out_simps(2) [of "st_stay_id s" now d] by (auto simp: revoked_ids_def)
  also have "\<dots> = set rs" using assms(5) by (auto simp: revocation_list_def)
  finally have "set ks \<subseteq> lock_revoked (sync_revocations rs lk)" by (simp add: sync_revocations_def)
  then show ?thesis using opened by (auto simp: opens_def static_ok_def)
qed (use assms(7) in auto)

text \<open>A lock synced after the checkout of key \<open>aaaa\<close> opens for another key only.\<close>

theorem checkout_locks_out_witness:
  "\<exists>lk'. finish_unlock sample_platform (ik_token sample_issued) [9] [7, 7, 9] 1510
      (sync_revocations [lit ''aaaa''] sample_asked) = (Inr (unlock (lit ''5f1e'')), lk') \<and>
    decision_key_id (unlock (lit ''5f1e'')) \<notin> Some ` set [lit ''aaaa'']"
proof -
  obtain d1 d2 where d: "db_ok d1" "ada_in \<in> set (stays d1)"
    "checkout (st_stay_id ada_in) 1500 d1 = (Inr [lit ''aaaa''], d2)"
    "map re_key_id (revocations d2) = [lit ''aaaa'']"
    using ada_checkout [OF other_fresh_ok(1)] by (metis ada_simps(6) other_fresh_ok(2))
  have list: "revocation_list d2 = (Inr [lit ''aaaa''], d2)" by (simp add: revocation_list_def d(4))
  have "\<exists>lk'. finish_unlock sample_platform (ik_token sample_issued) [9] [7, 7, 9] 1510
      (sync_revocations [lit ''aaaa''] sample_asked) = (Inr (unlock (lit ''5f1e'')), lk')"
    using finish_unlock_issued [OF sample_ed25519 sample_args_ok sample_issued,
        of "sync_revocations [lit ''aaaa''] sample_asked" 1510 "[9]" "[7, 7, 9]"]
    by (simp add: issued_decision_def sync_revocations_def)
  then obtain lk' where opened: "finish_unlock sample_platform (ik_token sample_issued) [9] [7, 7, 9]
      1510 (sync_revocations [lit ''aaaa''] sample_asked) = (Inr (unlock (lit ''5f1e'')), lk')" by blast
  have "fits 1500" by (simp add: fits_def)
  from checkout_locks_out [OF d(1,2) this d(3) list opened unlocked_unlock] opened show ?thesis
    by blast
qed

text \<open>A refresh and a checkout leave the earlier key off the revocation list.\<close>

lemma refreshed_key_unrevoked:
  assumes "db_ok d" "k \<in> ke_key_id ` set (keys d)" "k \<notin> revoked_ids d"
    and "refresh_key P f sk i now d = (Inr ik, d1)"
    and "checkout i now' d1 = (Inr ks, d2)" "fits now'"
  shows "k \<notin> set ks \<and> k \<notin> revoked_ids d2"
proof -
  note active = refresh_active [OF assms(1,4)]
  obtain s where s: "s \<in> set (stays d1)" "st_stay_id s = i" using active(4,6) by auto
  from checkout_exec [OF active(5) s(1)] assms(5,6)
  have "ks = active_keys i d1" "d2 = checked_out_db i now' d1" by (auto simp: s(2))
  then have "ks = [ik_key_id ik]" "revoked_ids d2 = revoked_ids d \<union> {ik_key_id ik}"
    using active by (simp_all add: revoked_ids_def [symmetric]) (simp add: revoked_ids_def)
  moreover have "k \<noteq> ik_key_id ik" using active(2) assms(2) by blast
  ultimately show ?thesis using assms(3) by auto
qed

lemma refreshed_key_row:
  assumes "db_ok d" "issue_for_stay P f sk i now d = (Inr ik, d1)" "ik_key_id ik \<notin> revoked_ids d"
  shows "ik_key_id ik \<in> ke_key_id ` set (keys d1)" "ik_key_id ik \<notin> revoked_ids d1" "db_ok d1"
proof -
  obtain s room where d1: "d1 = d\<lparr>keys := keys d @ [issued_row ik s room now]\<rparr>"
    using issue_for_stay_run [OF assms(1,2)] by metis
  then show "ik_key_id ik \<in> ke_key_id ` set (keys d1)" "ik_key_id ik \<notin> revoked_ids d1"
    using assms(3) by (simp_all add: issued_row_def effective_window_def revoked_ids_def)
  show "db_ok d1" by (rule keepsD [OF keeps_issue_for_stay_db assms(1,2)])
qed

text \<open>
  C27: A refreshed-away key outlives checkout. Refresh sets the earlier keys of the stay
  inactive without revoking them, and checkout revokes only active keys. So a key issued
  before a refresh still opens the room after the guest has checked out and the lock has
  synced, until its own window ends.
\<close>

theorem refreshed_key_opens_after_checkout:
  assumes "ed25519 P" "db_ok d" "fresh_ok f" "s \<in> set (stays d)"
    and "issue_for_stay P f sk (st_stay_id s) now d = (Inr ik, d1)"
    and "ik_key_id ik \<notin> re_key_id ` set (revocations d)"
    and "refresh_key P f' sk (st_stay_id s) now1 d1 = (Inr ik', d2)"
    and "checkout (st_stay_id s) now2 d2 = (Inr ks, d3)" "fits now2"
    and "revocation_list d3 = (Inr rs, d4)"
    and "lock_property_pub lk = public_key P sk" "lock_property_id lk = st_property_id s"
    and "st_room_id s = Some (lock_room_id lk)" "check (lock_challenges lk) c t = OK"
    and "device_sign P (ik_device_sk_b64 ik) c = Inr response"
    and "st_check_in s \<le> t" "t \<le> st_check_out s" "t \<le> now + KEY_TTL_SECONDS"
  shows "\<exists>k. fst (finish_unlock P (ik_token ik) c response t (sync_revocations rs lk)) =
    Inr (unlock k)"
proof -
  note row = refreshed_key_row [OF assms(2,5), folded revoked_ids_def, OF assms(6) [folded revoked_ids_def]]
  have "ik_key_id ik \<notin> revoked_ids d3"
    using refreshed_key_unrevoked [OF row(3,1,2) assms(7-9)] by simp
  then have "ik_key_id ik \<notin> set rs"
    using assms(10) by (auto simp: revocation_list_def revoked_ids_def)
  then show ?thesis
    using stay_key_decision [OF assms(1-3,5,4), of "sync_revocations rs lk" c t response] assms(11-18)
    by (simp add: sync_revocations_def)
qed

text \<open>Ada's first key, refreshed at 1200, opens room 101 at 1510, after her checkout at 1500.\<close>

theorem refreshed_key_opens_after_checkout_witness:
  "\<exists>(ik :: IssuedKey) rs response k.
     fst (finish_unlock sample_platform (ik_token ik) [9] response 1510
            (sync_revocations rs sample_asked)) = Inr (unlock k)"
proof -
  obtain ik d1 where ik: "issue_for_stay sample_platform sample_fresh [1, 2] (lit ''s_ada'') 1000
      ada_hotel = (Inr ik, d1)" "ik_key_id ik = lit ''5f1e''"
    "issue_credential sample_platform sample_fresh [1, 2] (stay_args sample_fresh ada_in 101 1000) = Inr ik"
    "d1 = ada_hotel\<lparr>keys := [issued_row ik ada_in 101 1000]\<rparr>"
    using ada_issued [OF sample_fresh_ok] by (metis sample_fresh_simps(1))
  have ok: "db_ok d1" by (rule keepsD [OF keeps_issue_for_stay_db ada_hotel_ok(1) ik(1)])
  have s: "ada_in \<in> set (stays d1)" by (simp add: ik(4))
  have "ke_key_id ` set (keys d1) = {lit ''5f1e''}"
    using ik(2) by (simp add: ik(4) issued_row_def effective_window_def)
  then have new: "fresh_uuid other_fresh \<notin> ke_key_id ` set (keys d1)" by simp
  have times: "fits 1200" "st_check_in ada_in < min (st_check_out ada_in) (1200 + KEY_TTL_SECONDS)"
    "st_status ada_in \<noteq> CHECKED_OUT"
    by (simp_all add: fits_def KEY_TTL_SECONDS_def CHECKED_OUT_def)
  obtain ik' d2 where refresh:
    "refresh_key sample_platform other_fresh [1, 2] (st_stay_id ada_in) 1200 d1 = (Inr ik', d2)"
    by (rule refresh_key_ok [OF ok s ada_simps(10) times(1) other_fresh_ok(1) times(2) new times(3)])
  note active = refresh_active [OF ok refresh]
  have "ada_in \<in> set (stays d2)" using s active(4) by simp
  from checkout_exec [OF active(5) this, of 1500]
  obtain ks d3 where out: "checkout (st_stay_id ada_in) 1500 d2 = (Inr ks, d3)"
    by (auto simp: fits_def)
  have list: "revocation_list d3 = (Inr (map re_key_id (revocations d3)), d3)"
    by (simp add: revocation_list_def)
  have resp: "device_sign sample_platform (ik_device_sk_b64 ik) [9] = Inr (fresh_sk sample_fresh @ [9])"
    using device_sign_issued [OF sample_ed25519 ik(3)] by simp
  have issue: "issue_for_stay sample_platform sample_fresh [1, 2] (st_stay_id ada_in) 1000 ada_hotel =
      (Inr ik, d1)" using ik(1) by simp
  have "\<exists>k. fst (finish_unlock sample_platform (ik_token ik) [9] (fresh_sk sample_fresh @ [9]) 1510
      (sync_revocations (map re_key_id (revocations d3)) sample_asked)) = Inr (unlock k)"
    by (rule refreshed_key_opens_after_checkout [OF sample_ed25519 ada_hotel_ok(1) sample_fresh_ok
          ada_hotel_ok(2) issue _ refresh out _ list _ _ _ sample_asked_OK resp])
      (simp_all add: fits_def KEY_TTL_SECONDS_def)
  then show ?thesis by blast
qed

section \<open>Room change\<close>

text \<open>
  C28: A room change that finds no room still revokes. The keys of the stay are revoked,
  and stay so, before the new room is looked for: when none is free the call raises, the
  guest keeps the old room, and no key of theirs opens it any more.
\<close>

theorem failed_room_change_revokes:
  assumes "db_ok d" "s \<in> set (stays d)" "st_status s \<noteq> CHECKED_OUT" "fits now"
    and "change_room (st_stay_id s) wanted d = (Inl e, d)"
  shows "\<exists>d'. lifecycle_change_room P f sk (st_stay_id s) now wanted d = (Inl e, d') \<and>
    set (active_keys (st_stay_id s) d) \<subseteq> re_key_id ` set (revocations d') \<and>
    active_keys (st_stay_id s) d' = [] \<and>
    assignments d' = assignments d \<and> stays d' = stays d"
proof -
  let ?i = "st_stay_id s" and ?d = "revoked_db (st_stay_id s) now (lit ''room_change'') d"
  have c: "clean ?i" using assms(1,2) by (simp add: db_ok_defs)
  have run: "revoke_all ?i now (lit ''room_change'') d = (Inr (active_keys ?i d), ?d)"
    using assms(4) by (intro revoke_all_exec [OF assms(1) c clean_lits]) simp
  have ok: "db_ok ?d" by (rule keepsD [OF keeps_revoke_all_db assms(1) run])
  have "change_room ?i wanted ?d = (Inl e, ?d)"
    using assms(5) room_choice_cong [of "retire ?i ?d" "retire ?i d" s wanted] assms(2)
    by (auto simp: change_room_row [OF ok] change_room_row [OF assms(1,2)] other_rooms_def rooms_of_def
        retire_def split: sum.splits)
  then have "lifecycle_change_room P f sk ?i now wanted d = (Inl e, ?d)"
    using get_stay_row [OF assms(1,2)] assms(3) run by (simp add: lifecycle_change_room_def)
  moreover have "set (active_keys ?i d) \<subseteq> revoked_ids ?d" "active_keys ?i ?d = []"
    using lapse_keys_simps(6) [of ?i d] by (simp_all add: active_keys_def)
  ultimately show ?thesis by (simp add: revoked_ids_def)
qed

text \<open>Ada asks for a room 999 the hotel does not have.\<close>

theorem failed_room_change_revokes_witness:
  "\<exists>d'. lifecycle_change_room sample_platform other_fresh [1, 2] (lit ''s_ada'') 1500 (Some 999)
      ada_keyed = (Inl RoomUnavailableError, d') \<and> lit ''5f1e'' \<in> re_key_id ` set (revocations d')"
proof -
  have "change_room (lit ''s_ada'') (Some 999) ada_keyed = (Inl RoomUnavailableError, ada_keyed)"
    using change_room_row [OF ada_keyed(1,2), of "Some 999"]
    by (simp add: room_choice_Some eligible_def fits_def)
  then show ?thesis
    using failed_room_change_revokes [OF ada_keyed(1,2), of 1500 "Some 999" RoomUnavailableError
        sample_platform other_fresh "[1, 2]"]
    by (auto simp: fits_def CHECKED_OUT_def)
qed

section \<open>The property key\<close>

text \<open>
  The property key is stable. Where the environment sets no key, the first call
  stores the key it generates, readable by its owner only, and every later call returns
  that key and leaves the file alone.
\<close>

theorem property_key_persists:
  assumes "\<And>sk. load_pem (pem_of sk) = Inr sk" "env = None \<or> env = Some []"
  shows "load_or_create_property_key load_pem pem_of env sk None = (Inr sk, Some (pem_of sk, 384)) \<and>
    load_or_create_property_key load_pem pem_of env sk' (Some (pem_of sk, 384)) =
      (Inr sk, Some (pem_of sk, 384))"
  using assms by (auto simp: load_or_create_property_key_def)

theorem property_key_persists_witness:
  "load_or_create_property_key Inr (\<lambda>sk. sk) None [5] (Some ([4], 384)) = (Inr [4], Some ([4], 384))"
  using property_key_persists [of Inr "\<lambda>sk. sk" None "[4]" "[5]"] by simp

end
