(* ===== verification/Connected_Room.thy ===== *)
theory Connected_Room
  imports Lifecycle Antireplay
begin

text \<open>
  \<open>staykey/connectedroom.py\<close>: the online authorizer of room controls. It runs on its
  own challenge store and the database.
\<close>

record 'pk ConnectedRoomAuthorizer =
  cr_property_id :: pystr
  cr_property_pub :: 'pk
  cr_challenges :: ChallengeStore

definition new_authorizer ::
  "('sk, 'pk) platform \<Rightarrow> pystr \<Rightarrow> bytes \<Rightarrow> exn + 'pk ConnectedRoomAuthorizer" where
  "new_authorizer P property_id property_pub_raw =
     (case from_public_bytes P property_pub_raw of
        None \<Rightarrow> Inl ValueError
      | Some pub \<Rightarrow>
          Inr \<lparr>cr_property_id = property_id, cr_property_pub = pub,
               cr_challenges = new_store CHALLENGE_TTL_SECONDS CHALLENGE_NONCE_BYTES\<rparr>)"

definition begin_command ::
  "bytes \<Rightarrow> time \<Rightarrow> 'pk ConnectedRoomAuthorizer \<Rightarrow> 'pk ConnectedRoomAuthorizer" where
  "begin_command challenge now cr = cr\<lparr>cr_challenges := issue challenge now (cr_challenges cr)\<rparr>"

text \<open>A database call beside another state.\<close>

definition on_db :: "(db, 'a) exec \<Rightarrow> ('s \<times> db, 'a) exec" where
  "on_db m = (\<lambda>(s, d). case m d of (r, d') \<Rightarrow> (r, (s, d')))"

text \<open>
  Is the credential's stay the room's active, checked-in stay? \<open>payload["stay_id"]\<close>
  raises a \<open>KeyError\<close> when the payload has none, \<open>int(None)\<close> a \<open>TypeError\<close>.
\<close>

definition stay_is_active ::
  "('sk, 'pk) platform \<Rightarrow> payload \<Rightarrow> int \<Rightarrow> (db, bool) exec" where
  "stay_is_active P payload room_id =
     bindE (active_assignment_for_room room_id)
       (\<lambda>assignment. case map_of payload (lit ''stay_id'') of
          None \<Rightarrow> raise KeyError
        | Some stay_id \<Rightarrow>
            bindE (get_stay (py_str P stay_id))
              (\<lambda>stay. case assignment of
                 None \<Rightarrow> ret False
               | Some a \<Rightarrow>
                   if JStr (as_stay_id a) \<noteq> stay_id then ret False
                   else
                     (case stay of
                        None \<Rightarrow> ret False
                      | Some s \<Rightarrow>
                          if st_status s \<noteq> CHECKED_IN then ret False
                          else
                            (case st_room_id s of
                               None \<Rightarrow> raise TypeError
                             | Some r \<Rightarrow> ret (r = room_id)))))"

definition authorize ::
  "('sk, 'pk) platform \<Rightarrow> int \<Rightarrow> pystr \<Rightarrow> pystr \<Rightarrow> bytes \<Rightarrow> bytes \<Rightarrow> time \<Rightarrow>
     ('pk ConnectedRoomAuthorizer \<times> db, Decision) exec" where
  "authorize P room_id command token challenge response now =
     (if command \<notin> set ALLOWED_DEVICES then ret (deny BAD_COMMAND None)
      else
        bindE (on_db revocation_list)
          (\<lambda>revoked (cr, d).
             case evaluate_static P token (cr_property_pub cr) (cr_property_id cr) room_id now
                    (set revoked) of
               Inl e \<Rightarrow> (Inl e, cr, d)
             | Inr static \<Rightarrow>
                 (case static_deny static of
                    Some decision \<Rightarrow> (Inr decision, cr, d)
                  | None \<Rightarrow>
                      (case static_payload static of
                         None \<Rightarrow> (Inl AssertionError, cr, d)
                       | Some payload \<Rightarrow>
                           let key_id = py_str P (field payload ''key_id'')
                           in bindE (on_db (stay_is_active P payload room_id))
                                (\<lambda>active (cr, d).
                                   if \<not> active then (Inr (deny NOT_ACTIVE_STAY (Some key_id)), cr, d)
                                   else
                                     let status = check (cr_challenges cr) challenge now
                                     in if status = STATUS_REPLAYED
                                        then (Inr (deny REPLAYED (Some key_id)), cr, d)
                                        else if status = UNKNOWN
                                        then (Inr (deny UNKNOWN_CHALLENGE (Some key_id)), cr, d)
                                        else
                                          (case verify_device_response P (field payload ''device_pub'')
                                                  challenge response of
                                             Inl e \<Rightarrow> (Inl e, cr, d)
                                           | Inr False \<Rightarrow> (Inr (deny BAD_RESPONSE (Some key_id)), cr, d)
                                           | Inr True \<Rightarrow>
                                               (Inr (allow key_id),
                                                cr\<lparr>cr_challenges :=
                                                     consume challenge now (cr_challenges cr)\<rparr>, d)))
                                (cr, d)))))"

end
