(* ===== verification/Connected_Facts.thy ===== *)
theory Connected_Facts
  imports Connected_Room Lifecycle_Facts
begin

text \<open>
  The decision of the connected-room authorizer in closed form: a command is allowed
  for the room's active, checked-in stay only, and uses its challenge up.
\<close>

definition latest_active :: "db \<Rightarrow> int \<Rightarrow> assignment_row option" where
  "latest_active d room = fetchone (sort_key (\<lambda>a. - as_id a)
     (filter (\<lambda>a. as_room_id a = room \<and> as_active a) (assignments d)))"

lemma latest_active_Some:
  assumes "latest_active d room = Some a"
  shows "a \<in> active_rows d" "as_room_id a = room"
    "b \<in> active_rows d \<Longrightarrow> as_room_id b = room \<Longrightarrow> as_id b \<le> as_id a"
proof -
  let ?rows = "filter (\<lambda>a. as_room_id a = room \<and> as_active a) (assignments d)"
  obtain rest where rest: "sort_key (\<lambda>a. - as_id a) ?rows = a # rest"
    using assms by (cases "sort_key (\<lambda>a. - as_id a) ?rows") (simp_all add: latest_active_def)
  then have set: "set ?rows = insert a (set rest)" by (metis list.simps(15) set_sort)
  then have "a \<in> set ?rows" by blast
  then show "a \<in> active_rows d" "as_room_id a = room" by (simp_all add: active_rows_def)
  have "sorted (map (\<lambda>a. - as_id a) (a # rest))" using rest by (metis sorted_sort_key)
  then have least: "\<forall>x \<in> set rest. - as_id a \<le> - as_id x" by simp
  assume "b \<in> active_rows d" "as_room_id b = room"
  then have "b \<in> set ?rows" by (simp add: active_rows_def)
  then show "as_id b \<le> as_id a" using set least by auto
qed

text \<open>The stay a payload names holds the room and is checked in.\<close>

definition holds_room :: "('sk, 'pk) platform \<Rightarrow> payload \<Rightarrow> int \<Rightarrow> db \<Rightarrow> bool" where
  "holds_room P p room d \<longleftrightarrow>
     (\<exists>a s. latest_active d room = Some a \<and> map_of p (lit ''stay_id'') = Some (JStr (as_stay_id a)) \<and>
        s \<in> set (stays d) \<and> st_stay_id s = as_stay_id a \<and> st_status s = CHECKED_IN \<and>
        st_room_id s = Some room)"

lemma active_assignment_run:
  "active_assignment_for_room room d =
     (if fits room then Inr (latest_active d room) else Inl OverflowError, d)"
  by (simp add: active_assignment_for_room_def latest_active_def execute_def bind_error_def fits_def)

lemma stay_is_active_keeps: "snd (stay_is_active P p room d) = d"
proof -
  have "keeps (\<lambda>d'. d' = d) (stay_is_active P p room)"
    unfolding stay_is_active_def by (intro keeps_intros)
  then show ?thesis by (simp add: keeps_def)
qed

lemma stay_is_active_True:
  assumes "stay_is_active P p room d = (Inr True, d')"
  shows "holds_room P p room d"
proof -
  have room: "fits room"
    using assms by (rule contrapos_pp) (simp add: stay_is_active_def active_assignment_run)
  obtain sid where sid: "map_of p (lit ''stay_id'') = Some sid"
    using assms room
    by (cases "map_of p (lit ''stay_id'')") (auto simp: stay_is_active_def active_assignment_run)
  obtain res d1 where g: "get_stay (py_str P sid) d = (res, d1)" by force
  then show ?thesis
  proof (cases rule: get_stay_cases)
    case (found s)
    then show ?thesis using assms room sid g
      by (auto simp: stay_is_active_def active_assignment_run holds_room_def split: option.splits if_splits)
  qed (use assms room sid g in \<open>auto simp: stay_is_active_def active_assignment_run
         split: option.splits if_splits\<close>)
qed

definition controls ::
  "('sk, 'pk) platform \<Rightarrow> 'pk ConnectedRoomAuthorizer \<Rightarrow> db \<Rightarrow> int \<Rightarrow> pystr \<Rightarrow> pystr \<Rightarrow> bytes \<Rightarrow>
     bytes \<Rightarrow> time \<Rightarrow> payload \<Rightarrow> bool" where
  "controls P cr d room command token c r now p \<longleftrightarrow>
     command \<in> set ALLOWED_DEVICES \<and> token_carries P (cr_property_pub cr) token p \<and>
     static_ok P p (cr_property_id cr) room now (revoked_ids d) \<and>
     stay_is_active P p room d = (Inr True, d) \<and> check (cr_challenges cr) c now = OK \<and>
     verify_device_response P (field p ''device_pub'') c r = Inr True"

lemma authorize_passed:
  assumes "command \<in> set ALLOWED_DEVICES"
    and "evaluate_static P token (cr_property_pub cr) (cr_property_id cr) room now (revoked_ids d) =
      Inr \<lparr>static_deny = None, static_payload = Some p\<rparr>"
  shows "authorize P room command token c r now (cr, d) =
    (case fst (stay_is_active P p room d) of
       Inl e \<Rightarrow> (Inl e, cr, d)
     | Inr active \<Rightarrow>
         if \<not> active then (Inr (deny NOT_ACTIVE_STAY (Some (py_str P (field p ''key_id'')))), cr, d)
         else
           case check (cr_challenges cr) c now of
             STATUS_REPLAYED \<Rightarrow> (Inr (deny REPLAYED (Some (py_str P (field p ''key_id'')))), cr, d)
           | UNKNOWN \<Rightarrow> (Inr (deny UNKNOWN_CHALLENGE (Some (py_str P (field p ''key_id'')))), cr, d)
           | OK \<Rightarrow>
               (case verify_device_response P (field p ''device_pub'') c r of
                  Inl e \<Rightarrow> (Inl e, cr, d)
                | Inr False \<Rightarrow> (Inr (deny BAD_RESPONSE (Some (py_str P (field p ''key_id'')))), cr, d)
                | Inr True \<Rightarrow>
                    (Inr (allow (py_str P (field p ''key_id''))),
                     cr\<lparr>cr_challenges := consume c now (cr_challenges cr)\<rparr>, d)))"
proof -
  obtain active where act: "stay_is_active P p room d = (active, d)"
    using stay_is_active_keeps [of P p room d] by (metis prod.collapse)
  have ev: "evaluate_static P token (cr_property_pub cr) (cr_property_id cr) room now
      (set (map re_key_id (revocations d))) = Inr \<lparr>static_deny = None, static_payload = Some p\<rparr>"
    using assms(2) by (simp add: revoked_ids_def)
  show ?thesis
    using assms(1) ev act
    by (simp add: authorize_def on_db_def revocation_list_def Let_def bindE_def
        split: sum.split ChallengeStatus.split)
qed

lemma authorize_cases:
  assumes "authorize P room command token c r now (cr, d) = (res, cr', d')"
  obtains (applied) p where "controls P cr d room command token c r now p"
      "res = Inr (allow (py_str P (field p ''key_id'')))" "d' = d"
      "cr' = cr\<lparr>cr_challenges := consume c now (cr_challenges cr)\<rparr>"
    | (refused) reason k where "res = Inr (deny reason k)" "cr' = cr" "d' = d"
    | (raised) e where "res = Inl e" "cr' = cr" "d' = d"
proof (cases "command \<in> set ALLOWED_DEVICES")
  case False
  then show ?thesis using assms refused by (auto simp: authorize_def)
next
  case cmd: True
  have list: "set (map re_key_id (revocations d)) = revoked_ids d" by (simp add: revoked_ids_def)
  show ?thesis
  proof (cases rule: evaluate_static_cases [OF refl, of P token "cr_property_pub cr"
        "cr_property_id cr" room now "revoked_ids d"])
    case 1
    then show ?thesis using assms cmd raised
      by (auto simp: authorize_def on_db_def revocation_list_def list [unfolded set_map])
  next
    case 2
    then show ?thesis using assms cmd refused
      by (auto simp: authorize_def on_db_def revocation_list_def list [unfolded set_map]
          Credential.denied_def)
  next
    case (3 p)
    obtain active where act: "stay_is_active P p room d = (active, d)"
      using stay_is_active_keeps [of P p room d] by (metis prod.collapse)
    note run = authorize_passed [OF cmd 3(1), of c r, unfolded assms act fst_conv]
    show ?thesis
    proof (cases "active = Inr True \<and> check (cr_challenges cr) c now = OK \<and>
        verify_device_response P (field p ''device_pub'') c r = Inr True")
      case True
      then have "controls P cr d room command token c r now p"
        using cmd 3 act by (simp add: controls_def)
      then show ?thesis using run True by (intro applied) simp_all
    next
      case False
      then show ?thesis using run refused raised
        by (auto split: sum.splits ChallengeStatus.splits if_splits bool.splits)
    qed
  qed
qed

lemma authorize_controls:
  assumes "controls P cr d room command token c r now p"
  shows "authorize P room command token c r now (cr, d) =
    (Inr (allow (py_str P (field p ''key_id''))),
     cr\<lparr>cr_challenges := consume c now (cr_challenges cr)\<rparr>, d)"
proof -
  have "evaluate_static P token (cr_property_pub cr) (cr_property_id cr) room now (revoked_ids d) =
      Inr \<lparr>static_deny = None, static_payload = Some p\<rparr>"
    using assms by (simp add: controls_def evaluate_static_pass)
  then show ?thesis
    using authorize_passed [of command P token cr room now d p c r] assms by (simp add: controls_def)
qed

end
