(* ===== verification/Connected_Properties.thy ===== *)
theory Connected_Properties
  imports Connected_Facts Lifecycle_Properties
begin

text \<open>
  The scope of connected-room commands: what an allowed command implies of the store,
  which guests it admits and which it shuts out.
\<close>

section \<open>A guest in their own room\<close>

lemma holds_room_active:
  assumes "db_ok d" "s \<in> set (stays d)" "st_status s = CHECKED_IN" "st_room_id s = Some room"
    and "latest_active d room = Some a" "as_stay_id a = st_stay_id s"
    and "map_of p (lit ''stay_id'') = Some (JStr (st_stay_id s))"
  shows "stay_is_active P p room d = (Inr True, d)"
  using assms stay_room_fits(1) [OF assms(1,2,4)] get_stay_row [OF assms(1,2)]
  by (simp add: stay_is_active_def active_assignment_run)

lemma stay_key_controls:
  assumes "ed25519 P" "args_ok f (stay_args f s room now)"
    and "issue_credential P f sk (stay_args f s room now) = Inr ik"
    and "db_ok d" "s' \<in> set (stays d)" "st_stay_id s' = st_stay_id s" "st_status s' = CHECKED_IN"
    and "st_room_id s' = Some room" "latest_active d room = Some a" "as_stay_id a = st_stay_id s"
    and "cr_property_pub cr = public_key P sk" "cr_property_id cr = st_property_id s"
    and "st_check_in s \<le> t" "t \<le> st_check_out s" "t \<le> now + KEY_TTL_SECONDS"
    and "ik_key_id ik \<notin> revoked_ids d" "command \<in> set ALLOWED_DEVICES"
    and "check (cr_challenges cr) c t = OK" "device_sign P (ik_device_sk_b64 ik) c = Inr response"
  shows "authorize P room command (ik_token ik) c response t (cr, d) =
    (Inr (allow (ik_key_id ik)), cr\<lparr>cr_challenges := consume c t (cr_challenges cr)\<rparr>, d)"
proof -
  let ?a = "stay_args f s room now"
  let ?p = "sorted_payload (issue_payload P f ?a)"
  have sig: "verify P (cr_property_pub cr) (sign P sk m) m" for m
    using assms(1,11) by (simp add: ed25519_simps)
  note fields = field_issue_payload [OF map_of_sorted_payload [OF issue_payload_keys], of P f ?a]
  note issued = issued_fields [OF assms(3)]
  have "issued_decision (ik_key_id ik) ?a (cr_property_id cr) room t (revoked_ids d) = None"
    using assms(12-16) by (simp add: issued_decision_def)
  then have static: "static_ok P ?p (cr_property_id cr) room t (revoked_ids d)"
    "token_carries P (cr_property_pub cr) (ik_token ik) ?p"
    using evaluate_static_issued [OF assms(2,3) sig, of "cr_property_id cr" room t "revoked_ids d"]
      evaluate_static_pass [of P "ik_token ik" "cr_property_pub cr"]
    by (simp_all add: issued(2))
  have "map_of ?p (lit ''stay_id'') = Some (JStr (st_stay_id s'))"
    using assms(6) by (simp add: map_of_sorted_payload issue_payload_keys) (simp add: issue_payload_def)
  then have "stay_is_active P ?p room d = (Inr True, d)"
    using holds_room_active [OF assms(4,5,7,8,9)] assms(6,10) by simp
  moreover have "verify_device_response P (field ?p ''device_pub'') c response = Inr True"
    using fields assms(1,19) device_sign_issued [OF assms(1,3)]
    by (auto simp: verify_device_response_issued ed25519_simps)
  ultimately have "controls P cr d room command (ik_token ik) c response t ?p"
    using static assms(17,18) by (simp add: controls_def)
  from authorize_controls [OF this] fields show ?thesis by (simp add: issued(1))
qed

section \<open>Ada in her room\<close>

definition ada_room :: db where
  "ada_room = with_status (lit ''s_ada'') CHECKED_IN ada_keyed"

definition sample_cr :: "bytes ConnectedRoomAuthorizer" where
  "sample_cr = begin_command [9] 1500
     \<lparr>cr_property_id = lit ''HILTON-DEMO-001'', cr_property_pub = [1, 2],
      cr_challenges = new_store 30 32\<rparr>"

lemma sample_cr_simps [simp]:
  "cr_property_id sample_cr = lit ''HILTON-DEMO-001''" "cr_property_pub sample_cr = [1, 2]"
  "check (cr_challenges sample_cr) [9] 1510 = OK"
  by (simp_all add: sample_cr_def begin_command_def issue_def gc_def new_store_def check_def Let_def
      expired_def pop_all_def)

lemma tv_allowed [simp]: "lit ''tv'' \<in> set ALLOWED_DEVICES"
  by (simp add: ALLOWED_DEVICES_def)

lemma ada_room [simp]:
  "db_ok ada_room" "ada_in\<lparr>st_status := CHECKED_IN\<rparr> \<in> set (stays ada_room)"
  "revocations ada_room = []"
  "latest_active ada_room 101 = Some \<lparr>as_id = 1, as_room_id = 101, as_stay_id = lit ''s_ada'',
     as_check_in = 1000, as_check_out = 90000, as_active = True\<rparr>"
  "hotel_stay ''s_ben'' ''g_ben'' 1000 90000 \<in> set (stays ada_room)"
proof -
  have "set_stay_status (lit ''s_ada'') CHECKED_IN ada_keyed = (Inr (), ada_room)"
    by (simp add: ada_room_def set_status_exec)
  from keepsD [OF keeps_set_stay_status ada_keyed(1) this] show "db_ok ada_room" .
  show "ada_in\<lparr>st_status := CHECKED_IN\<rparr> \<in> set (stays ada_room)"
    using ada_keyed(2) by (force simp: ada_room_def with_status_def set_update_where)
  show "hotel_stay ''s_ben'' ''g_ben'' 1000 90000 \<in> set (stays ada_room)"
    using ada_keyed(7) by (simp add: ada_room_def with_status_def in_update_where)
  show "revocations ada_room = []" by (simp add: ada_room_def with_status_def)
  show "latest_active ada_room 101 = Some \<lparr>as_id = 1, as_room_id = 101, as_stay_id = lit ''s_ada'',
     as_check_in = 1000, as_check_out = 90000, as_active = True\<rparr>"
    by (simp add: latest_active_def ada_room_def with_status_def)
qed

section \<open>Properties\<close>

text \<open>
  C24: Command scope. A command is allowed only for a supported device, for a token the
  property's signature covers, in its window and not revoked in the database, whose stay
  is checked in, has this room, and holds the room's latest active assignment; the
  challenge was live and is used up. The database is never touched, and any other
  outcome leaves the authorizer as it was.
\<close>

theorem command_scope:
  "case authorize P room command token c r now (cr, d) of (res, cr', d') \<Rightarrow>
     d' = d \<and>
     (case res of
        Inr dec \<Rightarrow>
          if allowed dec
          then cr' = cr\<lparr>cr_challenges := consume c now (cr_challenges cr)\<rparr> \<and>
            check (cr_challenges cr) c now = OK \<and> command \<in> set ALLOWED_DEVICES \<and>
            (\<exists>p. token_carries P (cr_property_pub cr) token p \<and>
               static_ok P p (cr_property_id cr) room now (re_key_id ` set (revocations d)) \<and>
               holds_room P p room d \<and>
               verify_device_response P (field p ''device_pub'') c r = Inr True)
          else cr' = cr
      | Inl e \<Rightarrow> cr' = cr)"
proof -
  obtain res cr' d' where run: "authorize P room command token c r now (cr, d) = (res, cr', d')"
    by (metis prod.collapse)
  then show ?thesis
  proof (cases rule: authorize_cases)
    case (applied p)
    then have c: "controls P cr d room command token c r now p" by simp
    then have "holds_room P p room d" by (auto simp: controls_def intro: stay_is_active_True)
    with applied c run show ?thesis by (auto simp: controls_def revoked_ids_def)
  qed (use run in auto)
qed

text \<open>
  C25: A guest controls their own room. With the key issued for a checked-in stay that
  holds the room, each supported device obeys in the key's window, as long as the key is
  not revoked, against a live challenge signed with the key's device key.
\<close>

theorem guest_controls_own_room:
  assumes "ed25519 P" "db_ok d0" "fresh_ok f" "s \<in> set (stays d0)"
    and "issue_for_stay P f sk (st_stay_id s) now d0 = (Inr ik, d1)"
    and "db_ok d" "s' \<in> set (stays d)" "st_stay_id s' = st_stay_id s" "st_status s' = CHECKED_IN"
    and "st_room_id s = Some room" "st_room_id s' = Some room"
    and "latest_active d room = Some a" "as_stay_id a = st_stay_id s"
    and "cr_property_pub cr = public_key P sk" "cr_property_id cr = st_property_id s"
    and "st_check_in s \<le> t" "t \<le> st_check_out s" "t \<le> now + KEY_TTL_SECONDS"
    and "ik_key_id ik \<notin> re_key_id ` set (revocations d)" "command \<in> set ALLOWED_DEVICES"
    and "check (cr_challenges cr) c t = OK" "device_sign P (ik_device_sk_b64 ik) c = Inr response"
  shows "fst (authorize P room command (ik_token ik) c response t (cr, d)) =
    Inr (allow (ik_key_id ik))"
proof -
  obtain s1 room1 where s1: "s1 \<in> set (stays d0)" "st_stay_id s1 = st_stay_id s"
    "st_room_id s1 = Some room1" "st_check_in s1 < min (st_check_out s1) (now + KEY_TTL_SECONDS)"
    "issue_credential P f sk (stay_args f s1 room1 now) = Inr ik" "fits now"
    using issue_for_stay_run [OF assms(2,5)] by metis
  have s: "s1 = s"
    using same_key [of st_stay_id "stays d0" s1 s] assms(2,4) s1(1,2) by (simp add: db_ok_defs)
  have ok: "args_ok f (stay_args f s room now)"
    using stay_args_ok [OF assms(2) s1(1,3,6) assms(3) s1(4)] s1(3) assms(10) by (simp add: s)
  have ik: "issue_credential P f sk (stay_args f s room now) = Inr ik"
    using s1(3,5) assms(10) by (simp add: s)
  have "ik_key_id ik \<notin> revoked_ids d" using assms(19) by (simp add: revoked_ids_def)
  from stay_key_controls [OF assms(1) ok ik assms(6-9,11-18) this assms(20-22)]
  show ?thesis by simp
qed

text \<open>Ada turns on the television of room 101 at time 1510.\<close>

theorem guest_controls_own_room_witness:
  "\<exists>(ik :: IssuedKey) response. fst (authorize sample_platform 101 (lit ''tv'') (ik_token ik) [9]
     response 1510 (sample_cr, ada_room)) = Inr (allow (lit ''5f1e''))"
proof -
  obtain ik where ik:
    "issue_for_stay sample_platform sample_fresh [1, 2] (lit ''s_ada'') 1000 ada_hotel =
       (Inr ik, ada_hotel\<lparr>keys := [issued_row ik ada_in 101 1000]\<rparr>)" "ik_key_id ik = lit ''5f1e''"
    "issue_credential sample_platform sample_fresh [1, 2] (stay_args sample_fresh ada_in 101 1000) = Inr ik"
    by (rule ada_issued [OF sample_fresh_ok]) simp
  from device_sign_issued [OF sample_ed25519 ik(3)]
  have resp: "device_sign sample_platform (ik_device_sk_b64 ik) [9] = Inr (fresh_sk sample_fresh @ [9])"
    by simp
  have issue: "issue_for_stay sample_platform sample_fresh [1, 2] (st_stay_id ada_in) 1000 ada_hotel =
       (Inr ik, ada_hotel\<lparr>keys := [issued_row ik ada_in 101 1000]\<rparr>)" using ik(1) by simp
  have "fst (authorize sample_platform 101 (lit ''tv'') (ik_token ik) [9] (fresh_sk sample_fresh @ [9])
      1510 (sample_cr, ada_room)) = Inr (allow (ik_key_id ik))"
    by (rule guest_controls_own_room [OF sample_ed25519 ada_hotel_ok(1) sample_fresh_ok
          ada_hotel_ok(2) issue ada_room(1,2) _ _ _ _ ada_room(4) _ _ _ _ _ _ _ tv_allowed
          sample_cr_simps(3) resp]) (simp_all add: KEY_TTL_SECONDS_def)
  then show ?thesis using ik(2) by auto
qed

text \<open>
  C26: Checkout ends control. Right after a checkout no token of that stay commands any
  room: a command that is allowed carries another stay.
\<close>

theorem checkout_ends_control:
  assumes "db_ok d" "s \<in> set (stays d)" "fits now"
    and "checkout (st_stay_id s) now d = (Inr ks, d')"
    and "authorize P room command token c r t (cr, d') = (Inr dec, cr', d'')" "allowed dec"
  shows "\<exists>p. token_carries P (cr_property_pub cr) token p \<and>
    map_of p (lit ''stay_id'') \<noteq> Some (JStr (st_stay_id s))"
  using assms(5)
proof (cases rule: authorize_cases)
  case (applied p)
  have d': "d' = checked_out_db (st_stay_id s) now d"
    using checkout_exec [OF assms(1,2)] assms(3,4) by auto
  have "st_status x = CHECKED_OUT" if "x \<in> set (stays d')" "st_stay_id x = st_stay_id s" for x
    using that by (auto simp: d' checked_out_db_def with_status_def set_update_where split: if_splits)
  moreover have "CHECKED_OUT \<noteq> CHECKED_IN" by (simp add: CHECKED_IN_def CHECKED_OUT_def)
  moreover have "holds_room P p room d'" using applied by (auto simp: controls_def intro: stay_is_active_True)
  ultimately have "map_of p (lit ''stay_id'') \<noteq> Some (JStr (st_stay_id s))"
    by (fastforce simp: holds_room_def)
  then show ?thesis using applied by (auto simp: controls_def)
qed (use assms(6) in auto)

text \<open>After Ben's checkout Ada's token still commands her room; it carries her stay.\<close>

theorem checkout_ends_control_witness:
  "\<exists>(ik :: IssuedKey) p. token_carries sample_platform [1, 2] (ik_token ik) p \<and>
     map_of p (lit ''stay_id'') \<noteq> Some (JStr (lit ''s_ben''))"
proof -
  let ?ben = "hotel_stay ''s_ben'' ''g_ben'' 1000 90000"
  let ?s = "ada_in\<lparr>st_status := CHECKED_IN\<rparr>"
  let ?d = "checked_out_db (lit ''s_ben'') 1500 ada_room"
  let ?a = "\<lparr>as_id = 1, as_room_id = 101, as_stay_id = lit ''s_ada'',
     as_check_in = 1000, as_check_out = 90000, as_active = True\<rparr>"
  obtain ik where ik: "ik_key_id ik = lit ''5f1e''"
    "issue_credential sample_platform sample_fresh [1, 2] (stay_args sample_fresh ada_in 101 1000) = Inr ik"
    by (rule ada_issued [OF sample_fresh_ok]) simp
  have out: "checkout (st_stay_id ?ben) 1500 ada_room = (Inr (active_keys (lit ''s_ben'') ada_room), ?d)"
    using checkout_exec [OF ada_room(1,5), of 1500] by (simp add: fits_def)
  have ok: "db_ok ?d" by (rule keepsD [OF keeps_checkout_db ada_room(1) out])
  have s: "?s \<in> set (stays ?d)"
    using ada_room(2) by (simp add: checked_out_db_def with_status_def in_update_where)
  have "set (map ke_stay_id (keys ada_keyed)) = {lit ''s_ada''}" unfolding ada_keyed(8) by simp
  then have "\<forall>k \<in> set (keys ada_keyed). ke_stay_id k = lit ''s_ada''" unfolding set_map by blast
  then have "active_keys (lit ''s_ben'') ada_room = []"
    by (simp add: ada_room_def with_status_def active_keys_def filter_empty_conv)
  then have rev: "ik_key_id ik \<notin> revoked_ids ?d" by simp (simp add: revoked_ids_def)
  have latest: "latest_active ?d 101 = Some ?a"
    by (simp add: latest_active_def checked_out_db_def with_status_def retire_def ada_room_def
        update_where_def)
  have args: "args_ok sample_fresh (stay_args sample_fresh ada_in 101 1000)"
    by (rule stay_args_ok [OF ada_hotel_ok(1,2)]) (simp_all add: fits_def KEY_TTL_SECONDS_def)
  have resp: "device_sign sample_platform (ik_device_sk_b64 ik) [9] = Inr (fresh_sk sample_fresh @ [9])"
    using device_sign_issued [OF sample_ed25519 ik(2)] by simp
  have run: "authorize sample_platform 101 (lit ''tv'') (ik_token ik) [9] (fresh_sk sample_fresh @ [9])
      1510 (sample_cr, ?d) = (Inr (allow (ik_key_id ik)),
        sample_cr\<lparr>cr_challenges := consume [9] 1510 (cr_challenges sample_cr)\<rparr>, ?d)"
    by (rule stay_key_controls [OF sample_ed25519 args ik(2) ok s _ _ _ latest _ _ _ _ _ _ rev
          tv_allowed sample_cr_simps(3) resp]) (simp_all add: KEY_TTL_SECONDS_def)
  have "fits 1500" by (simp add: fits_def)
  from checkout_ends_control [OF ada_room(1,5) this out run allowed_allow] show ?thesis by auto
qed

end
