(* ===== verification/App_State.thy ===== *)
theory App_State
  imports Connected_Room Lock
begin

text \<open>
  \<open>staykey/app_state.py\<close>: one property's key pair, database, connected-room
  authorizer and the registry of simulated door locks, one for each room, created
  when it is first asked for.
\<close>

record ('sk, 'pk) AppState =
  app_property_id :: pystr
  app_property_sk :: 'sk
  app_property_pub_raw :: bytes
  app_locks :: "(int \<times> 'pk LockVerifier) list"
  app_connected :: "'pk ConnectedRoomAuthorizer"
  app_db :: db

definition DEMO_PROPERTY_ID :: pystr where
  "DEMO_PROPERTY_ID = lit ''HILTON-DEMO-001''"

text \<open>The key pair as loaded, and a database whose tables exist or are created empty.\<close>

definition new_app ::
  "('sk, 'pk) platform \<Rightarrow> pystr \<Rightarrow> 'sk \<Rightarrow> db \<Rightarrow> exn + ('sk, 'pk) AppState" where
  "new_app P property_id property_sk d =
     (case new_authorizer P property_id (property_public_raw P property_sk) of
        Inl e \<Rightarrow> Inl e
      | Inr cr \<Rightarrow>
          Inr \<lparr>app_property_id = property_id, app_property_sk = property_sk,
               app_property_pub_raw = property_public_raw P property_sk, app_locks = [],
               app_connected = cr, app_db = d\<rparr>)"

text \<open>A database call on the application's database.\<close>

definition with_db :: "(db, 'a) exec \<Rightarrow> (('sk, 'pk) AppState, 'a) exec" where
  "with_db m app = (case m (app_db app) of (r, d) \<Rightarrow> (r, app\<lparr>app_db := d\<rparr>))"

definition create_lock ::
  "('sk, 'pk) platform \<Rightarrow> int \<Rightarrow> (('sk, 'pk) AppState, 'pk LockVerifier) exec" where
  "create_lock P room_id =
     bindE (with_db (get_room room_id))
       (\<lambda>room. bindE (with_db revocation_list)
          (\<lambda>revoked app.
             case new_lock P
                    (case room of Some ro \<Rightarrow> ro_property_id ro | None \<Rightarrow> app_property_id app)
                    room_id (app_property_pub_raw app) revoked of
               Inl e \<Rightarrow> (Inl e, app)
             | Inr lk \<Rightarrow> (Inr lk, app\<lparr>app_locks := AList.update room_id lk (app_locks app)\<rparr>)))"

definition lock_for ::
  "('sk, 'pk) platform \<Rightarrow> int \<Rightarrow> (('sk, 'pk) AppState, 'pk LockVerifier) exec" where
  "lock_for P room_id app =
     (case map_of (app_locks app) room_id of
        Some lk \<Rightarrow> (Inr lk, app)
      | None \<Rightarrow> create_lock P room_id app)"

text \<open>Locks are objects: an operation on one is an update of the registry.\<close>

definition set_lock :: "int \<Rightarrow> 'pk LockVerifier \<Rightarrow> ('sk, 'pk) AppState \<Rightarrow> ('sk, 'pk) AppState" where
  "set_lock room_id lk app = app\<lparr>app_locks := AList.update room_id lk (app_locks app)\<rparr>"

definition sync_lock :: "('sk, 'pk) platform \<Rightarrow> int \<Rightarrow> (('sk, 'pk) AppState, unit) exec" where
  "sync_lock P room_id =
     bindE (lock_for P room_id)
       (\<lambda>lk. bindE (with_db revocation_list)
          (\<lambda>revoked. modify (set_lock room_id (sync_revocations revoked lk))))"

definition sync_all_locks :: "(('sk, 'pk) AppState, unit) exec" where
  "sync_all_locks =
     bindE (with_db revocation_list)
       (\<lambda>revoked. modify (\<lambda>app. app\<lparr>app_locks :=
          map (\<lambda>(r, lk). (r, sync_revocations revoked lk)) (app_locks app)\<rparr>))"

end
