(* ===== verification/Api.thy ===== *)
theory Api
  imports App_State
begin

text \<open>
  \<open>staykey/api.py\<close> and \<open>staykey/models.py\<close>: the request models with their
  constraints, the handlers on the application state, and the response envelope with
  its status. What a request draws at random, and the server's clock, are arguments.
\<close>

section \<open>Request models\<close>

record GuestIn =
  gi_name :: pystr
  gi_email :: pystr

record RoomIn =
  ri_room_id :: int
  ri_number :: pystr
  ri_room_type :: pystr
  ri_property_id :: "pystr option"

record ReservationIn =
  rv_guest_id :: "pystr option"
  rv_guest :: "GuestIn option"
  rv_room_type :: pystr
  rv_check_in :: time
  rv_check_out :: time
  rv_preferred_room_id :: "int option"

record RoomChangeIn =
  rc_now :: "time option"
  rc_new_room_id :: "int option"

record UnlockIn =
  ul_now :: "time option"
  ul_token :: pystr
  ul_challenge_b64 :: pystr
  ul_response_b64 :: pystr

record ControlIn = UnlockIn +
  ct_command :: pystr

definition sized :: "nat \<Rightarrow> nat \<Rightarrow> pystr \<Rightarrow> bool" where
  "sized lo hi s \<longleftrightarrow> lo \<le> length s \<and> length s \<le> hi"

definition valid_guest :: "GuestIn \<Rightarrow> bool" where
  "valid_guest g \<longleftrightarrow> sized 1 200 (gi_name g) \<and> sized 3 320 (gi_email g)"

definition valid_room :: "RoomIn \<Rightarrow> bool" where
  "valid_room r \<longleftrightarrow> 0 < ri_room_id r \<and> sized 1 20 (ri_number r) \<and> sized 1 40 (ri_room_type r)"

definition valid_reservation :: "ReservationIn \<Rightarrow> bool" where
  "valid_reservation r \<longleftrightarrow>
     (case rv_guest r of None \<Rightarrow> True | Some g \<Rightarrow> valid_guest g) \<and>
     sized 1 40 (rv_room_type r) \<and> 0 < rv_check_in r \<and> 0 < rv_check_out r \<and>
     rv_check_in r < rv_check_out r"

definition valid_control :: "ControlIn \<Rightarrow> bool" where
  "valid_control c \<longleftrightarrow> sized 1 40 (ct_command c)"

section \<open>Responses\<close>

text \<open>
  A status and the data of the envelope, \<open>None\<close> where \<open>ok\<close> is false. Errors without
  a handler are answered by the server with 500, invalid bodies by the framework with 422.
\<close>

record response =
  http_status :: nat
  http_data :: "json option"

definition status_of :: "exn \<Rightarrow> nat" where
  "status_of e =
     (case e of
        NotFoundError \<Rightarrow> 404
      | RoomUnavailableError \<Rightarrow> 409
      | ValidationError \<Rightarrow> 400
      | StayKeyError \<Rightarrow> 400
      | _ \<Rightarrow> 500)"

definition respond :: "('s, json) exec \<Rightarrow> 's \<Rightarrow> response \<times> 's" where
  "respond m s =
     (case m s of
        (Inl e, s') \<Rightarrow> (\<lparr>http_status = status_of e, http_data = None\<rparr>, s')
      | (Inr data, s') \<Rightarrow> (\<lparr>http_status = 200, http_data = Some data\<rparr>, s'))"

definition validated :: "bool \<Rightarrow> ('s \<Rightarrow> response \<times> 's) \<Rightarrow> 's \<Rightarrow> response \<times> 's" where
  "validated ok handler s =
     (if ok then handler s else (\<lparr>http_status = 422, http_data = None\<rparr>, s))"

definition json_option :: "('a \<Rightarrow> json) \<Rightarrow> 'a option \<Rightarrow> json" where
  "json_option f x = (case x of None \<Rightarrow> JNull | Some y \<Rightarrow> f y)"

definition strs :: "pystr list \<Rightarrow> json" where
  "strs xs = JArr (map JStr xs)"

definition key_payload :: "IssuedKey \<Rightarrow> json" where
  "key_payload issued =
     JObj [(lit ''key_id'', JStr (ik_key_id issued)), (lit ''token'', JStr (ik_token issued)),
           (lit ''device_sk_b64'', JStr (ik_device_sk_b64 issued)),
           (lit ''valid_from'', field (ik_payload issued) ''valid_from''),
           (lit ''valid_until'', field (ik_payload issued) ''valid_until''),
           (lit ''room_ids'', field (ik_payload issued) ''room_ids'')]"

definition outcome_value :: "UnlockOutcome \<Rightarrow> pystr" where
  "outcome_value o' = (case o' of UNLOCK \<Rightarrow> lit ''unlock'' | DENY \<Rightarrow> lit ''deny'')"

definition decision_payload :: "Decision \<Rightarrow> (pystr \<times> json) list" where
  "decision_payload d =
     [(lit ''outcome'', JStr (outcome_value (outcome d))),
      (lit ''unlocked'', JBool (unlocked d)),
      (lit ''reason'', json_option (\<lambda>r. JStr (reason_value r)) (reason d)),
      (lit ''key_id'', json_option JStr (decision_key_id d))]"

section \<open>Helpers\<close>

definition api_b64d :: "pystr \<Rightarrow> exn + bytes" where
  "api_b64d = b64u_decode"

definition now_of :: "time option \<Rightarrow> time \<Rightarrow> time" where
  "now_of override clock = (case override of Some t \<Rightarrow> t | None \<Rightarrow> clock)"

definition lift_result :: "exn + 'a \<Rightarrow> ('s, 'a) exec" where
  "lift_result r = (case r of Inl e \<Rightarrow> raise e | Inr x \<Rightarrow> ret x)"

text \<open>\<open>"g_" + uuid.uuid4().hex[:12]\<close>\<close>

definition short_id :: "string \<Rightarrow> pystr \<Rightarrow> pystr" where
  "short_id prefix hex = lit prefix @ take 12 hex"

type_synonym ('sk, 'pk, 'a) handler = "(('sk, 'pk) AppState, 'a) exec"

section \<open>Handlers\<close>

definition count_json :: "'a list \<Rightarrow> json" where
  "count_json rs = JInt (int (length rs))"

definition health :: "('sk, 'pk, json) handler" where
  "health = query (\<lambda>app.
     JObj [(lit ''status'', JStr (lit ''up'')), (lit ''property_id'', JStr (app_property_id app)),
           (lit ''counts'',
              JObj [(lit ''guests'', count_json (guests (app_db app))),
                    (lit ''rooms'', count_json (rooms (app_db app))),
                    (lit ''stays'', count_json (stays (app_db app))),
                    (lit ''keys'', count_json (keys (app_db app))),
                    (lit ''revocations'', count_json (revocations (app_db app)))])])"

definition create_guest :: "pystr \<Rightarrow> GuestIn \<Rightarrow> ('sk, 'pk, json) handler" where
  "create_guest uuid body =
     (let guest_id = short_id ''g_'' uuid
      in thenE (with_db (add_guest guest_id (gi_name body) (gi_email body)))
           (ret (JObj [(lit ''guest_id'', JStr guest_id)])))"

definition create_room :: "RoomIn \<Rightarrow> ('sk, 'pk, json) handler" where
  "create_room body app =
     thenE
       (with_db (add_room (ri_room_id body) (or_else (ri_property_id body) (app_property_id app))
                   (ri_number body) (ri_room_type body)))
       (ret (JObj [(lit ''room_id'', JInt (ri_room_id body))])) app"

text \<open>\<open>SELECT 1 FROM guests WHERE guest_id=?\<close>\<close>

definition guest_exists :: "pystr \<Rightarrow> (db, bool) exec" where
  "guest_exists guest_id =
     execute [SqlText guest_id]
       (query (\<lambda>d. fetchone (filter (\<lambda>g. gu_guest_id g = guest_id) (guests d)) \<noteq> None))"

text \<open>The guest of a reservation, created where the body brings one.\<close>

definition reserving_guest :: "pystr \<Rightarrow> ReservationIn \<Rightarrow> (db, pystr) exec" where
  "reserving_guest uuid body =
     (case rv_guest_id body of
        None \<Rightarrow>
          (case rv_guest body of
             None \<Rightarrow> raise ValidationError
           | Some g \<Rightarrow>
               let guest_id = short_id ''g_'' uuid
               in thenE (add_guest guest_id (gi_name g) (gi_email g)) (ret guest_id))
      | Some guest_id \<Rightarrow>
          bindE (guest_exists guest_id)
            (\<lambda>found. if found then ret guest_id else raise NotFoundError))"

definition reserve :: "pystr \<Rightarrow> pystr \<Rightarrow> ReservationIn \<Rightarrow> ('sk, 'pk, json) handler" where
  "reserve guest_uuid stay_uuid body app =
     bindE (with_db (reserving_guest guest_uuid body))
       (\<lambda>guest_id.
          let stay_id = short_id ''s_'' stay_uuid
          in thenE
               (with_db (add_stay stay_id guest_id (app_property_id app) (rv_room_type body)
                           (rv_check_in body) (rv_check_out body)))
               (bindE (with_db (assign_room stay_id (rv_preferred_room_id body)))
                  (\<lambda>room_id. ret (JObj [(lit ''stay_id'', JStr stay_id),
                                        (lit ''guest_id'', JStr guest_id),
                                        (lit ''room_id'', JInt room_id)])))) app"

definition checkin ::
  "('sk, 'pk) platform \<Rightarrow> 'sk fresh \<Rightarrow> pystr \<Rightarrow> time \<Rightarrow> ('sk, 'pk, json) handler" where
  "checkin P f stay_id clock app =
     bindE (with_db (get_stay stay_id))
       (\<lambda>stay. case stay of
          None \<Rightarrow> raise NotFoundError
        | Some _ \<Rightarrow>
            thenE (with_db (set_stay_status stay_id CHECKED_IN))
              (bindE (with_db (issue_for_stay P f (app_property_sk app) stay_id clock))
                 (\<lambda>issued. ret (key_payload issued)))) app"

definition refresh ::
  "('sk, 'pk) platform \<Rightarrow> 'sk fresh \<Rightarrow> pystr \<Rightarrow> time \<Rightarrow> ('sk, 'pk, json) handler" where
  "refresh P f stay_id clock app =
     bindE (with_db (refresh_key P f (app_property_sk app) stay_id clock))
       (\<lambda>issued. ret (key_payload issued)) app"

text \<open>\<open>if room is not None: sync_lock(conn, int(room))\<close>\<close>

definition sync_if :: "('sk, 'pk) platform \<Rightarrow> int option \<Rightarrow> ('sk, 'pk, unit) handler" where
  "sync_if P room = (case room of None \<Rightarrow> ret () | Some r \<Rightarrow> sync_lock P r)"

definition api_checkout ::
  "('sk, 'pk) platform \<Rightarrow> pystr \<Rightarrow> time \<Rightarrow> ('sk, 'pk, json) handler" where
  "api_checkout P stay_id clock =
     bindE (with_db (get_stay stay_id))
       (\<lambda>stay. case stay of
          None \<Rightarrow> raise NotFoundError
        | Some s \<Rightarrow>
            bindE (with_db (checkout stay_id clock))
              (\<lambda>revoked. thenE (sync_if P (st_room_id s))
                 (ret (JObj [(lit ''revoked_key_ids'', strs revoked),
                             (lit ''synced_room'', json_option JInt (st_room_id s))]))))"

definition room_change ::
  "('sk, 'pk) platform \<Rightarrow> 'sk fresh \<Rightarrow> pystr \<Rightarrow> RoomChangeIn \<Rightarrow> time \<Rightarrow> ('sk, 'pk, json) handler" where
  "room_change P f stay_id body clock app =
     bindE (with_db (get_stay stay_id))
       (\<lambda>stay. case stay of
          None \<Rightarrow> raise NotFoundError
        | Some s \<Rightarrow>
            bindE (with_db (lifecycle_change_room P f (app_property_sk app) stay_id
                              (now_of (rc_now body) clock) (rc_new_room_id body)))
              (\<lambda>(new_room, revoked, issued).
                 thenE (sync_if P (st_room_id s))
                   (thenE (sync_lock P new_room)
                      (ret (JObj [(lit ''new_room_id'', JInt new_room),
                                  (lit ''revoked_key_ids'', strs revoked),
                                  (lit ''key'', key_payload issued)]))))) app"

definition api_revocations :: "('sk, 'pk, json) handler" where
  "api_revocations =
     bindE (with_db revocation_list)
       (\<lambda>revoked. ret (JObj [(lit ''revoked_key_ids'', strs revoked)]))"

definition lock_challenge ::
  "('sk, 'pk) platform \<Rightarrow> bytes \<Rightarrow> int \<Rightarrow> time \<Rightarrow> ('sk, 'pk, json) handler" where
  "lock_challenge P challenge room_id clock =
     bindE (lock_for P room_id)
       (\<lambda>lk. thenE (modify (set_lock room_id (begin_unlock challenge clock lk)))
          (ret (JObj [(lit ''challenge_b64'', JStr (b64u_encode challenge))])))"

definition unlock_step ::
  "('sk, 'pk) platform \<Rightarrow> int \<Rightarrow> pystr \<Rightarrow> bytes \<Rightarrow> bytes \<Rightarrow> time \<Rightarrow> 'pk LockVerifier \<Rightarrow>
     (('sk, 'pk) AppState, json) exec" where
  "unlock_step P room_id token challenge response now lk app =
     (case finish_unlock P token challenge response now lk of
        (Inl e, lk') \<Rightarrow> (Inl e, set_lock room_id lk' app)
      | (Inr d, lk') \<Rightarrow> (Inr (JObj (decision_payload d)), set_lock room_id lk' app))"

definition lock_unlock ::
  "('sk, 'pk) platform \<Rightarrow> int \<Rightarrow> UnlockIn \<Rightarrow> time \<Rightarrow> ('sk, 'pk, json) handler" where
  "lock_unlock P room_id body clock =
     thenE (sync_lock P room_id)
       (bindE (lock_for P room_id)
          (\<lambda>lk. bindE (lift_result (api_b64d (ul_challenge_b64 body)))
             (\<lambda>challenge. bindE (lift_result (api_b64d (ul_response_b64 body)))
                (\<lambda>response. unlock_step P room_id (ul_token body) challenge response
                   (now_of (ul_now body) clock) lk))))"

definition room_challenge :: "bytes \<Rightarrow> time \<Rightarrow> ('sk, 'pk, json) handler" where
  "room_challenge challenge clock =
     thenE
       (modify (\<lambda>app. app\<lparr>app_connected := begin_command challenge clock (app_connected app)\<rparr>))
       (ret (JObj [(lit ''challenge_b64'', JStr (b64u_encode challenge))]))"

definition control_step ::
  "('sk, 'pk) platform \<Rightarrow> int \<Rightarrow> pystr \<Rightarrow> pystr \<Rightarrow> bytes \<Rightarrow> bytes \<Rightarrow> time \<Rightarrow>
     (('sk, 'pk) AppState, json) exec" where
  "control_step P room_id command token challenge response now app =
     (case authorize P room_id command token challenge response now (app_connected app, app_db app) of
        (r, cr, d) \<Rightarrow>
          let app' = app\<lparr>app_connected := cr, app_db := d\<rparr>
          in (case r of
                Inl e \<Rightarrow> (Inl e, app')
              | Inr decision \<Rightarrow>
                  (Inr (JObj (decision_payload decision @
                     [(lit ''command'', JStr command), (lit ''applied'', JBool (allowed decision))])),
                   app')))"

definition room_control ::
  "('sk, 'pk) platform \<Rightarrow> int \<Rightarrow> ControlIn \<Rightarrow> time \<Rightarrow> ('sk, 'pk, json) handler" where
  "room_control P room_id body clock =
     bindE (lift_result (api_b64d (ul_challenge_b64 body)))
       (\<lambda>challenge. bindE (lift_result (api_b64d (ul_response_b64 body)))
          (\<lambda>response. control_step P room_id (ct_command body) (ul_token body) challenge response
             (now_of (ul_now body) clock)))"

section \<open>Requests\<close>

datatype request =
    Health
  | PostGuest pystr GuestIn
  | PostRoom RoomIn
  | PostReservation pystr pystr ReservationIn
  | PostCheckin pystr
  | PostRefresh pystr
  | PostCheckout pystr
  | PostRoomChange pystr RoomChangeIn
  | GetRevocations
  | PostLockChallenge int bytes
  | PostLockUnlock int UnlockIn
  | PostRoomChallenge int bytes
  | PostRoomControl int ControlIn

definition handle ::
  "('sk, 'pk) platform \<Rightarrow> 'sk fresh \<Rightarrow> time \<Rightarrow> request \<Rightarrow> ('sk, 'pk) AppState \<Rightarrow>
     response \<times> ('sk, 'pk) AppState" where
  "handle P f clock rq =
     (case rq of
        Health \<Rightarrow> respond health
      | PostGuest uuid body \<Rightarrow> validated (valid_guest body) (respond (create_guest uuid body))
      | PostRoom body \<Rightarrow> validated (valid_room body) (respond (create_room body))
      | PostReservation guest_uuid stay_uuid body \<Rightarrow>
          validated (valid_reservation body) (respond (reserve guest_uuid stay_uuid body))
      | PostCheckin stay_id \<Rightarrow> respond (checkin P f stay_id clock)
      | PostRefresh stay_id \<Rightarrow> respond (refresh P f stay_id clock)
      | PostCheckout stay_id \<Rightarrow> respond (api_checkout P stay_id clock)
      | PostRoomChange stay_id body \<Rightarrow> respond (room_change P f stay_id body clock)
      | GetRevocations \<Rightarrow> respond api_revocations
      | PostLockChallenge room_id nonce \<Rightarrow> respond (lock_challenge P nonce room_id clock)
      | PostLockUnlock room_id body \<Rightarrow> respond (lock_unlock P room_id body clock)
      | PostRoomChallenge room_id nonce \<Rightarrow> respond (room_challenge nonce clock)
      | PostRoomControl room_id body \<Rightarrow>
          validated (valid_control body) (respond (room_control P room_id body clock)))"

end
