(* ===== verification/Api_Facts.thy ===== *)
theory Api_Facts
  imports Api Connected_Properties
begin

text \<open>
  The application around the components: what a request keeps of the database, and the
  handlers whose decision rests on a lock.
\<close>

section \<open>Database calls\<close>

lemma with_db_run: "m (app_db app) = (r, d) \<Longrightarrow> with_db m app = (r, app\<lparr>app_db := d\<rparr>)"
  by (simp add: with_db_def)

lemma with_db_read: "m (app_db app) = (r, app_db app) \<Longrightarrow> with_db m app = (r, app)"
  by (simp add: with_db_def)

lemma with_db_revocations:
  "with_db revocation_list app = (Inr (map re_key_id (revocations (app_db app))), app)"
  by (rule with_db_read) (simp add: revocation_list_def)

section \<open>Every request keeps the booking guarantee\<close>

definition app_booking :: "('sk, 'pk) AppState \<Rightarrow> bool" where
  "app_booking app \<longleftrightarrow> booking_ok (app_db app)"

lemma keeps_with_db [keeps_intros]: "keeps booking_ok m \<Longrightarrow> keeps app_booking (with_db m)"
  by (auto simp: keeps_def app_booking_def with_db_def split: prod.split)

lemma keeps_set_lock [keeps_intros]: "keeps app_booking (modify (set_lock r lk))"
  by (intro keeps_modify) (simp add: app_booking_def set_lock_def)

lemma keeps_lift_result [keeps_intros]: "keeps P (lift_result r)"
  by (simp add: lift_result_def keeps_intros)

lemma keeps_booking_reads [keeps_intros]: "keeps booking_ok (guest_exists g)"
  unfolding guest_exists_def by (intro keeps_intros)

lemma keeps_reserving_guest [keeps_intros]: "keeps booking_ok (reserving_guest u b)"
  unfolding reserving_guest_def Let_def by (intro keeps_intros)

lemma keeps_create_lock: "keeps app_booking (create_lock P r)"
  unfolding create_lock_def
  by (intro keeps_bindE keeps_with_db keeps_any_reads)
    (auto simp: keeps_def app_booking_def split: sum.split)

lemma keeps_lock_for [keeps_intros]: "keeps app_booking (lock_for P r)"
  using keeps_create_lock [of P r]
  by (auto simp: keeps_def lock_for_def split: option.split)

lemma keeps_sync_lock [keeps_intros]: "keeps app_booking (sync_lock P r)"
  unfolding sync_lock_def by (intro keeps_intros)

lemma keeps_sync_if [keeps_intros]: "keeps app_booking (sync_if P r)"
  unfolding sync_if_def by (intro keeps_intros)

text \<open>The handlers that read the state they start from.\<close>

lemma keeps_create_room [keeps_intros]: "keeps app_booking (create_room b)"
  by (rule keeps_reader [OF create_room_def]) (intro keeps_intros)

lemma keeps_reserve [keeps_intros]: "keeps app_booking (reserve u v b)"
  by (rule keeps_reader [OF reserve_def]) (unfold Let_def, intro keeps_intros)

lemma keeps_checkin [keeps_intros]: "keeps app_booking (checkin P f i clock)"
  by (rule keeps_reader [OF checkin_def]) (intro keeps_intros)

lemma keeps_refresh [keeps_intros]: "keeps app_booking (refresh P f i clock)"
  by (rule keeps_reader [OF refresh_def]) (intro keeps_intros)

lemma keeps_room_change [keeps_intros]: "keeps app_booking (room_change P f i rc clock)"
  by (rule keeps_reader [OF room_change_def]) (intro keeps_intros)

lemma keeps_simple_handlers [keeps_intros]:
  "keeps app_booking (create_guest u g)" "keeps app_booking (api_checkout P i clock)"
  "keeps app_booking api_revocations" "keeps app_booking (lock_challenge P n r clock)"
  "keeps app_booking health"
  unfolding create_guest_def api_checkout_def api_revocations_def lock_challenge_def health_def Let_def
  by (intro keeps_intros)+

lemma keeps_room_challenge [keeps_intros]: "keeps app_booking (room_challenge n clock)"
  unfolding room_challenge_def
  by (intro keeps_intros keeps_modify) (simp add: app_booking_def)

text \<open>The last step of an unlock, and of a command.\<close>

lemma app_booking_set_lock [simp]: "app_booking (set_lock r lk app) = app_booking app"
  by (simp add: app_booking_def set_lock_def)

lemma keeps_unlock_step [keeps_intros]: "keeps app_booking (unlock_step P r tok c resp now lk)"
  by (auto simp: keeps_def unlock_step_def split: prod.split sum.split)

lemma keeps_lock_unlock [keeps_intros]: "keeps app_booking (lock_unlock P r body clock)"
  unfolding lock_unlock_def by (intro keeps_intros)

lemma authorize_db:
  assumes "authorize P room command token c r now (cr, d) = (res, cr', d')"
  shows "d' = d"
  using assms by (cases rule: authorize_cases) auto

lemma keeps_control_step [keeps_intros]: "keeps app_booking (control_step P room cmd tok c resp now)"
  by (auto simp: keeps_def control_step_def app_booking_def Let_def split: prod.split sum.split
      dest: authorize_db)

lemma keeps_room_control [keeps_intros]: "keeps app_booking (room_control P r body clock)"
  unfolding room_control_def by (intro keeps_intros)

section \<open>The wiring\<close>

text \<open>
  Every lock of the registry guards the room it is registered for, under the property's
  public key, which is also the authorizer's.
\<close>

definition lock_wired :: "('sk, 'pk) platform \<Rightarrow> 'sk \<Rightarrow> int \<Rightarrow> 'pk LockVerifier \<Rightarrow> bool" where
  "lock_wired P sk r lk \<longleftrightarrow> lock_room_id lk = r \<and> lock_property_pub lk = public_key P sk"

definition app_wired :: "('sk, 'pk) platform \<Rightarrow> 'sk \<Rightarrow> ('sk, 'pk) AppState \<Rightarrow> bool" where
  "app_wired P sk app \<longleftrightarrow>
     app_property_sk app = sk \<and> app_property_pub_raw app = public_bytes P (public_key P sk) \<and>
     cr_property_pub (app_connected app) = public_key P sk \<and>
     (\<forall>(r, lk) \<in> set (app_locks app). lock_wired P sk r lk)"

lemma wired_with_db [keeps_intros]: "keeps (app_wired P sk) (with_db m)"
  by (auto simp: keeps_def app_wired_def with_db_def split: prod.split)

lemma set_AList_update: "x \<in> set (AList.update k v d) \<Longrightarrow> x = (k, v) \<or> x \<in> set d"
  by (induction d) (auto split: if_splits)

lemma wired_set_lock: "lock_wired P sk r lk \<Longrightarrow> keeps (app_wired P sk) (modify (set_lock r lk))"
  by (auto simp: keeps_def app_wired_def set_lock_def dest!: set_AList_update)

lemma new_lock_wired:
  assumes "ed25519 P" "new_lock P prop r (public_bytes P (public_key P sk)) rv = Inr lk"
  shows "lock_wired P sk r lk"
  using assms by (auto simp: new_lock_def ed25519_simps lock_wired_def)

lemma wired_create_lock: "ed25519 P \<Longrightarrow> keeps (app_wired P sk) (create_lock P r)"
  unfolding create_lock_def
  by (intro keeps_bindE wired_with_db)
    (auto simp: keeps_def app_wired_def dest!: set_AList_update intro: new_lock_wired split: sum.split)

lemma wired_lock_for: "ed25519 P \<Longrightarrow> keeps (app_wired P sk) (lock_for P r)"
  using wired_create_lock [of P sk r] by (auto simp: keeps_def lock_for_def split: option.split)

lemma lock_for_wired:
  assumes "ed25519 P" "app_wired P sk app" "lock_for P r app = (Inr lk, app')"
  shows "lock_wired P sk r lk"
proof (cases "map_of (app_locks app) r")
  case None
  then have "create_lock P r app = (Inr lk, app')" using assms(3) by (simp add: lock_for_def)
  then show ?thesis
    unfolding create_lock_def
  proof (elim bindE_cases; clarsimp split: sum.splits)
    fix room rv app1 app2
    assume db: "with_db (get_room r) app = (Inr room, app1)" "with_db revocation_list app1 = (Inr rv, app2)"
    have "app_wired P sk app2"
      using keepsD [OF wired_with_db _ db(2)] keepsD [OF wired_with_db assms(2) db(1)] by blast
    moreover assume "new_lock P (case room of None \<Rightarrow> app_property_id app2 | Some ro \<Rightarrow> ro_property_id ro)
      r (app_property_pub_raw app2) rv = Inr lk"
    ultimately show "lock_wired P sk r lk" using new_lock_wired [OF assms(1)] by (simp add: app_wired_def)
  qed
next
  case (Some lk')
  then show ?thesis
    using assms(2,3) by (auto simp: lock_for_def app_wired_def dest: map_of_SomeD)
qed

lemma wired_ops [simp]:
  "lock_wired P sk r (sync_revocations rv lk) = lock_wired P sk r lk"
  "lock_wired P sk r (begin_unlock c t lk) = lock_wired P sk r lk"
  by (simp_all add: lock_wired_def sync_revocations_def begin_unlock_def)

lemma finish_unlock_wired:
  assumes "lock_wired P sk r lk" "finish_unlock P token c resp now lk = (res, lk')"
  shows "lock_wired P sk r lk'"
  using assms(2,1) by (cases rule: finish_unlock_cases) (auto simp: lock_wired_def after_unlock_def)

lemma wired_sync_lock: "ed25519 P \<Longrightarrow> keeps (app_wired P sk) (sync_lock P r)"
  unfolding sync_lock_def
  by (rule keeps_bindE_post [where Q = "lock_wired P sk r"])
    (auto intro!: wired_lock_for keeps_bindE wired_with_db wired_set_lock dest: lock_for_wired)

lemma wired_sync_if: "ed25519 P \<Longrightarrow> keeps (app_wired P sk) (sync_if P r)"
  unfolding sync_if_def by (intro keeps_case_option keeps_ret wired_sync_lock)

lemma wired_lock_challenge: "ed25519 P \<Longrightarrow> keeps (app_wired P sk) (lock_challenge P n r clock)"
  unfolding lock_challenge_def
  by (rule keeps_bindE_post [where Q = "lock_wired P sk r"])
    (auto intro!: wired_lock_for keeps_thenE keeps_ret wired_set_lock dest: lock_for_wired)

lemma wired_unlock_step:
  "lock_wired P sk r lk \<Longrightarrow> keeps (app_wired P sk) (unlock_step P r token c resp now lk)"
  using keepsD [OF wired_set_lock, of P sk r]
  by (auto simp: keeps_def unlock_step_def split: prod.split sum.split dest: finish_unlock_wired)

lemma wired_lock_unlock: "ed25519 P \<Longrightarrow> keeps (app_wired P sk) (lock_unlock P r body clock)"
  unfolding lock_unlock_def
  by (intro keeps_thenE wired_sync_lock, assumption, rule keeps_bindE_post [where Q = "lock_wired P sk r"])
    (auto intro!: wired_lock_for keeps_bindE keeps_lift_result wired_unlock_step dest: lock_for_wired)

lemma wired_control_step: "keeps (app_wired P sk) (control_step P room cmd token c resp now)"
proof (rule keepsI)
  fix app res app'
  assume w: "app_wired P sk app" and run: "control_step P room cmd token c resp now app = (res, app')"
  obtain r cr d where a: "authorize P room cmd token c resp now (app_connected app, app_db app) = (r, cr, d)"
    by (metis prod.collapse)
  then have "cr_property_pub cr = cr_property_pub (app_connected app)"
    by (cases rule: authorize_cases) auto
  moreover have "app' = app\<lparr>app_connected := cr, app_db := d\<rparr>"
    using run a by (auto simp: control_step_def Let_def split: sum.splits)
  ultimately show "app_wired P sk app'" using w by (simp add: app_wired_def)
qed

text \<open>All handlers.\<close>

lemma wired_handlers:
  assumes "ed25519 P"
  shows "keeps (app_wired P sk) health" "keeps (app_wired P sk) (create_guest u g)"
    "keeps (app_wired P sk) (create_room b)" "keeps (app_wired P sk) (reserve u v rb)"
    "keeps (app_wired P sk) (checkin P f i clock)" "keeps (app_wired P sk) (refresh P f i clock)"
    "keeps (app_wired P sk) (api_checkout P i clock)"
    "keeps (app_wired P sk) (room_change P f i rc clock)"
    "keeps (app_wired P sk) api_revocations" "keeps (app_wired P sk) (room_challenge n clock)"
    "keeps (app_wired P sk) (room_control P r cb clock)"
proof -
  note rules = keeps_intros wired_sync_if [OF assms] wired_sync_lock [OF assms] wired_control_step
  show "keeps (app_wired P sk) health" unfolding health_def by (intro keeps_query)
  show "keeps (app_wired P sk) (create_guest u g)"
    unfolding create_guest_def Let_def by (intro rules)
  show "keeps (app_wired P sk) (create_room b)"
    by (rule keeps_reader [OF create_room_def]) (intro rules)
  show "keeps (app_wired P sk) (reserve u v rb)"
    by (rule keeps_reader [OF reserve_def]) (unfold Let_def, intro rules)
  show "keeps (app_wired P sk) (checkin P f i clock)"
    by (rule keeps_reader [OF checkin_def]) (intro rules)
  show "keeps (app_wired P sk) (refresh P f i clock)"
    by (rule keeps_reader [OF refresh_def]) (intro rules)
  show "keeps (app_wired P sk) (api_checkout P i clock)"
    unfolding api_checkout_def by (intro rules)
  show "keeps (app_wired P sk) (room_change P f i rc clock)"
    by (rule keeps_reader [OF room_change_def]) (intro rules)
  show "keeps (app_wired P sk) api_revocations" unfolding api_revocations_def by (intro rules)
  show "keeps (app_wired P sk) (room_challenge n clock)"
    unfolding room_challenge_def
    by (intro keeps_thenE keeps_ret keeps_modify) (simp add: app_wired_def begin_command_def)
  show "keeps (app_wired P sk) (room_control P r cb clock)"
    unfolding room_control_def by (intro rules)
qed

section \<open>Requests\<close>

lemma respond_keeps: "keeps Q m \<Longrightarrow> Q s \<Longrightarrow> Q (snd (respond m s))"
  by (auto simp: respond_def keeps_def split: prod.split sum.split)

lemma validated_keeps: "(Q s \<Longrightarrow> Q (snd (h s))) \<Longrightarrow> Q s \<Longrightarrow> Q (snd (validated ok h s))"
  by (simp add: validated_def)

lemma handle_booking:
  assumes "app_booking app"
  shows "app_booking (snd (handle P f clock rq app))"
proof -
  have step: "keeps app_booking m \<Longrightarrow> app_booking (snd (respond m app))" for m
    using assms by (rule respond_keeps [rotated])
  show ?thesis
    by (cases rq) (simp_all add: handle_def validated_keeps step assms keeps_create_room keeps_reserve
        keeps_checkin keeps_refresh keeps_room_change keeps_simple_handlers keeps_room_challenge
        keeps_lock_unlock keeps_room_control)
qed

lemma handle_wired:
  assumes "ed25519 P" "app_wired P sk app"
  shows "app_wired P sk (snd (handle P f clock rq app))"
proof -
  have step: "keeps (app_wired P sk) m \<Longrightarrow> app_wired P sk (snd (respond m app))" for m
    using assms(2) by (rule respond_keeps [rotated])
  show ?thesis
    by (cases rq) (simp_all add: handle_def validated_keeps step assms wired_handlers
        wired_lock_challenge wired_lock_unlock)
qed

text \<open>A history of requests, each with its clock and random draws.\<close>

definition serve ::
  "('sk, 'pk) platform \<Rightarrow> ('sk fresh \<times> time \<times> request) list \<Rightarrow> ('sk, 'pk) AppState \<Rightarrow> ('sk, 'pk) AppState" where
  "serve P rqs app = fold (\<lambda>(f, clock, rq) app. snd (handle P f clock rq app)) rqs app"

lemma serve_booking: "app_booking app \<Longrightarrow> app_booking (serve P rqs app)"
  unfolding serve_def
  by (induction rqs arbitrary: app) (auto simp: handle_booking)

lemma serve_wired: "ed25519 P \<Longrightarrow> app_wired P sk app \<Longrightarrow> app_wired P sk (serve P rqs app)"
  unfolding serve_def
  by (induction rqs arbitrary: app) (auto simp: handle_wired)

end
