(* ===== verification/Api_Properties.thy ===== *)
theory Api_Properties
  imports Api_Facts
begin

text \<open>
  What the HTTP interface guarantees as a whole: the invariants every history of
  requests keeps, what an unlock at a door implies of the database, and the requests
  whose failure leaves something behind.
\<close>

section \<open>Histories of requests\<close>

lemma app_booking_init:
  assumes "new_app P prop sk init_db = Inr app"
  shows "app_booking app"
proof -
  have "booking_ok init_db"
    by (simp add: booking_ok_def db_ok_init no_double_book_def) (simp add: init_db_def)
  then show ?thesis
    using assms by (auto simp: new_app_def app_booking_def split: sum.splits)
qed

lemma app_wired_init:
  assumes "ed25519 P" "new_app P prop sk d = Inr app"
  shows "app_wired P sk app"
  using assms
  by (auto simp: new_app_def app_wired_def new_authorizer_def property_public_raw_def ed25519_simps
      split: sum.splits option.splits)

text \<open>
  C3: The service invariant. After any history of requests (whatever the clocks, the
  random draws and the order of routes) on a fresh application, primary and foreign keys
  are sound, no room is double-booked, and every lock of the registry guards its own room
  under the property's public key.
\<close>

theorem service_invariant:
  assumes "ed25519 P" "new_app P prop sk init_db = Inr app"
  shows "db_ok (app_db (serve P rqs app)) \<and> no_double_book (app_db (serve P rqs app)) \<and>
    (\<forall>(r, lk) \<in> set (app_locks (serve P rqs app)).
       lock_room_id lk = r \<and> lock_property_pub lk = public_key P sk)"
  using serve_booking [OF app_booking_init [OF assms(2)], of P rqs]
    serve_wired [OF assms(1) app_wired_init [OF assms], of rqs]
  by (simp add: app_booking_def booking_ok_def app_wired_def lock_wired_def)

definition sample_app :: "(bytes, bytes) AppState" where
  "sample_app = projr (new_app sample_platform DEMO_PROPERTY_ID [1, 2] init_db)"

lemma sample_app: "new_app sample_platform DEMO_PROPERTY_ID [1, 2] init_db = Inr sample_app"
  by (simp add: sample_app_def new_app_def new_authorizer_def)

theorem service_invariant_witness:
  "no_double_book (app_db (serve sample_platform
     [(sample_fresh, 1500, PostLockChallenge 101 [9]),
      (sample_fresh, 1510, PostGuest (lit ''ada'') \<lparr>gi_name = lit ''Ada'', gi_email = lit ''a@x''\<rparr>)]
     sample_app))"
  using service_invariant [OF sample_ed25519 sample_app] by blast

section \<open>Doors\<close>

text \<open>The lock a room has after a sync.\<close>

lemma create_lock_db: "create_lock P r app = (res, app') \<Longrightarrow> app_db app' = app_db app"
proof -
  assume run: "create_lock P r app = (res, app')"
  have "keeps (\<lambda>a. app_db a = app_db app) (create_lock P r)"
  proof -
    have db: "keeps (\<lambda>a. app_db a = app_db app) (with_db m)" if "\<And>d. keeps (\<lambda>x. x = d) m" for m :: "(db, 'x) exec"
      using that by (auto simp: keeps_def with_db_def split: prod.split) (metis snd_conv)
    show ?thesis
      unfolding create_lock_def
      by (intro keeps_bindE db keeps_any_reads) (auto simp: keeps_def split: sum.split)
  qed
  from keepsD [OF this refl run] show ?thesis by simp
qed

lemma lock_for_run:
  assumes "lock_for P r app = (Inr lk, app')"
  shows "map_of (app_locks app') r = Some lk" "app_db app' = app_db app"
proof -
  have "map_of (app_locks app') r = Some lk \<and> app_db app' = app_db app"
  proof (cases "map_of (app_locks app) r")
    case None
    then have c: "create_lock P r app = (Inr lk, app')" using assms by (simp add: lock_for_def)
    then have "map_of (app_locks app') r = Some lk"
      unfolding create_lock_def
      by (elim bindE_cases) (auto simp: map_of_update split: sum.splits)
    then show ?thesis using create_lock_db [OF c] by simp
  next
    case (Some lk')
    then show ?thesis using assms by (auto simp: lock_for_def)
  qed
  then show "map_of (app_locks app') r = Some lk" "app_db app' = app_db app" by simp_all
qed

lemma sync_lock_run:
  assumes "sync_lock P r app = (Inr u, app')"
  obtains lk where "lock_for P r app' = (Inr lk, app')" "lock_revoked lk = revoked_ids (app_db app)"
    "app_db app' = app_db app"
  using assms unfolding sync_lock_def
proof (elim bindE_cases; clarsimp)
  fix lk app1 rv app2
  assume lk: "lock_for P r app = (Inr lk, app1)" and rv: "with_db revocation_list app1 = (Inr rv, app2)"
    and app': "app' = set_lock r (sync_revocations rv lk) app2"
  have app2: "app2 = app1" "rv = map re_key_id (revocations (app_db app))"
    using rv lock_for_run(2) [OF lk] by (auto simp: with_db_def revocation_list_def)
  have "lock_for P r app' = (Inr (sync_revocations rv lk), app')"
    by (simp add: app' lock_for_def set_lock_def map_of_update)
  moreover have "lock_revoked (sync_revocations rv lk) = revoked_ids (app_db app)"
    by (simp add: sync_revocations_def app2 revoked_ids_def)
  moreover have "app_db app' = app_db app"
    using lock_for_run(2) [OF lk] by (simp add: app' set_lock_def app2)
  ultimately show thesis by (rule that)
qed

lemma respond_200:
  assumes "respond m s = (resp, s')" "http_status resp = 200"
  obtains data where "m s = (Inr data, s')" "http_data resp = Some data"
proof (cases "m s")
  case (Pair r t)
  then show ?thesis
    using assms that by (cases r) (auto simp: respond_def status_of_def split: exn.splits)
qed

text \<open>What the last step returns when it opens.\<close>

lemma unlock_step_opened:
  assumes "unlock_step P r token c resp now lk app = (Inr (JObj data), app')"
    and "map_of data (lit ''unlocked'') = Some (JBool True)"
  obtains p where "opens P lk token c resp now p"
    "app' = set_lock r (after_unlock c now lk) app"
    "map_of data (lit ''key_id'') = Some (JStr (py_str P (field p ''key_id'')))"
proof -
  obtain res lk' where f: "finish_unlock P token c resp now lk = (res, lk')" by force
  then show ?thesis
  proof (cases rule: finish_unlock_cases)
    case (opened p)
    then show ?thesis
      using assms that f by (auto simp: unlock_step_def decision_payload_def json_option_def)
  next
    case denied
    then show ?thesis using assms f by (auto simp: unlock_step_def decision_payload_def)
  next
    case raised
    then show ?thesis using assms f by (auto simp: unlock_step_def)
  qed
qed

lemma lift_result_run:
  "lift_result x s = (Inr y, s') \<Longrightarrow> x = Inr y \<and> s' = s"
  by (cases x) (auto simp: lift_result_def)

text \<open>
  C2: An open door. Whenever the unlock route answers that a door opened, the presented
  token carries a payload under the property's signature that admits this room at the
  request's time and whose key is not revoked in the database at that moment, and the
  response is the device's signature of the challenge; the database is untouched.
\<close>

theorem open_door:
  assumes "ed25519 P" "new_app P prop sk init_db = Inr app0"
    and "handle P f clock (PostLockUnlock room body) (serve P rqs app0) =
      (\<lparr>http_status = 200, http_data = Some (JObj data)\<rparr>, app')"
    and "map_of data (lit ''unlocked'') = Some (JBool True)"
  shows "app_db app' = app_db (serve P rqs app0) \<and>
    (\<exists>p c r q. b64u_decode (ul_challenge_b64 body) = Inr c \<and> b64u_decode (ul_response_b64 body) = Inr r \<and>
       token_carries P (public_key P sk) (ul_token body) p \<and>
       static_ok P p q room (now_of (ul_now body) clock)
         (re_key_id ` set (revocations (app_db (serve P rqs app0)))) \<and>
       verify_device_response P (field p ''device_pub'') c r = Inr True)"
proof -
  let ?app = "serve P rqs app0"
  have wired: "app_wired P sk ?app" by (rule serve_wired [OF assms(1) app_wired_init [OF assms(1,2)]])
  have "respond (lock_unlock P room body clock) ?app =
      (\<lparr>http_status = 200, http_data = Some (JObj data)\<rparr>, app')"
    using assms(3) by (simp add: handle_def)
  then have run: "lock_unlock P room body clock ?app = (Inr (JObj data), app')"
    by (rule respond_200) auto
  then obtain app1 where sync: "sync_lock P room ?app = (Inr (), app1)"
    and rest: "bindE (lock_for P room)
          (\<lambda>lk. bindE (lift_result (api_b64d (ul_challenge_b64 body)))
             (\<lambda>challenge. bindE (lift_result (api_b64d (ul_response_b64 body)))
                (\<lambda>response. unlock_step P room (ul_token body) challenge response
                   (now_of (ul_now body) clock) lk))) app1 = (Inr (JObj data), app')"
    unfolding lock_unlock_def by (elim thenE_cases) auto
  obtain lk where lk: "lock_for P room app1 = (Inr lk, app1)"
    "lock_revoked lk = revoked_ids (app_db ?app)" "app_db app1 = app_db ?app"
    by (rule sync_lock_run [OF sync])
  have w1: "app_wired P sk app1" by (rule keepsD [OF wired_sync_lock [OF assms(1)] wired sync])
  have w: "lock_wired P sk room lk" by (rule lock_for_wired [OF assms(1) w1 lk(1)])
  obtain c r where cr: "api_b64d (ul_challenge_b64 body) = Inr c" "api_b64d (ul_response_b64 body) = Inr r"
    and step: "unlock_step P room (ul_token body) c r (now_of (ul_now body) clock) lk app1 =
      (Inr (JObj data), app')"
    using rest lk(1) by (auto elim!: bindE_cases dest!: lift_result_run)
  from step assms(4) obtain p where p: "opens P lk (ul_token body) c r (now_of (ul_now body) clock) p"
    "app' = set_lock room (after_unlock c (now_of (ul_now body) clock) lk) app1"
    by (rule unlock_step_opened)
  then show ?thesis
    using cr w lk(2,3)
    by (auto simp: opens_def api_b64d_def lock_wired_def revoked_ids_def set_lock_def)
qed

text \<open>A door of a fresh application: its challenge at 1500, its unlock at 1510.\<close>

definition sample_asked_app :: "(bytes, bytes) AppState" where
  "sample_asked_app = serve sample_platform [(sample_fresh, 1500, PostLockChallenge 101 [9])] sample_app"

definition sample_body :: UnlockIn where
  "sample_body = \<lparr>ul_now = None, ul_token = ik_token sample_issued,
     ul_challenge_b64 = b64u_encode [9], ul_response_b64 = b64u_encode [7, 7, 9]\<rparr>"

lemma sample_app_simps [simp]:
  "app_locks sample_app = []" "app_db sample_app = init_db"
  "app_property_pub_raw sample_app = [1, 2]" "app_property_id sample_app = DEMO_PROPERTY_ID"
  by (simp_all add: sample_app_def new_app_def new_authorizer_def property_public_raw_def)

lemma sample_asked_locks:
  "map_of (app_locks sample_asked_app) 101 = Some sample_asked"
  "app_db sample_asked_app = init_db"
proof -
  have "new_lock sample_platform DEMO_PROPERTY_ID 101 [1, 2] [] = Inr sample_lock"
    using sample_run_log(1) by (simp add: DEMO_PROPERTY_ID_def)
  then have "lock_for sample_platform 101 sample_app =
      (Inr sample_lock, sample_app\<lparr>app_locks := [(101, sample_lock)]\<rparr>)"
    by (simp add: lock_for_def create_lock_def with_db_def get_room_def revocation_list_def fits_def
        init_db_def)
  then have "lock_challenge sample_platform [9] 101 1500 sample_app =
      (Inr (JObj [(lit ''challenge_b64'', JStr (b64u_encode [9]))]),
       set_lock 101 sample_asked (sample_app\<lparr>app_locks := [(101, sample_lock)]\<rparr>))"
    by (simp add: lock_challenge_def sample_asked_def)
  then have asked: "sample_asked_app = set_lock 101 sample_asked (sample_app\<lparr>app_locks := [(101, sample_lock)]\<rparr>)"
    by (simp add: sample_asked_app_def serve_def handle_def respond_def)
  show "map_of (app_locks sample_asked_app) 101 = Some sample_asked"
    "app_db sample_asked_app = init_db"
    unfolding asked by (simp_all add: set_lock_def map_of_update)
qed

lemma sample_door:
  "\<exists>app'. handle sample_platform sample_fresh 1510 (PostLockUnlock 101 sample_body) sample_asked_app =
     (\<lparr>http_status = 200, http_data = Some (JObj (decision_payload (unlock (lit ''5f1e''))))\<rparr>, app')"
proof -
  have sync: "sync_lock sample_platform 101 sample_asked_app =
      (Inr (), set_lock 101 (sync_revocations [] sample_asked) sample_asked_app)"
    by (simp add: sync_lock_def lock_for_def sample_asked_locks with_db_revocations)
      (simp add: init_db_def)
  have lk: "lock_for sample_platform 101 (set_lock 101 (sync_revocations [] sample_asked) sample_asked_app) =
      (Inr (sync_revocations [] sample_asked),
       set_lock 101 (sync_revocations [] sample_asked) sample_asked_app)"
    by (simp add: lock_for_def set_lock_def map_of_update)
  have "sync_revocations [] sample_asked = sample_asked"
    by (simp add: sync_revocations_def sample_asked_def begin_unlock_def sample_lock_def)
  then show ?thesis
    using sync lk sample_unlock
    by (simp add: handle_def respond_def lock_unlock_def sample_body_def api_b64d_def
        b64u_decode_encode lift_result_def unlock_step_def now_of_def bindE_def thenE_def)
qed

theorem open_door_witness:
  "\<exists>p. token_carries sample_platform [1, 2] (ik_token sample_issued) p \<and>
     verify_device_response sample_platform (field p ''device_pub'') [9] [7, 7, 9] = Inr True"
proof -
  obtain app' where run: "handle sample_platform sample_fresh 1510 (PostLockUnlock 101 sample_body)
      (serve sample_platform [(sample_fresh, 1500, PostLockChallenge 101 [9])] sample_app) =
     (\<lparr>http_status = 200, http_data = Some (JObj (decision_payload (unlock (lit ''5f1e''))))\<rparr>, app')"
    using sample_door unfolding sample_asked_app_def by blast
  have "map_of (decision_payload (unlock (lit ''5f1e''))) (lit ''unlocked'') = Some (JBool True)"
    by (simp add: decision_payload_def)
  from open_door [OF sample_ed25519 sample_app run this] show ?thesis
    by (auto simp: sample_body_def b64u_decode_encode)
qed

section \<open>Check-in\<close>

text \<open>The status and the issuance of a check-in.\<close>

lemma with_status_row:
  "s \<in> set (stays d) \<Longrightarrow> s\<lparr>st_status := x\<rparr> \<in> set (stays (with_status (st_stay_id s) x d))"
  by (force simp: with_status_def set_update_where)

lemma checkin_run:
  assumes "db_ok (app_db app)" "s \<in> set (stays (app_db app))"
  shows "checkin P f (st_stay_id s) clock app =
    bindE (with_db (issue_for_stay P f (app_property_sk app) (st_stay_id s) clock))
      (\<lambda>issued. ret (key_payload issued))
      (app\<lparr>app_db := with_status (st_stay_id s) CHECKED_IN (app_db app)\<rparr>)"
    and "db_ok (with_status (st_stay_id s) CHECKED_IN (app_db app))"
proof -
  have c: "clean (st_stay_id s)" using assms by (simp add: db_ok_defs)
  have st: "set_stay_status (st_stay_id s) CHECKED_IN (app_db app) =
      (Inr (), with_status (st_stay_id s) CHECKED_IN (app_db app))"
    by (simp add: set_status_exec c)
  show "db_ok (with_status (st_stay_id s) CHECKED_IN (app_db app))"
    by (rule keepsD [OF keeps_set_stay_status assms(1) st])
  show "checkin P f (st_stay_id s) clock app =
    bindE (with_db (issue_for_stay P f (app_property_sk app) (st_stay_id s) clock))
      (\<lambda>issued. ret (key_payload issued))
      (app\<lparr>app_db := with_status (st_stay_id s) CHECKED_IN (app_db app)\<rparr>)"
    using with_db_read [of "get_stay (st_stay_id s)" app, OF get_stay_row [OF assms]]
      with_db_run [where m = "set_stay_status (st_stay_id s) CHECKED_IN" and app = app, OF st]
    by (simp add: checkin_def)
qed

text \<open>
  C30: Check-in after check-out. The check-in route does not look at the status of the
  stay: a guest who has checked out is checked in again and gets a key that opens the
  room the stay once had, whoever holds it now.
\<close>

theorem checked_out_guest_gets_key:
  assumes "ed25519 P" "db_ok (app_db app)" "s \<in> set (stays (app_db app))"
    and "st_status s = CHECKED_OUT" "st_room_id s = Some room" "fits clock" "fresh_ok f"
    and "st_check_in s < min (st_check_out s) (clock + KEY_TTL_SECONDS)"
    and "fresh_uuid f \<notin> ke_key_id ` set (keys (app_db app))"
    and "lock_property_pub lk = public_key P (app_property_sk app)"
    and "lock_property_id lk = st_property_id s" "lock_room_id lk = room"
    and "check (lock_challenges lk) c t = OK" "fresh_uuid f \<notin> lock_revoked lk"
    and "st_check_in s \<le> t" "t \<le> st_check_out s" "t \<le> clock + KEY_TTL_SECONDS"
  shows "\<exists>ik app' response k. handle P f clock (PostCheckin (st_stay_id s)) app =
      (\<lparr>http_status = 200, http_data = Some (key_payload ik)\<rparr>, app') \<and>
    active_rows (app_db app') = active_rows (app_db app) \<and>
    device_sign P (ik_device_sk_b64 ik) c = Inr response \<and>
    fst (finish_unlock P (ik_token ik) c response t lk) = Inr (unlock k)"
proof -
  let ?i = "st_stay_id s" and ?s = "s\<lparr>st_status := CHECKED_IN\<rparr>"
  let ?d = "with_status (st_stay_id s) CHECKED_IN (app_db app)"
  note run = checkin_run [OF assms(2,3)]
  have s: "?s \<in> set (stays ?d)" by (rule with_status_row [OF assms(3)])
  have new: "fresh_uuid f \<notin> ke_key_id ` set (keys ?d)" using assms(9) by (simp add: with_status_def)
  have win: "st_room_id ?s = Some room" "st_check_in ?s < min (st_check_out ?s) (clock + KEY_TTL_SECONDS)"
    using assms(5,8) by simp_all
  obtain ik where ik: "issue_credential P f (app_property_sk app) (stay_args f ?s room clock) = Inr ik"
    "issue_for_stay P f (app_property_sk app) (st_stay_id ?s) clock ?d =
      (Inr ik, ?d\<lparr>keys := keys ?d @ [issued_row ik ?s room clock]\<rparr>)"
    by (rule issue_for_stay_ok [OF run(2) s win(1) assms(6,7) win(2) new])
  let ?d' = "?d\<lparr>keys := keys ?d @ [issued_row ik ?s room clock]\<rparr>"
  have "handle P f clock (PostCheckin ?i) app =
      (\<lparr>http_status = 200, http_data = Some (key_payload ik)\<rparr>, app\<lparr>app_db := ?d'\<rparr>)"
    using with_db_run [of "issue_for_stay P f (app_property_sk app) ?i clock" "app\<lparr>app_db := ?d\<rparr>"] ik(2)
    by (simp add: handle_def respond_def run(1))
  moreover have "active_rows ?d' = active_rows (app_db app)"
    by (rule active_rows_cong) (simp add: with_status_def)
  moreover have resp: "device_sign P (ik_device_sk_b64 ik) c = Inr (sign P (fresh_sk f) c)"
    using device_sign_issued [OF assms(1) ik(1)] by simp
  moreover have "\<exists>k. fst (finish_unlock P (ik_token ik) c (sign P (fresh_sk f) c) t lk) = Inr (unlock k)"
    using stay_key_decision [OF assms(1) run(2) assms(7) ik(2) s assms(10,13) resp] assms(5,11-17)
      stay_key_id [OF ik(1)] by simp
  ultimately show ?thesis by fastforce
qed

text \<open>Ada checked out at 1500; Ben has had room 101 since. At 1505 she checks in again.\<close>

definition ben :: stay_row where
  "ben = hotel_stay ''s_ben'' ''g_ben'' 1000 90000"

definition ben_hotel :: db where
  "ben_hotel = booked ben 101 (checked_out_db (lit ''s_ada'') 1500 ada_keyed)"

definition ada_out :: stay_row where
  "ada_out = ada_in\<lparr>st_status := CHECKED_OUT\<rparr>"

lemma ben_hotel [simp]:
  "db_ok ben_hotel" "ada_out \<in> set (stays ben_hotel)"
  "ke_key_id ` set (keys ben_hotel) = {lit ''5f1e''}"
  "latest_active ben_hotel 101 = Some \<lparr>as_id = assign_seq ada_keyed + 1, as_room_id = 101,
     as_stay_id = lit ''s_ben'', as_check_in = 1000, as_check_out = 90000, as_active = True\<rparr>"
proof -
  let ?gone = "checked_out_db (lit ''s_ada'') 1500 ada_keyed"
  have out: "checkout (lit ''s_ada'') 1500 ada_keyed = (Inr [lit ''5f1e''], ?gone)"
    using checkout_exec [OF ada_keyed(1,2), of 1500] by (simp add: fits_def)
  have ok: "db_ok ?gone" by (rule keepsD [OF keeps_checkout_db ada_keyed(1) out])
  have rows: "ada_out \<in> set (stays ?gone)" "ben \<in> set (stays ?gone)" "rooms ?gone = rooms hotel"
    using ada_keyed(2) ada_keyed(7)
    by (force simp: ada_out_def ben_def checked_out_db_def with_status_def set_update_where)+
  have seq: "assign_seq ?gone = assign_seq ada_keyed"
    by (simp add: checked_out_db_def with_status_def retire_def revoked_db_def lapse_keys_def
        put_revocation_def)
  show "db_ok ben_hotel" unfolding ben_hotel_def
    by (rule db_ok_booked [OF ok stay_known_read [OF ok rows(2)]]) (simp add: rows(3))
  show "ada_out \<in> set (stays ben_hotel)"
    using rows(1) by (simp add: ben_hotel_def booked_def with_room_def put_assignment_def
        in_update_where ada_out_def ben_def)
  have "ke_key_id ` set (keys ada_keyed) = {lit ''5f1e''}" by (rule ada_keyed_ids)
  then show "ke_key_id ` set (keys ben_hotel) = {lit ''5f1e''}"
    by (simp add: ben_hotel_def booked_def with_room_def put_assignment_def)
  show "latest_active ben_hotel 101 = Some \<lparr>as_id = assign_seq ada_keyed + 1, as_room_id = 101,
     as_stay_id = lit ''s_ben'', as_check_in = 1000, as_check_out = 90000, as_active = True\<rparr>"
    by (simp add: latest_active_def ben_hotel_def booked_def with_room_def put_assignment_def seq)
      (simp add: checked_out_db_def with_status_def retire_def update_where_def ben_def)
qed

theorem checked_out_guest_gets_key_witness:
  "as_stay_id (the (latest_active ben_hotel 101)) = lit ''s_ben'' \<and>
   (\<exists>ik app' response k. handle sample_platform other_fresh 1505 (PostCheckin (lit ''s_ada''))
      (sample_app\<lparr>app_db := ben_hotel\<rparr>) =
      (\<lparr>http_status = 200, http_data = Some (key_payload ik)\<rparr>, app') \<and>
    fst (finish_unlock sample_platform (ik_token ik) [9] response 1510 sample_asked) = Inr (unlock k))"
proof -
  let ?app = "sample_app\<lparr>app_db := ben_hotel\<rparr>"
  have sk: "app_property_sk ?app = [1, 2]"
    by (simp add: sample_app_def new_app_def new_authorizer_def)
  have times: "fits 1505" "st_check_in ada_out < min (st_check_out ada_out) (1505 + KEY_TTL_SECONDS)"
    by (simp_all add: fits_def ada_out_def KEY_TTL_SECONDS_def)
  have "\<exists>ik app' response k. handle sample_platform other_fresh 1505 (PostCheckin (st_stay_id ada_out)) ?app =
      (\<lparr>http_status = 200, http_data = Some (key_payload ik)\<rparr>, app') \<and>
    active_rows (app_db app') = active_rows (app_db ?app) \<and>
    device_sign sample_platform (ik_device_sk_b64 ik) [9] = Inr response \<and>
    fst (finish_unlock sample_platform (ik_token ik) [9] response 1510 sample_asked) = Inr (unlock k)"
    by (rule checked_out_guest_gets_key [OF sample_ed25519 _ _ _ _ times(1) other_fresh_ok(1) times(2)])
      (simp_all add: sk, simp_all add: ada_out_def KEY_TTL_SECONDS_def)
  then show ?thesis by (auto simp: ada_out_def)
qed

section \<open>Requests that fail half way\<close>

lemma clean_short_id: "clean hex \<Longrightarrow> clean (short_id prefix hex)"
  using clean_lit [of prefix] by (auto simp: clean_def short_id_def list_all_iff dest: in_set_takeD)

text \<open>A statement that inserts a row does so, or raises something else than a full house.\<close>

lemma insert_outcome:
  assumes "execute ps (insert_if ok put) d = (r, d')"
  obtains "r = Inr ()" "d' = put d" | e where "r = Inl e" "e \<noteq> RoomUnavailableError"
proof -
  have builtin: "first_error vs = Some e \<Longrightarrow> e \<noteq> RoomUnavailableError" for vs e
    by (induction vs) (auto simp: bind_error_def split: sql_value.splits option.splits if_splits)
  show ?thesis
    using assms that builtin [of ps]
    by (cases ps "insert_if ok put" rule: execute_cases) (auto simp: insert_if_def raise_def split: if_splits)
qed

lemma assign_room_raises:
  assumes "assign_room i w d = (Inl e, d')"
  shows "d' = d"
proof -
  have txn: "assign_txn s w d = (Inl e, d') \<Longrightarrow> d' = d" for s
    by (simp add: assign_txn_def transaction_def split: prod.splits sum.splits)
  obtain res d1 where g: "get_stay i d = (res, d1)" by force
  show ?thesis
  proof (cases rule: get_stay_cases [OF g])
    case (1 e')
    then show ?thesis using assms g by (simp add: assign_room_def)
  next
    case 2
    then show ?thesis using assms g by (simp add: assign_room_def)
  next
    case (3 s)
    then show ?thesis using assms g txn [of s] by (cases "st_room_id s") (auto simp: assign_room_def)
  qed
qed

lemma reserving_guest_brought:
  assumes "reserving_guest gu body d = (r, d')" "rv_guest_id body = None"
  obtains e where "r = Inl e" "e \<noteq> RoomUnavailableError"
    | g where "rv_guest body = Some g" "r = Inr (short_id ''g_'' gu)"
      "d' = d\<lparr>guests := guests d @ [\<lparr>gu_guest_id = short_id ''g_'' gu, gu_name = gi_name g, gu_email = gi_email g\<rparr>]\<rparr>"
proof (cases "rv_guest body")
  case None
  then show ?thesis using assms that(1) by (auto simp: reserving_guest_def raise_def)
next
  case (Some g)
  then have "thenE (add_guest (short_id ''g_'' gu) (gi_name g) (gi_email g)) (ret (short_id ''g_'' gu)) d = (r, d')"
    using assms by (simp add: reserving_guest_def Let_def)
  then show ?thesis
  proof (cases rule: thenE_cases)
    case (raised e)
    show ?thesis using raised(1) unfolding add_guest_def
      by (cases rule: insert_outcome) (use raised(2) that(1) in auto)
  next
    case (returned x d1)
    show ?thesis using returned(1) unfolding add_guest_def
      by (cases rule: insert_outcome) (use returned(2) Some that(2) in auto)
  qed
qed

text \<open>
  C31: A failed reservation leaves rows. A reservation that brings its guest and is answered
  409, for whatever room is asked for and why ever it is not to be had, has put the new
  guest and a stay without a room into the database and does not take them out again.
\<close>

theorem failed_reservation_leaves_rows:
  assumes "handle P f clock (PostReservation gu su body) app = (answer, app')"
    and "http_status answer = 409" "rv_guest_id body = None"
  shows "\<exists>g. rv_guest body = Some g \<and>
    guests (app_db app') = guests (app_db app) @
      [\<lparr>gu_guest_id = short_id ''g_'' gu, gu_name = gi_name g, gu_email = gi_email g\<rparr>] \<and>
    stays (app_db app') = stays (app_db app) @
      [\<lparr>st_stay_id = short_id ''s_'' su, st_guest_id = short_id ''g_'' gu,
        st_property_id = app_property_id app, st_room_type = rv_room_type body, st_room_id = None,
        st_check_in = rv_check_in body, st_check_out = rv_check_out body, st_status = lit ''reserved''\<rparr>] \<and>
    assignments (app_db app') = assignments (app_db app)"
proof -
  let ?d = "app_db app" and ?gi = "short_id ''g_'' gu" and ?si = "short_id ''s_'' su"
  have run: "reserve gu su body app = (Inl RoomUnavailableError, app')"
    using assms(1,2)
    by (auto simp: handle_def validated_def respond_def status_of_def split: if_splits prod.splits sum.splits exn.splits)
  obtain r1 d1 where guest: "reserving_guest gu body ?d = (r1, d1)" by force
  show ?thesis
  proof (cases rule: reserving_guest_brought [OF guest assms(3)])
    case (1 e)
    then show ?thesis using run guest by (simp add: reserve_def with_db_def bindE_def)
  next
    case (2 g)
    obtain r2 d2 where stay: "add_stay ?si ?gi (app_property_id app) (rv_room_type body) (rv_check_in body)
        (rv_check_out body) d1 = (r2, d2)" by force
    obtain r3 d3 where room: "assign_room ?si (rv_preferred_room_id body) d2 = (r3, d3)" by force
    from stay [unfolded add_stay_def] show ?thesis
    proof (rule insert_outcome)
      assume 1: "r2 = Inr ()" "d2 = d1\<lparr>stays := stays d1 @
        [\<lparr>st_stay_id = ?si, st_guest_id = ?gi, st_property_id = app_property_id app,
          st_room_type = rv_room_type body, st_room_id = None, st_check_in = rv_check_in body,
          st_check_out = rv_check_out body, st_status = lit ''reserved''\<rparr>]\<rparr>"
      then have full: "r3 = Inl RoomUnavailableError" "app_db app' = d3"
        using run guest stay room 2 by (auto simp: reserve_def with_db_def Let_def bindE_def thenE_def split: sum.splits)
      have "d3 = d2" by (rule assign_room_raises [OF room [unfolded full(1)]])
      then show ?thesis using 1(2) 2 full(2) by simp
    next
      fix e assume "r2 = Inl e" "e \<noteq> RoomUnavailableError"
      then show ?thesis
        using run guest stay 2 by (simp add: reserve_def with_db_def Let_def bindE_def thenE_def)
    qed
  qed
qed

text \<open>A king room in a property without rooms.\<close>

definition sample_reservation :: ReservationIn where
  "sample_reservation = \<lparr>rv_guest_id = None,
     rv_guest = Some \<lparr>gi_name = lit ''Ada'', gi_email = lit ''a@x''\<rparr>, rv_room_type = lit ''king'',
     rv_check_in = 1000, rv_check_out = 90000, rv_preferred_room_id = None\<rparr>"

theorem failed_reservation_leaves_rows_witness:
  "\<exists>app' :: (bytes, bytes) AppState. handle sample_platform sample_fresh 900
      (PostReservation (lit ''01'') (lit ''02'') sample_reservation) sample_app =
      (\<lparr>http_status = 409, http_data = None\<rparr>, app') \<and>
    length (guests (app_db app')) = 1 \<and> length (stays (app_db app')) = 1"
proof -
  obtain answer and app' :: "(bytes, bytes) AppState" where run: "handle sample_platform sample_fresh 900
      (PostReservation (lit ''01'') (lit ''02'') sample_reservation) sample_app = (answer, app')"
    by force
  let ?gi = "short_id ''g_'' (lit ''01'')" and ?si = "short_id ''s_'' (lit ''02'')"
  let ?d1 = "init_db\<lparr>guests := [\<lparr>gu_guest_id = ?gi, gu_name = lit ''Ada'', gu_email = lit ''a@x''\<rparr>]\<rparr>"
  let ?stay = "\<lparr>st_stay_id = ?si, st_guest_id = ?gi, st_property_id = DEMO_PROPERTY_ID,
    st_room_type = lit ''king'', st_room_id = None, st_check_in = 1000, st_check_out = 90000,
    st_status = lit ''reserved''\<rparr>"
  have ids: "clean ?gi" "clean ?si" by (simp_all add: clean_short_id)
  have guest: "reserving_guest (lit ''01'') sample_reservation init_db = (Inr ?gi, ?d1)"
    using ids by (simp add: reserving_guest_def sample_reservation_def Let_def add_guest_def insert_if_def init_db_def)
  have stay: "add_stay ?si ?gi (DEMO_PROPERTY_ID) (lit ''king'') 1000 90000 ?d1 =
      (Inr (), ?d1\<lparr>stays := [?stay]\<rparr>)"
    using ids by (simp add: add_stay_def insert_if_def fits_def init_db_def DEMO_PROPERTY_ID_def)
  have room: "assign_room ?si None (?d1\<lparr>stays := [?stay]\<rparr>) = (Inl RoomUnavailableError, ?d1\<lparr>stays := [?stay]\<rparr>)"
    using ids by (simp add: assign_room_def get_stay_def fetchone_def assign_txn_def transaction_def candidate_rooms_def init_db_def
        DEMO_PROPERTY_ID_def)
  have "valid_reservation sample_reservation"
    by (simp add: valid_reservation_def sample_reservation_def valid_guest_def sized_def lit_def)
  moreover have "rv_room_type sample_reservation = lit ''king''" "rv_check_in sample_reservation = 1000"
    "rv_check_out sample_reservation = 90000" "rv_preferred_room_id sample_reservation = None"
    by (simp_all add: sample_reservation_def)
  moreover from this have "reserve (lit ''01'') (lit ''02'') sample_reservation sample_app =
      (Inl RoomUnavailableError, sample_app\<lparr>app_db := ?d1\<lparr>stays := [?stay]\<rparr>\<rparr>)"
    using with_db_run [where m = "reserving_guest (lit ''01'') sample_reservation" and app = sample_app and
        r = "Inr ?gi" and d = ?d1] guest
      with_db_run [where app = "sample_app\<lparr>app_db := ?d1\<rparr>" and d = "?d1\<lparr>stays := [?stay]\<rparr>" and r = "Inr ()" and
        m = "add_stay ?si ?gi (DEMO_PROPERTY_ID) (lit ''king'') 1000 90000"]
      with_db_run [where m = "assign_room ?si None" and app = "sample_app\<lparr>app_db := ?d1\<lparr>stays := [?stay]\<rparr>\<rparr>" and
        d = "?d1\<lparr>stays := [?stay]\<rparr>" and r = "Inl RoomUnavailableError"] stay room
    by (simp add: reserve_def Let_def)
  ultimately have "answer = \<lparr>http_status = 409, http_data = None\<rparr>"
    using run by (simp add: handle_def validated_def respond_def status_of_def)
  moreover from this failed_reservation_leaves_rows [OF run] have "length (guests (app_db app')) = 1"
      "length (stays (app_db app')) = 1"
    by (auto simp: sample_reservation_def init_db_def)
  ultimately show ?thesis using run by auto
qed

text \<open>
  C32: A refused check-in checks in. For a stay without a room the check-in route answers
  400, but the stay is marked checked in.
\<close>

theorem refused_checkin_checks_in:
  assumes "db_ok (app_db app)" "s \<in> set (stays (app_db app))" "st_room_id s = None"
  shows "\<exists>app'. handle P f clock (PostCheckin (st_stay_id s)) app =
      (\<lparr>http_status = 400, http_data = None\<rparr>, app') \<and>
    s\<lparr>st_status := CHECKED_IN\<rparr> \<in> set (stays (app_db app'))"
proof -
  let ?d = "with_status (st_stay_id s) CHECKED_IN (app_db app)"
  note run = checkin_run [OF assms(1,2)]
  have s: "s\<lparr>st_status := CHECKED_IN\<rparr> \<in> set (stays ?d)" by (rule with_status_row [OF assms(2)])
  have "issue_for_stay P f (app_property_sk app) (st_stay_id s) clock ?d = (Inl ValidationError, ?d)"
    using get_stay_row [OF run(2) s] assms(3) by (simp add: issue_for_stay_def)
  then have "with_db (issue_for_stay P f (app_property_sk app) (st_stay_id s) clock)
      (app\<lparr>app_db := ?d\<rparr>) = (Inl ValidationError, app\<lparr>app_db := ?d\<rparr>)"
    by (intro with_db_read) simp
  then have "handle P f clock (PostCheckin (st_stay_id s)) app =
      (\<lparr>http_status = 400, http_data = None\<rparr>, app\<lparr>app_db := ?d\<rparr>)"
    by (simp add: handle_def respond_def run(1) status_of_def)
  then show ?thesis using s by fastforce
qed

theorem refused_checkin_checks_in_witness:
  "http_status (fst (handle sample_platform sample_fresh 1500 (PostCheckin (lit ''s_ben''))
     (sample_app\<lparr>app_db := hotel\<rparr>))) = 400"
  using refused_checkin_checks_in [of "sample_app\<lparr>app_db := hotel\<rparr>" ben sample_platform sample_fresh 1500]
  by (auto simp: ben_def)

text \<open>
  Malformed base64 is a server error. A control request whose challenge or response
  is not base64 text is answered 500, not with a 4xx envelope, and changes nothing.
\<close>

theorem malformed_base64_is_500:
  assumes "valid_control body"
    and "b64u_decode (ul_challenge_b64 body) = Inl e \<or> b64u_decode (ul_response_b64 body) = Inl e"
  shows "handle P f clock (PostRoomControl room body) app =
    (\<lparr>http_status = 500, http_data = None\<rparr>, app)"
proof -
  have err: "b64u_decode x = Inl e' \<Longrightarrow> e' = ValueError" for x e'
    by (auto simp: b64u_decode_def urlsafe_b64decode_def Let_def split: option.splits if_splits)
  show ?thesis
  proof (cases "b64u_decode (ul_challenge_b64 body)")
    case (Inl e')
    then show ?thesis using err [OF Inl]
      by (simp add: handle_def validated_def assms(1) respond_def room_control_def api_b64d_def
          lift_result_def status_of_def)
  next
    case (Inr c)
    then have bad: "b64u_decode (ul_response_b64 body) = Inl e" using assms(2) by simp
    show ?thesis using Inr bad err [OF bad]
      by (simp add: handle_def validated_def assms(1) respond_def room_control_def api_b64d_def
          lift_result_def status_of_def)
  qed
qed

theorem malformed_base64_is_500_witness:
  "handle sample_platform sample_fresh 1500 (PostRoomControl 101
     \<lparr>ul_now = None, ul_token = [], ul_challenge_b64 = lit ''A'', ul_response_b64 = [],
      ct_command = lit ''tv''\<rparr>) sample_app = (\<lparr>http_status = 500, http_data = None\<rparr>, sample_app)"
proof (rule malformed_base64_is_500 [where e = ValueError])
  show "valid_control \<lparr>ul_now = None, ul_token = [], ul_challenge_b64 = lit ''A'', ul_response_b64 = [],
      ct_command = lit ''tv''\<rparr>" by (simp add: valid_control_def sized_def lit_def)
  have "b64u_decode (lit ''A'') = Inl ValueError"
    by (simp add: lit_def b64u_decode_def urlsafe_b64decode_def sextet_def PAD_def Let_def numeral_3_eq_3)
  then show "b64u_decode (ul_challenge_b64 \<lparr>ul_now = None, ul_token = [], ul_challenge_b64 = lit ''A'',
      ul_response_b64 = [], ct_command = lit ''tv''\<rparr>) = Inl ValueError \<or>
    b64u_decode (ul_response_b64 \<lparr>ul_now = None, ul_token = [], ul_challenge_b64 = lit ''A'',
      ul_response_b64 = [], ct_command = lit ''tv''\<rparr>) = Inl ValueError" by simp
qed

end
