(* ===== verification/Store_Ledger.thy ===== *)
theory Store_Ledger
  imports Antireplay
begin

text \<open>
  The challenge store against its abstract specification, a ledger that records every
  challenge ever issued and every one spent and forgets nothing. The store collects
  garbage at every issue; the simulation shows that no decision depends on it.
\<close>

section \<open>The ledger\<close>

record challenge_ledger =
  led_issued :: "bytes \<Rightarrow> time option"
  led_spent :: "bytes set"

datatype store_op =
    OpIssue bytes time
  | OpAccept bytes time

definition op_time :: "store_op \<Rightarrow> time" where
  "op_time x = (case x of OpIssue c t \<Rightarrow> t | OpAccept c t \<Rightarrow> t)"

definition issues :: "store_op list \<Rightarrow> bytes list" where
  "issues xs = concat (map (\<lambda>x. case x of OpIssue c t \<Rightarrow> [c] | OpAccept c t \<Rightarrow> []) xs)"

definition live :: "int \<Rightarrow> challenge_ledger \<Rightarrow> bytes \<Rightarrow> time \<Rightarrow> bool" where
  "live l g c now \<longleftrightarrow>
     c \<notin> led_spent g \<and> (case led_issued g c of None \<Rightarrow> False | Some t \<Rightarrow> now - t \<le> l)"

text \<open>An acceptance is a challenge found live and then spent, as the lock does it.\<close>

definition ledger_step :: "int \<Rightarrow> store_op \<Rightarrow> challenge_ledger \<Rightarrow> challenge_ledger" where
  "ledger_step l x g =
     (case x of
        OpIssue c t \<Rightarrow> g\<lparr>led_issued := (led_issued g)(c \<mapsto> t)\<rparr>
      | OpAccept c t \<Rightarrow> if live l g c t then g\<lparr>led_spent := insert c (led_spent g)\<rparr> else g)"

definition store_step :: "store_op \<Rightarrow> ChallengeStore \<Rightarrow> ChallengeStore" where
  "store_step x s =
     (case x of
        OpIssue c t \<Rightarrow> issue c t s
      | OpAccept c t \<Rightarrow> if check s c t = OK then consume c t s else s)"

definition empty_ledger :: challenge_ledger where
  "empty_ledger = \<lparr>led_issued = Map.empty, led_spent = {}\<rparr>"

section \<open>The simulation\<close>

text \<open>
  \<open>T\<close> is the time of the last step. Entries past their lifetime may be missing from the
  store; nothing else may, and nothing else may be in it.
\<close>

definition represents :: "int \<Rightarrow> time \<Rightarrow> challenge_ledger \<Rightarrow> ChallengeStore \<Rightarrow> bool" where
  "represents l T g s \<longleftrightarrow>
     store_inv s \<and> ttl s = l \<and>
     (\<forall>c t. map_of (pending s) c = Some t \<longrightarrow> led_issued g c = Some t \<and> c \<notin> led_spent g) \<and>
     (\<forall>c t. led_issued g c = Some t \<and> c \<notin> led_spent g \<and> T - t \<le> l \<longrightarrow>
        map_of (pending s) c = Some t) \<and>
     (\<forall>c. map_of (consumed s) c \<noteq> None \<longrightarrow> c \<in> led_spent g) \<and>
     (\<forall>c \<in> led_spent g. led_issued g c \<noteq> None)"

lemma representsD:
  assumes "represents l T g s"
  shows "store_inv s" "ttl s = l"
    and "map_of (pending s) c = Some t \<Longrightarrow> led_issued g c = Some t"
    and "map_of (pending s) c = Some t \<Longrightarrow> c \<notin> led_spent g"
    and "led_issued g c = Some t \<Longrightarrow> c \<notin> led_spent g \<Longrightarrow> T - t \<le> l \<Longrightarrow> map_of (pending s) c = Some t"
    and "c \<notin> led_spent g \<Longrightarrow> map_of (consumed s) c = None"
    and "c \<in> led_spent g \<Longrightarrow> led_issued g c \<noteq> None"
  using assms unfolding represents_def by blast+

lemma representsI:
  assumes "store_inv s" "ttl s = l"
    and "\<And>c t. map_of (pending s) c = Some t \<Longrightarrow> led_issued g c = Some t \<and> c \<notin> led_spent g"
    and "\<And>c t. led_issued g c = Some t \<Longrightarrow> c \<notin> led_spent g \<Longrightarrow> T - t \<le> l \<Longrightarrow>
      map_of (pending s) c = Some t"
    and "\<And>c. map_of (consumed s) c \<noteq> None \<Longrightarrow> c \<in> led_spent g"
    and "\<And>c. c \<in> led_spent g \<Longrightarrow> led_issued g c \<noteq> None"
  shows "represents l T g s"
  using assms unfolding represents_def by blast

lemma represents_decides:
  assumes "represents l T g s" "T \<le> now"
  shows "check s c now = OK \<longleftrightarrow> live l g c now"
proof
  assume "check s c now = OK"
  then show "live l g c now"
    using representsD(2-4) [OF assms(1)] unfolding check_OK_iff live_def by fastforce
next
  assume "live l g c now"
  then obtain t where t: "led_issued g c = Some t" "c \<notin> led_spent g" "now - t \<le> l"
    by (auto simp: live_def split: option.splits)
  then have "map_of (pending s) c = Some t" using representsD(5) [OF assms(1)] assms(2) by simp
  then show "check s c now = OK"
    using t representsD(2,6) [OF assms(1)] by (simp add: check_OK_iff)
qed

lemma represents_issue:
  assumes "represents l T g s" "T \<le> t" "led_issued g c = None"
  shows "represents l t (ledger_step l (OpIssue c t) g) (store_step (OpIssue c t) s)"
proof -
  note rep = representsD [OF assms(1)]
  note inv = rep(1) and l = rep(2)
  have unspent: "c \<notin> led_spent g" using rep(7) assms(3) by blast
  then have fresh: "map_of (consumed s) c = None" by (rule rep(6))
  then have inv': "store_inv (issue c t s)"
    by (intro store_inv_issue inv) (simp add: check_replayed_iff)
  have pend: "map_of (pending (issue c t s)) d =
      (if d = c then Some t else young l t (map_of (pending s) d))" for d
    by (simp add: after_issue [OF inv] l)
  have cons: "map_of (consumed (issue c t s)) d \<noteq> None \<Longrightarrow> map_of (consumed s) d \<noteq> None" for d
    by (cases "map_of (consumed s) d") (simp_all add: after_issue [OF inv])
  let ?g = "g\<lparr>led_issued := (led_issued g)(c \<mapsto> t)\<rparr>"
  have "represents l t ?g (issue c t s)"
  proof (rule representsI)
    show "store_inv (issue c t s)" "ttl (issue c t s) = l" by (simp_all add: inv' l)
  next
    fix d t' assume "map_of (pending (issue c t s)) d = Some t'"
    then show "led_issued ?g d = Some t' \<and> d \<notin> led_spent ?g"
      using rep(3,4) [of d t'] unspent young_cases [of l t "map_of (pending s) d"]
      by (auto simp: pend split: if_splits)
  next
    fix d t' assume "led_issued ?g d = Some t'" "d \<notin> led_spent ?g" "t - t' \<le> l"
    then show "map_of (pending (issue c t s)) d = Some t'"
      using rep(5) [of d t'] assms(2) by (auto simp: pend split: if_splits)
  next
    fix d assume "map_of (consumed (issue c t s)) d \<noteq> None"
    then have "map_of (consumed s) d \<noteq> None" by (rule cons)
    then show "d \<in> led_spent ?g" using rep(6) [of d] by (cases "d \<in> led_spent g") simp_all
  next
    fix d assume "d \<in> led_spent ?g"
    then show "led_issued ?g d \<noteq> None" using rep(7) [of d] by simp
  qed
  then show ?thesis by (simp add: ledger_step_def store_step_def)
qed

lemma represents_later:
  assumes "represents l T g s" "T \<le> t"
  shows "represents l t g s"
proof (rule representsI)
  note rep = representsD [OF assms(1)]
  show "store_inv s" "ttl s = l" by (rule rep)+
  show "map_of (pending s) c = Some t' \<Longrightarrow> led_issued g c = Some t' \<and> c \<notin> led_spent g" for c t'
    using rep(3,4) [of c t'] by simp
  show "led_issued g c = Some t' \<Longrightarrow> c \<notin> led_spent g \<Longrightarrow> t - t' \<le> l \<Longrightarrow>
      map_of (pending s) c = Some t'" for c t'
    using rep(5) [of c t'] assms(2) by simp
  show "map_of (consumed s) c \<noteq> None \<Longrightarrow> c \<in> led_spent g" for c
    using rep(6) [of c] by (cases "c \<in> led_spent g") simp_all
  show "c \<in> led_spent g \<Longrightarrow> led_issued g c \<noteq> None" for c by (rule rep(7))
qed

lemma represents_accept:
  assumes "represents l T g s" "T \<le> t"
  shows "represents l t (ledger_step l (OpAccept c t) g) (store_step (OpAccept c t) s)"
proof -
  have later: "represents l t g s" by (rule represents_later [OF assms])
  note rep = representsD [OF later]
  show ?thesis
  proof (cases "live l g c t")
    case True
    then have ok: "check s c t = OK" using represents_decides [OF assms] by simp
    have known: "led_issued g c \<noteq> None" using True by (auto simp: live_def split: option.splits)
    have "represents l t (g\<lparr>led_spent := insert c (led_spent g)\<rparr>) (consume c t s)"
    proof (rule representsI)
      fix d t' assume "map_of (pending (consume c t s)) d = Some t'"
      then show "led_issued (g\<lparr>led_spent := insert c (led_spent g)\<rparr>) d = Some t' \<and>
          d \<notin> led_spent (g\<lparr>led_spent := insert c (led_spent g)\<rparr>)"
        using rep(3,4) [of d t'] by (auto simp: after_consume split: if_splits)
    next
      fix d assume "map_of (consumed (consume c t s)) d \<noteq> None"
      then show "d \<in> led_spent (g\<lparr>led_spent := insert c (led_spent g)\<rparr>)"
        using rep(6) [of d] by (cases "d \<in> led_spent g") (auto simp: after_consume split: if_splits)
    next
      fix d assume "d \<in> led_spent (g\<lparr>led_spent := insert c (led_spent g)\<rparr>)"
      then show "led_issued (g\<lparr>led_spent := insert c (led_spent g)\<rparr>) d \<noteq> None"
        using rep(7) [of d] known by auto
    qed (use rep(1,2,5) in \<open>simp_all add: store_inv_consume after_consume\<close>)
    then show ?thesis using True ok by (simp add: ledger_step_def store_step_def)
  next
    case False
    then have "check s c t \<noteq> OK" using represents_decides [OF assms] by simp
    then show ?thesis using later False by (simp add: ledger_step_def store_step_def)
  qed
qed

text \<open>The challenges of a ledger are those its steps issued.\<close>

lemma ledger_run_issued:
  "led_issued (fold (ledger_step l) xs g) c \<noteq> None \<longleftrightarrow> led_issued g c \<noteq> None \<or> c \<in> set (issues xs)"
  by (induction xs arbitrary: g) (auto simp: issues_def ledger_step_def split: store_op.splits)

lemma represents_run:
  assumes "sorted (map op_time xs)" "distinct (issues xs)" "\<forall>x \<in> set xs. op_time x \<le> T"
  shows "represents l T (fold (ledger_step l) xs empty_ledger) (fold store_step xs (new_store l n))"
  using assms
proof (induction xs arbitrary: T rule: rev_induct)
  case Nil
  then show ?case
    by (simp add: represents_def empty_ledger_def store_inv_new) (simp add: new_store_def)
next
  case (snoc x xs)
  let ?g = "fold (ledger_step l) xs empty_ledger" and ?s = "fold store_step xs (new_store l n)"
  have IH: "represents l (op_time x) ?g ?s"
    using snoc.prems by (intro snoc.IH) (auto simp: sorted_append issues_def)
  have "represents l (op_time x) (ledger_step l x ?g) (store_step x ?s)"
  proof (cases x)
    case (OpIssue c t)
    have "led_issued ?g c = None"
      using snoc.prems(2) ledger_run_issued [of l xs empty_ledger c] OpIssue
      by (auto simp: issues_def empty_ledger_def)
    then show ?thesis using represents_issue [OF IH, of t c] OpIssue by (simp add: op_time_def)
  next
    case (OpAccept c t)
    then show ?thesis using represents_accept [OF IH, of t c] by (simp add: op_time_def)
  qed
  then show ?case using represents_later snoc.prems(3) by simp
qed

text \<open>
  C33: Collecting garbage decides nothing. Over any history in time order in which no
  challenge is issued twice, the store, which drops expired and long spent challenges,
  accepts a challenge exactly when the ledger that forgets nothing does: it was issued,
  is not spent, and its lifetime has not passed.
\<close>

theorem store_refines_ledger:
  assumes "sorted (map op_time xs)" "distinct (issues xs)" "\<forall>x \<in> set xs. op_time x \<le> now"
  shows "check (fold store_step xs (new_store l n)) c now = OK \<longleftrightarrow>
    live l (fold (ledger_step l) xs empty_ledger) c now"
  by (rule represents_decides [OF represents_run [OF assms] order_refl])

text \<open>
  A challenge spent at 1010 is collected by the issue at 2000, but is not accepted again;
  the one of 2000 is.
\<close>

theorem store_refines_ledger_witness:
  "(let s = fold store_step [OpIssue [1] 1000, OpAccept [1] 1010, OpIssue [2] 2000] (new_store 30 32)
    in map_of (consumed s) [1] = None \<and> check s [1] 2001 \<noteq> OK \<and> check s [2] 2001 = OK)"
proof -
  let ?xs = "[OpIssue [1] 1000, OpAccept [1] 1010, OpIssue [2] 2000]"
  have h: "sorted (map op_time ?xs)" "distinct (issues ?xs)" "\<forall>x \<in> set ?xs. op_time x \<le> 2001"
    by (simp_all add: op_time_def issues_def)
  have live: "\<not> live 30 (fold (ledger_step 30) ?xs empty_ledger) [1] 2001"
    "live 30 (fold (ledger_step 30) ?xs empty_ledger) [2] 2001"
    by (simp_all add: ledger_step_def live_def empty_ledger_def)
  have "map_of (consumed (fold store_step ?xs (new_store 30 32))) [1] = None"
    by (simp add: store_step_def issue_def gc_def consume_def check_def new_store_def expired_def
        pop_all_def Let_def)
  then show ?thesis
    using store_refines_ledger [OF h, of 30 32 "[1]"] store_refines_ledger [OF h, of 30 32 "[2]"] live
    by (simp only: Let_def) blast
qed

end
