(* ===== verification/Token_Properties.thy ===== *)
theory Token_Properties
  imports Lifecycle_Properties
begin

text \<open>
  The token format and the challenge store in themselves: what is encoded reads back,
  the scanner's fuel never runs out, what the lock answers to a token without a signature
  and when it raises instead, and the bounds of a key's window.
\<close>

section \<open>Round trips\<close>

lemma b64u_no_pad: "PAD \<notin> set (b64u_encode raw)"
  unfolding b64u_encode_def
proof (induction raw rule: b64encode.induct)
  case (4 a b c r)
  then show ?case using b64_char_facts by (auto simp: b64_char_facts PAD_def simp del: push_bit_and)
qed (use b64_char_facts in \<open>auto simp: PAD_def simp del: push_bit_and\<close>)

text \<open>
  Base64url round trip. Every octet string reads back from its unpadded encoding,
  which has neither padding nor the dot that separates the segments of a token.
\<close>

theorem b64u_round_trip:
  "b64u_decode (b64u_encode raw) = Inr raw \<and> PAD \<notin> set (b64u_encode raw) \<and> DOT \<notin> set (b64u_encode raw)"
  using b64u_decode_encode b64u_encode_no_dot [of raw] b64u_no_pad [of raw] by (simp add: DOT_def)

text \<open>
  C34: Canonical bytes. The bytes that are signed read back as the payload with its keys
  sorted, so two payloads have the same canonical bytes only if they are the same
  mapping: a changed field changes what the signature is over.
\<close>

theorem canonical_bytes_round_trip:
  assumes "plain (JObj p)" "canonical_bytes P p = Inr b"
  shows "json_loads (nesting_limit P) b = Inr (sort_keys (JObj p)) \<and>
    (\<forall>q. plain (JObj q) \<and> canonical_bytes P q = Inr b \<longrightarrow> sort_keys (JObj q) = sort_keys (JObj p))"
proof -
  have loads: "json_loads (nesting_limit P) b' = Inr (sort_keys (JObj q))"
    if q: "plain (JObj q)" "canonical_bytes P q = Inr b'" for q b'
  proof -
    obtain s where s: "json_dumps (nesting_limit P) (float_repr P) (JObj q) = Inr s" "utf8_encode s = Inr b'"
      using q(2) by (auto simp: canonical_bytes_def split: sum.splits)
    note reads = json_loads_dumps [OF q(1) s(1)]
    show ?thesis using reads s(2) by (simp add: utf8_encode_printable)
  qed
  show ?thesis using loads [OF assms] loads by fastforce
qed

theorem canonical_bytes_round_trip_witness:
  "\<exists>b. canonical_bytes sample_platform (issue_payload sample_platform sample_fresh sample_args) = Inr b \<and>
     json_loads (nesting_limit sample_platform) b = Inr (sort_keys (JObj (issue_payload sample_platform sample_fresh sample_args)))"
proof -
  obtain b where "canonical_bytes sample_platform (issue_payload sample_platform sample_fresh sample_args) = Inr b"
    by (rule canonical_bytes_issue [OF sample_args_ok])
  then show ?thesis
    using canonical_bytes_round_trip [OF issue_payload_plain(1) [OF sample_args_ok]] by blast
qed

text \<open>
  C35: Token round trip. The token of an issued credential parses to the payload it was
  issued with, over exactly the canonical bytes of that payload and with a signature
  that verifies under the property's public key.
\<close>

theorem issued_token_round_trip:
  assumes "ed25519 P" "args_ok f a" "issue_credential P f sk a = Inr ik"
  shows "\<exists>t. parse_token P (ik_token ik) = Inr (Some t) \<and> map_of (pt_payload t) = map_of (ik_payload ik) \<and>
    canonical_bytes P (ik_payload ik) = Inr (pt_payload_bytes t) \<and>
    signature_ok P (public_key P sk) (pt_payload_bytes t) (pt_signature t)"
proof -
  obtain b where b: "canonical_bytes P (issue_payload P f a) = Inr b"
    "issue_credential P f sk a = Inr \<lparr>ik_key_id = or_else (ia_key_id a) (fresh_uuid f),
       ik_token = b64u_encode b @ lit ''.'' @ b64u_encode (sign P sk b),
       ik_device_sk_b64 = b64u_encode (private_bytes P (device_key f a)),
       ik_payload = issue_payload P f a\<rparr>"
    "parse_token P (b64u_encode b @ lit ''.'' @ b64u_encode (sign P sk b)) =
       Inr (Some \<lparr>pt_payload = sorted_payload (issue_payload P f a), pt_payload_bytes = b,
             pt_signature = sign P sk b\<rparr>)"
    by (rule issue_credential_Inr [OF assms(2) issued_fields(3) [OF assms(3)], of P sk])
  then show ?thesis
    using assms(1,3)
    by (auto simp: signature_ok_def ed25519_simps map_of_sorted_payload issue_payload_keys)
qed

theorem issued_token_round_trip_witness:
  "\<exists>t. parse_token sample_platform (ik_token sample_issued) = Inr (Some t) \<and>
     map_of (pt_payload t) (lit ''room_ids'') = Some (JArr [JInt 101])"
  using issued_token_round_trip [OF sample_ed25519 sample_args_ok sample_issued]
    issued_fields(2) [OF sample_issued]
  by (auto simp: issue_payload_def)

section \<open>The scanner ends\<close>

text \<open>
  Reading a text never fails for want of fuel: with any amount above twice the number of
  characters the recursive scanner returns what \<open>json_loads_text\<close> returns, so the bound of the
  model cuts no computation of the code.
\<close>

lemma scanner_fuel_suffices:
  assumes "2 * length s < n"
  shows "(case scan_once d n (skip_ws s) of
       Inl e \<Rightarrow> Inl e
     | Inr (v, r) \<Rightarrow> if skip_ws r = [] then Inr v else Inl ValueError) = json_loads_text d s"
proof -
  have len: "2 * length (skip_ws s) < Suc (2 * length s)" using length_skip_ws [of s] by simp
  have "scan_once d n (skip_ws s) = scan_once d (Suc (2 * length s)) (skip_ws s)"
    by (rule scan_fuel [OF len]) (use assms in simp)
  then show ?thesis by (simp add: json_loads_text_def)
qed

section \<open>Unsigned presentations\<close>

text \<open>What \<open>parse_token\<close> does not catch.\<close>

lemma parse_token_raises:
  assumes "parse_token P token = Inl e"
  shows "e = RecursionError \<and> (\<exists>raw chars. b64u_decode (takeWhile (\<lambda>c. c \<noteq> DOT) token) = Inr raw \<and>
    decode_bytes raw = Inr chars \<and> nesting_limit P < length chars)"
proof -
  obtain raw where "b64u_decode (takeWhile (\<lambda>c. c \<noteq> DOT) token) = Inr raw"
    "json_loads (nesting_limit P) raw = Inl e" "e \<noteq> ValueError"
    using assms by (auto simp: parse_token_def Let_def split: if_splits sum.splits json.splits)
  then show ?thesis using json_loads_raises [of "nesting_limit P" raw e] by auto
qed

text \<open>
  C36: A presentation without a signature. Whatever text is presented as a token, if it does
  not carry a payload under the property's signature the lock stays as it was and names no
  key: it answers \<open>MALFORMED\<close> or \<open>FORGED_SIGNATURE\<close>, unless \<open>json.loads\<close> raises a
  \<open>RecursionError\<close> on the payload segment, which then leaves the verifier, and for which the
  segment must decode to a text of more characters than the interpreter has levels of nesting.
\<close>

theorem unsigned_token_denied:
  assumes "\<And>t. parse_token P token = Inr (Some t) \<Longrightarrow>
    \<not> signature_ok P (lock_property_pub lk) (pt_payload_bytes t) (pt_signature t)"
  shows "finish_unlock P token c r now lk =
      (Inr (deny (if parse_token P token = Inr None then MALFORMED else FORGED_SIGNATURE) None), lk) \<or>
    finish_unlock P token c r now lk = (Inl RecursionError, lk) \<and>
      (\<exists>raw chars. b64u_decode (takeWhile (\<lambda>c. c \<noteq> DOT) token) = Inr raw \<and>
         decode_bytes raw = Inr chars \<and> nesting_limit P < length chars)"
proof -
  have "finish_unlock P token c r now lk =
    (case parse_token P token of
       Inl e \<Rightarrow> Inl e
     | Inr found \<Rightarrow> Inr (deny (if found = None then MALFORMED else FORGED_SIGNATURE) None), lk)"
    by (rule finish_unlock_unsigned) (rule assms)
  then show ?thesis
    using parse_token_raises [of P token] by (cases "parse_token P token") auto
qed

theorem unsigned_token_denied_witness:
  "finish_unlock sample_platform (lit ''not-a-token'') [9] [] 1510 sample_asked =
     (Inr (deny MALFORMED None), sample_asked)"
proof -
  have none: "parse_token sample_platform (lit ''not-a-token'') = Inr None"
    by (simp add: parse_token_def lit_def DOT_def)
  have first: "takeWhile (\<lambda>c. c \<noteq> DOT) (lit ''not-a-token'') = lit ''not-a-token''"
    by (simp add: lit_def DOT_def)
  have raw: "case b64u_decode (lit ''not-a-token'') of Inl e \<Rightarrow> True | Inr raw \<Rightarrow>
      (case decode_bytes raw of Inl e \<Rightarrow> True | Inr chars \<Rightarrow> length chars \<le> 100)" by code_simp
  then show ?thesis
    using unsigned_token_denied [of sample_platform "lit ''not-a-token''" sample_asked "[9]" "[]" 1510] none
    by (auto simp: first nesting_limit_def sample_platform_def split: sum.splits)
qed

text \<open>
  C37: A nested token raises. Anyone can make the verifier raise: a token whose payload segment
  encodes more opening brackets than the interpreter has levels of nesting, followed by any
  text and with anything for a signature, is not denied but leaves \<open>finish_unlock\<close> with the
  \<open>RecursionError\<close> of \<open>json.loads\<close>, before any signature is checked, at every lock, which
  stays as it was.
\<close>

theorem nested_token_raises:
  assumes "nesting_limit P < k" "printable rest"
    and "token = b64u_encode (map word_of_nat (replicate k 91 @ rest)) @ lit ''.'' @ b64u_encode signature"
  shows "finish_unlock P token c r now lk = (Inl RecursionError, lk)"
proof -
  have "parse_token P token = Inl RecursionError"
    unfolding assms(3) parse_token_segments json_loads_nested [OF assms(1,2)] by simp
  then show ?thesis by (simp add: finish_unlock_def evaluate_static_def)
qed

theorem nested_token_raises_witness:
  "finish_unlock sample_platform (b64u_encode (map word_of_nat (replicate 101 91 @ lit '']'')) @ lit ''.'' @ b64u_encode [])
     [9] [] 1510 sample_asked = (Inl RecursionError, sample_asked)"
  by (rule nested_token_raises [OF _ _ refl]) (simp_all add: nesting_limit_def sample_platform_def lit_def)

section \<open>The window of a key\<close>

lemma add_key_error: "add_key row d = (Inl e, d') \<Longrightarrow> d' = d"
  by (auto simp: add_key_def execute_def insert_if_def split: option.splits if_splits)

text \<open>
  C38: The bounds of a key. A key issued for a stay is written down with a non-empty
  window that starts at the check-in, ends no later than the check-out and no later than
  24 hours after its issuance; where that window is empty the call raises
  \<open>ValidationError\<close> and writes nothing.
\<close>

theorem key_window_bounds:
  assumes "db_ok d" "s \<in> set (stays d)" "st_room_id s = Some room"
    and "issue_for_stay P f sk (st_stay_id s) now d = (r, d')"
  shows "(case r of
      Inr ik \<Rightarrow> \<exists>row. keys d' = keys d @ [row] \<and> ke_key_id row = ik_key_id ik \<and> ke_room_id row = room \<and>
        ke_valid_from row = st_check_in s \<and> ke_valid_from row < ke_valid_until row \<and>
        ke_valid_until row \<le> st_check_out s \<and> ke_valid_until row \<le> now + 86400
    | Inl e \<Rightarrow> d' = d) \<and>
    ((st_check_out s \<le> st_check_in s \<or> now + 86400 \<le> st_check_in s) \<longrightarrow> r = Inl ValidationError)"
proof (cases r)
  case (Inl e)
  have same: "d' = d"
    using assms(4) Inl issue_for_stay_row [OF assms(1-3), of P f sk now]
    by (auto split: if_splits sum.splits elim!: thenE_cases dest!: add_key_error)
  show ?thesis
    using assms(4) Inl issue_for_stay_row [OF assms(1-3), of P f sk now]
    by (auto simp: KEY_TTL_SECONDS_def same min_le_iff_disj split: if_splits)
next
  case (Inr ik)
  obtain s' room' where run: "s' \<in> set (stays d)" "st_stay_id s' = st_stay_id s" "st_room_id s' = Some room'"
    "st_check_in s' < min (st_check_out s') (now + KEY_TTL_SECONDS)"
    "d' = d\<lparr>keys := keys d @ [issued_row ik s' room' now]\<rparr>"
    by (rule issue_for_stay_run [OF assms(1) assms(4)[unfolded Inr]])
  have "s' = s" using same_key [of st_stay_id "stays d" s' s] assms(1,2) run(1,2) by (simp add: db_ok_defs)
  then show ?thesis
    using run assms(3) Inr by (simp add: issued_row_def effective_window_def KEY_TTL_SECONDS_def)
qed

text \<open>Ada's stay ends at 90000; her key, issued at 1000, ends at 87400.\<close>

theorem key_window_bounds_witness:
  "\<exists>row. keys ada_keyed = [row] \<and> ke_valid_from row = 1000 \<and> ke_valid_until row \<le> 87400"
proof -
  obtain ik where ik: "issue_for_stay sample_platform sample_fresh [1, 2] (lit ''s_ada'') 1000 ada_hotel =
       (Inr ik, ada_hotel\<lparr>keys := [issued_row ik ada_in 101 1000]\<rparr>)"
    by (rule ada_issued [OF sample_fresh_ok])
  then have run: "issue_for_stay sample_platform sample_fresh [1, 2] (st_stay_id ada_in) 1000 ada_hotel =
       (Inr ik, ada_keyed)" by (simp add: ada_keyed_def)
  show ?thesis
    using key_window_bounds [OF ada_hotel_ok(1,2) _ run, of 101] by auto
qed

end
