(* ===== verification/Floats.thy ===== *)
theory Floats
  imports Complex_Main Json
begin

text \<open>
  The float arithmetic of the benches. A finite double is the rational it stands for; every
  operation of the code rounds its exact result to the nearest double, ties to the even
  mantissa, subnormal numbers included: \<open>fl\<close>. An overflow is not modelled: the figures are
  quotients of 64-bit clock readings and of small counts. Beside it the built-ins \<open>round\<close>,
  with and without digits, and \<open>sum\<close>, which compensates its rounding errors since Python 3.12.
  The lemmas show \<open>fl\<close> monotone, so that rounding never puts figures out of order.
\<close>

section \<open>The operations\<close>

definition fl :: "rat \<Rightarrow> rat" where
  "fl x =
     (case quotient_of x of
        (a, b) \<Rightarrow>
          if a = 0 then 0
          else case ratio_parts (nat \<bar>a\<bar>) (nat b) of
                 (m, k) \<Rightarrow> (if a < 0 then - of_nat m else of_nat m) * 2 powi k)"

text \<open>The float that stands for a rational.\<close>

definition double_of :: "rat \<Rightarrow> pyfloat" where
  "double_of x = (case quotient_of x of (a, b) \<Rightarrow> double_ratio (a < 0) (nat \<bar>a\<bar>) (nat b))"

text \<open>\<open>round(x)\<close> rounds a tie to the even neighbour; \<open>round(x, n)\<close> keeps \<open>n\<close> digits.\<close>

definition py_round :: "rat \<Rightarrow> int" where
  "py_round x =
     (let f = \<lfloor>x\<rfloor>; rest = x - of_int f
      in if rest < 1 / 2 then f else if 1 / 2 < rest then f + 1 else if even f then f else f + 1)"

definition round_to :: "nat \<Rightarrow> rat \<Rightarrow> rat" where
  "round_to n x = fl (of_int (py_round (x * 10 ^ n)) / 10 ^ n)"

text \<open>One step of \<open>sum\<close>: the running sum and the compensation.\<close>

definition sum_step :: "rat \<Rightarrow> rat \<times> rat \<Rightarrow> rat \<times> rat" where
  "sum_step x = (\<lambda>(f, c).
     let t = fl (f + x)
     in (t, fl (c + (if \<bar>x\<bar> \<le> \<bar>f\<bar> then fl (fl (f - t) + x) else fl (fl (x - t) + f)))))"

definition py_sum :: "rat list \<Rightarrow> rat" where
  "py_sum xs = (case fold sum_step xs (0, 0) of (f, c) \<Rightarrow> if c = 0 then f else fl (f + c))"

section \<open>Rounding to the nearest integer\<close>

lemma py_round_near: "\<lfloor>x\<rfloor> \<le> py_round x" "py_round x \<le> \<lfloor>x\<rfloor> + 1"
  by (simp_all add: py_round_def Let_def)

lemma py_round_int [simp]: "py_round (of_int i) = i" "py_round (of_nat n) = int n" "py_round 0 = 0"
  by (simp_all add: py_round_def)

lemma py_round_mono:
  assumes "x \<le> y"
  shows "py_round x \<le> py_round y"
proof (cases "\<lfloor>x\<rfloor> = \<lfloor>y\<rfloor>")
  case True
  then show ?thesis using assms by (simp add: py_round_def Let_def)
next
  case False
  then have "\<lfloor>x\<rfloor> + 1 \<le> \<lfloor>y\<rfloor>" using floor_mono [OF assms] by linarith
  then show ?thesis using py_round_near [of x] py_round_near [of y] by linarith
qed

lemma round_half_even_is:
  assumes "0 < q"
  shows "int (round_half_even p q) = py_round (of_nat p / of_nat q)"
proof -
  have q: "(0 :: rat) < of_nat q" using assms by simp
  have "(of_nat p :: rat) = of_nat (p div q * q + p mod q)" by simp
  then have x: "(of_nat p :: rat) / of_nat q = of_nat (p div q) + of_nat (p mod q) / of_nat q"
    using q by (simp only: of_nat_add of_nat_mult) (simp add: field_simps)
  have "(of_nat (p mod q) :: rat) / of_nat q < 1" using assms by simp
  then have f: "\<lfloor>(of_nat p :: rat) / of_nat q\<rfloor> = int (p div q)"
    unfolding x by (intro floor_unique) simp_all
  have "(of_nat (p mod q) :: rat) / of_nat q < 1 / 2 \<longleftrightarrow> (of_nat (2 * (p mod q)) :: rat) < of_nat q"
    "1 / 2 < (of_nat (p mod q) :: rat) / of_nat q \<longleftrightarrow> of_nat q < (of_nat (2 * (p mod q)) :: rat)"
    using q by (simp_all add: field_simps)
  then have "(of_nat (p mod q) :: rat) / of_nat q < 1 / 2 \<longleftrightarrow> 2 * (p mod q) < q"
    "1 / 2 < (of_nat (p mod q) :: rat) / of_nat q \<longleftrightarrow> q < 2 * (p mod q)"
    unfolding of_nat_less_iff by simp_all
  moreover have "(of_nat p :: rat) / of_nat q - of_int (int (p div q)) = of_nat (p mod q) / of_nat q"
    by (simp add: x)
  ultimately show ?thesis
    unfolding py_round_def Let_def f round_half_even_def by simp
qed


section \<open>The binade of a quotient\<close>

lemma bit_count_bounds: "0 < n \<Longrightarrow> 2 ^ (bit_count n - 1) \<le> n \<and> n < 2 ^ bit_count n \<and> 0 < bit_count n"
proof (induction n rule: bit_count.induct)
  case (1 n)
  show ?case
  proof (cases "n div 2 = 0")
    case True
    then have "n = 1" using 1 by linarith
    then show ?thesis by (simp add: bit_count.simps)
  next
    case False
    then have IH: "2 ^ (bit_count (n div 2) - 1) \<le> n div 2" "n div 2 < 2 ^ bit_count (n div 2)"
      "0 < bit_count (n div 2)"
      using 1 by simp_all
    have n: "bit_count n = Suc (bit_count (n div 2))" using False by (subst bit_count.simps) auto
    have "(2 :: nat) ^ bit_count (n div 2) = 2 * 2 ^ (bit_count (n div 2) - 1)"
      using IH(3) by (simp flip: power_Suc)
    moreover have "n = 2 * (n div 2) + n mod 2" "n mod 2 < 2" by simp_all
    ultimately show ?thesis using IH(1,2) unfolding n by simp linarith
  qed
qed

lemma scaled_is:
  assumes "0 < q" "scaled p q k = (p', q')"
  shows "0 < q'" "(of_nat p' :: rat) / of_nat q' = (of_nat p / of_nat q) / 2 powi k"
proof -
  have "(p', q') = (p, q * 2 ^ nat k) \<and> 0 \<le> k \<or> (p', q') = (p * 2 ^ nat (- k), q) \<and> k < 0"
    using assms(2) by (auto simp: scaled_def split: if_splits)
  then show "0 < q'" "(of_nat p' :: rat) / of_nat q' = (of_nat p / of_nat q) / 2 powi k"
    using assms(1) by (auto simp: power_int_def field_simps)
qed

text \<open>The exponent of the last binary digit kept of \<open>x\<close> with \<open>2 ^ f \<le> x < 2 ^ (f + 1)\<close>.\<close>

definition ulp :: "int \<Rightarrow> int" where
  "ulp f = max (- 1074) (f - 52)"

definition binade :: "rat \<Rightarrow> int \<Rightarrow> bool" where
  "binade x f \<longleftrightarrow> 2 powi f \<le> x \<and> x < 2 powi (f + 1)"

lemma binade_mono:
  assumes "binade x f" "binade y g" "x \<le> y"
  shows "f \<le> g"
proof (rule ccontr)
  assume "\<not> f \<le> g"
  then have "(2 :: rat) powi (g + 1) \<le> 2 powi f" by (intro power_int_increasing) simp_all
  then show False using assms by (simp add: binade_def)
qed

lemma ratio_binade:
  assumes "0 < p" "0 < q"
  obtains f where "binade (of_nat p / of_nat q) f"
    "ratio_parts p q = (nat (py_round (of_nat p / of_nat q / 2 powi ulp f)), ulp f)"
proof -
  let ?x = "of_nat p / of_nat q :: rat"
  let ?l = "int (bit_count p) - int (bit_count q)"
  obtain p1 q1 where s1: "scaled p q ?l = (p1, q1)" by force
  define f where "f = (if q1 \<le> p1 then ?l else ?l - 1)"
  obtain p2 q2 where s2: "scaled p q (ulp f) = (p2, q2)" by force
  have parts: "ratio_parts p q = (round_half_even p2 q2, ulp f)"
    using s1 s2 by (simp add: ratio_parts_def Let_def ulp_def f_def)
  have "round_half_even p2 q2 = nat (py_round (?x / 2 powi ulp f))"
    using round_half_even_is [OF scaled_is(1) [OF assms(2) s2], of p2] scaled_is(2) [OF assms(2) s2]
    by simp
  note parts = parts [unfolded this]
  have real: "(of_nat (2 ^ (bit_count n - 1)) :: rat) \<le> of_nat n \<and> (of_nat n :: rat) < of_nat (2 ^ bit_count n)"
    if "0 < n" for n
    using bit_count_bounds [OF that] by (simp only: of_nat_le_iff of_nat_less_iff)
  have exp: "(of_nat (2 ^ (bit_count n - 1)) :: rat) = 2 powi (int (bit_count n) - 1)"
    "(of_nat (2 ^ bit_count n) :: rat) = 2 powi int (bit_count n)" if "0 < n" for n
  proof -
    have "int (bit_count n) - 1 = int (bit_count n - 1)" using bit_count_bounds [OF that] by simp
    then show "(of_nat (2 ^ (bit_count n - 1)) :: rat) = 2 powi (int (bit_count n) - 1)"
      by (simp only: power_int_of_nat) simp
  qed simp
  note bp = real [OF assms(1), unfolded exp [OF assms(1)]]
  note bq = real [OF assms(2), unfolded exp [OF assms(2)]]
  have low: "2 powi (?l - 1) \<le> ?x"
  proof -
    have "(2 :: rat) powi (?l - 1) = 2 powi (int (bit_count p) - 1) / 2 powi int (bit_count q)"
      by (subst power_int_diff [symmetric]) (simp_all add: algebra_simps)
    also have "\<dots> \<le> ?x" by (rule frac_le) (use bp bq assms in auto)
    finally show ?thesis .
  qed
  have high: "?x < 2 powi (?l + 1)"
  proof -
    have "?x < 2 powi int (bit_count p) / 2 powi (int (bit_count q) - 1)"
      by (rule frac_less) (use bp bq assms in auto)
    also have "\<dots> = 2 powi (?l + 1)"
      by (subst power_int_diff [symmetric]) (simp_all add: algebra_simps)
    finally show ?thesis .
  qed
  have "q1 \<le> p1 \<longleftrightarrow> (1 :: rat) \<le> of_nat p1 / of_nat q1"
    using scaled_is(1) [OF assms(2) s1] by (simp add: field_simps)
  then have "q1 \<le> p1 \<longleftrightarrow> 2 powi ?l \<le> ?x"
    unfolding scaled_is(2) [OF assms(2) s1] by (simp only: le_divide_eq_1_pos zero_less_power_int zero_less_numeral pos_le_divide_eq mult_1)
  then have "binade ?x f" using low high by (auto simp: binade_def f_def)
  with parts show ?thesis by (rule that [rotated])
qed

section \<open>Rounding is monotone\<close>

lemma fl_zero [simp]: "fl 0 = 0"
  by (simp add: fl_def rat_zero_code)

lemma fl_neg: "fl (- x) = - fl x"
  by (cases "quotient_of x") (auto simp: fl_def rat_uminus_code split: prod.split)

lemma fl_pos:
  assumes "0 < x"
  obtains f where "binade x f" "fl x = of_int (py_round (x / 2 powi ulp f)) * 2 powi ulp f"
proof -
  obtain a b where ab: "quotient_of x = (a, b)" by force
  have b: "0 < b" using quotient_of_denom_pos [OF ab] .
  have x: "x = of_int a / of_int b" using quotient_of_div [OF ab] .
  have a: "0 < a" using assms b unfolding x by (simp add: zero_less_divide_iff)
  have nats: "(of_nat (nat a) :: rat) / of_nat (nat b) = x" using a b x by simp
  obtain f where f: "binade x f"
    "ratio_parts (nat a) (nat b) = (nat (py_round (x / 2 powi ulp f)), ulp f)"
    using ratio_binade [of "nat a" "nat b"] a b unfolding nats by auto
  have "0 \<le> py_round (x / 2 powi ulp f)"
    using py_round_mono [of 0 "x / 2 powi ulp f"] assms by simp
  then have "fl x = of_int (py_round (x / 2 powi ulp f)) * 2 powi ulp f"
    using a ab f(2) by (simp add: fl_def)
  with f(1) show ?thesis by (rule that)
qed

lemma fl_nonneg: "0 \<le> x \<Longrightarrow> 0 \<le> fl x"
proof (cases "x = 0")
  case False
  assume "0 \<le> x"
  with False have x: "0 < x" by simp
  obtain f where "fl x = of_int (py_round (x / 2 powi ulp f)) * 2 powi ulp f" by (rule fl_pos [OF x])
  moreover have "0 \<le> py_round (x / 2 powi ulp f)"
    using py_round_mono [of 0 "x / 2 powi ulp f"] x by simp
  ultimately show ?thesis by simp
qed simp

lemma ulp_mono: "f \<le> g \<Longrightarrow> ulp f \<le> ulp g"
  by (simp add: ulp_def)

text \<open>A power of two that is a multiple of the last digit bounds the rounded value as it does the exact one.\<close>

lemma rounded_bound:
  assumes "u \<le> h"
  shows "z \<le> 2 powi h \<Longrightarrow> of_int (py_round (z / 2 powi u)) * 2 powi u \<le> (2 powi h :: rat)"
    "2 powi h \<le> z \<Longrightarrow> (2 powi h :: rat) \<le> of_int (py_round (z / 2 powi u)) * 2 powi u"
proof -
  have "(2 :: rat) powi h / 2 powi u = 2 powi (h - u)" by (simp add: power_int_diff)
  also have "\<dots> = of_int (2 ^ nat (h - u))" using assms by (simp add: power_int_def)
  finally have "(2 :: rat) powi h / 2 powi u = of_int (2 ^ nat (h - u))" .
  then have exact: "of_int (py_round (2 powi h / 2 powi u)) * 2 powi u = (2 powi h :: rat)"
    by (simp only: py_round_int) (simp add: field_simps)
  have mono: "(of_int (py_round (v / 2 powi u)) * 2 powi u :: rat) \<le> of_int (py_round (w / 2 powi u)) * 2 powi u"
    if "v \<le> w" for v w
    using that by (intro mult_right_mono) (simp_all add: py_round_mono divide_right_mono)
  show "z \<le> 2 powi h \<Longrightarrow> of_int (py_round (z / 2 powi u)) * 2 powi u \<le> (2 powi h :: rat)"
    using mono [of z "2 powi h"] by (simp only: exact)
  show "2 powi h \<le> z \<Longrightarrow> (2 powi h :: rat) \<le> of_int (py_round (z / 2 powi u)) * 2 powi u"
    using mono [of "2 powi h" z] by (simp only: exact)
qed

lemma fl_mono_pos:
  assumes "0 < x" "x \<le> y"
  shows "fl x \<le> fl y"
proof -
  have y: "0 < y" using assms by simp
  obtain f where f: "binade x f" "fl x = of_int (py_round (x / 2 powi ulp f)) * 2 powi ulp f"
    by (rule fl_pos [OF assms(1)])
  obtain g where g: "binade y g" "fl y = of_int (py_round (y / 2 powi ulp g)) * 2 powi ulp g"
    by (rule fl_pos [OF y])
  have "f \<le> g" by (rule binade_mono [OF f(1) g(1) assms(2)])
  show ?thesis
  proof (cases "ulp f = ulp g")
    case True
    have "py_round (x / 2 powi ulp g) \<le> py_round (y / 2 powi ulp g)"
      by (intro py_round_mono divide_right_mono assms(2)) simp
    then show ?thesis unfolding f(2) g(2) True by (intro mult_right_mono) simp_all
  next
    case False
    then have less: "ulp f < ulp g" using ulp_mono [OF \<open>f \<le> g\<close>] by simp
    let ?h = "max (f + 1) (ulp f)"
    have "f < g" using less \<open>f \<le> g\<close> by (auto simp: order_le_less)
    then have h: "?h \<le> g" "ulp g \<le> g" using less unfolding ulp_def by linarith+
    have "x \<le> 2 powi (f + 1)" using f(1) by (simp add: binade_def)
    also have "\<dots> \<le> 2 powi ?h" by (intro power_int_increasing) simp_all
    finally have "fl x \<le> 2 powi ?h" unfolding f(2) by (intro rounded_bound(1)) simp_all
    also have "\<dots> \<le> 2 powi g" using h(1) by (intro power_int_increasing) simp_all
    also have "\<dots> \<le> fl y"
      unfolding g(2) by (rule rounded_bound(2) [OF h(2)]) (use g(1) in \<open>simp add: binade_def\<close>)
    finally show ?thesis .
  qed
qed

lemma fl_mono:
  assumes "x \<le> y"
  shows "fl x \<le> fl y"
proof -
  consider "0 < x" | "x \<le> 0" "0 \<le> y" | "y < 0" using assms by linarith
  then show ?thesis
  proof cases
    case 1
    then show ?thesis using assms by (rule fl_mono_pos)
  next
    case 2
    then show ?thesis using fl_nonneg [of "- x"] fl_nonneg [of y] by (simp add: fl_neg)
  next
    case 3
    then show ?thesis using fl_mono_pos [of "- y" "- x"] assms by (simp add: fl_neg)
  qed
qed

lemma round_to_mono: "x \<le> y \<Longrightarrow> round_to n x \<le> round_to n y"
  unfolding round_to_def
  by (intro fl_mono divide_right_mono) (simp_all add: py_round_mono mult_right_mono)

section \<open>Floats of a report\<close>

text \<open>The float of a figure has the figure's value.\<close>

lemma double_of_value: "double_of x = Finite m k \<Longrightarrow> fl x = of_int m * 2 powi k"
  using quotient_of_denom_pos [of x]
  by (auto simp: double_of_def fl_def double_ratio_def split: prod.splits if_splits)

lemma ratio_parts_one: "ratio_parts 1 1 = (4503599627370496, - 52)"
  by (simp add: ratio_parts_def scaled_def round_half_even_def)

lemma fl_one [simp]: "fl 1 = 1"
  using ratio_parts_one by (simp add: fl_def rat_one_code power_int_def power_one_over)

lemma round_to_one: "round_to 6 1 = 1"
proof -
  have "py_round (1 * 10 ^ 6) = 10 ^ 6" using py_round_int(1) [of "10 ^ 6"] by simp
  then show ?thesis unfolding round_to_def by simp
qed

text \<open>The double \<open>1.0\<close>.\<close>

lemma double_of_one: "double_of 1 = Finite 4503599627370496 (- 52)"
  using ratio_parts_one by (simp add: double_of_def double_ratio_def rat_one_code)

end
