(* ===== verification/Adversarial.thy ===== *)
theory Adversarial
  imports Floats Lock "HOL-Library.List_Lexorder"
begin

text \<open>
  \<open>bench/adversarial.py\<close> and \<open>bench/security.py\<close>: the suite of legitimate and
  adversarial presentations against one offline lock, and the run that counts its
  decisions. What the suite draws at random is an argument: per category and round
  the material of an issued key and the number drawn, per attempt the lock's nonce
  and the key an attacker without the device generates.
\<close>

section \<open>The scenario\<close>

definition BENCH_PROPERTY_ID :: pystr where
  "BENCH_PROPERTY_ID = lit ''HILTON-DEMO-001''"

definition OTHER_PROPERTY_ID :: pystr where
  "OTHER_PROPERTY_ID = lit ''MARRIOTT-OTHER-999''"

definition TARGET_ROOM :: int where
  "TARGET_ROOM = 101"

definition BENCH_NOW :: time where
  "BENCH_NOW = 1800000000"

text \<open>The set of revoked key ids is kept as the list of its elements.\<close>

record 'sk Scenario =
  scn_property_sk :: 'sk
  scn_property_pub_raw :: bytes
  scn_attacker_sk :: 'sk
  scn_revoked_ids :: "pystr list"

definition build_scenario :: "('sk, 'pk) platform \<Rightarrow> 'sk \<Rightarrow> 'sk \<Rightarrow> 'sk Scenario" where
  "build_scenario P property_sk attacker_sk =
     \<lparr>scn_property_sk = property_sk,
      scn_property_pub_raw = public_bytes P (public_key P property_sk),
      scn_attacker_sk = attacker_sk, scn_revoked_ids = []\<rparr>"

definition make_lock :: "('sk, 'pk) platform \<Rightarrow> 'sk Scenario \<Rightarrow> exn + 'pk LockVerifier" where
  "make_lock P scn =
     new_lock P BENCH_PROPERTY_ID TARGET_ROOM (scn_property_pub_raw scn) (scn_revoked_ids scn)"

text \<open>The arguments of \<open>_issue\<close>, and the key it returns.\<close>

definition demo_args :: "int list \<Rightarrow> time \<Rightarrow> time \<Rightarrow> pystr \<Rightarrow> 'sk issue_args" where
  "demo_args room_ids valid_from valid_until property_id =
     \<lparr>ia_guest_id = lit ''g_demo'', ia_stay_id = lit ''s_demo'', ia_property_id = property_id,
      ia_room_ids = room_ids, ia_valid_from = valid_from, ia_valid_until = valid_until,
      ia_issued_at = valid_from, ia_device_sk = None, ia_key_id = None, ia_nonce = None\<rparr>"

definition issue_demo ::
  "('sk, 'pk) platform \<Rightarrow> 'sk fresh \<Rightarrow> int list \<Rightarrow> time \<Rightarrow> time \<Rightarrow> pystr \<Rightarrow> 'sk option \<Rightarrow>
     ('sk Scenario, IssuedKey) exec" where
  "issue_demo P f room_ids valid_from valid_until property_id signer scn =
     (issue_credential P f (case signer of None \<Rightarrow> scn_property_sk scn | Some sk \<Rightarrow> sk)
        (demo_args room_ids valid_from valid_until property_id), scn)"

section \<open>Attempts\<close>

text \<open>
  The closure of an attempt is given, when it is run, the nonce \<open>begin_unlock\<close> draws
  and the key \<open>Ed25519PrivateKey.generate\<close> returns.
\<close>

record ('sk, 'pk) Attempt =
  at_category :: pystr
  at_expect_unlock :: bool
  at_run :: "bytes \<Rightarrow> 'sk \<Rightarrow> ('pk LockVerifier, Decision) exec"

definition present ::
  "('sk, 'pk) platform \<Rightarrow> pystr \<Rightarrow> pystr option \<Rightarrow> time \<Rightarrow> bool \<Rightarrow>
     bytes \<Rightarrow> 'sk \<Rightarrow> ('pk LockVerifier, Decision) exec" where
  "present P token device_sk_b64 now wrong_device challenge generated =
     thenE (modify (begin_unlock challenge now))
       (case (case device_sk_b64 of
                None \<Rightarrow> Inr (replicate 64 0)
              | Some device \<Rightarrow>
                  if wrong_device then Inr (sign P generated challenge)
                  else device_sign P device challenge) of
          Inl e \<Rightarrow> raise e
        | Inr response \<Rightarrow> finish_unlock P token challenge response now)"

definition replay ::
  "('sk, 'pk) platform \<Rightarrow> IssuedKey \<Rightarrow> bytes \<Rightarrow> 'sk \<Rightarrow> ('pk LockVerifier, Decision) exec" where
  "replay P key challenge generated =
     thenE (modify (begin_unlock challenge BENCH_NOW))
       (case device_sign P (ik_device_sk_b64 key) challenge of
          Inl e \<Rightarrow> raise e
        | Inr response \<Rightarrow>
            bindE (finish_unlock P (ik_token key) challenge response BENCH_NOW)
              (\<lambda>first. if \<not> unlocked first then raise AssertionError
                       else finish_unlock P (ik_token key) challenge response BENCH_NOW))"

text \<open>What one round of a loop draws: the material of its key, and the number.\<close>

record 'sk draw =
  dr_fresh :: "'sk fresh"
  dr_number :: int

definition attempt ::
  "string \<Rightarrow> bool \<Rightarrow> (bytes \<Rightarrow> 'sk \<Rightarrow> ('pk LockVerifier, Decision) exec) \<Rightarrow> ('sk, 'pk) Attempt" where
  "attempt category expect run =
     \<lparr>at_category = lit category, at_expect_unlock = expect, at_run = run\<rparr>"

text \<open>The loop all the categories with an ordinary key share: present it once.\<close>

definition present_key :: "('sk, 'pk) platform \<Rightarrow> IssuedKey \<Rightarrow> bytes \<Rightarrow> 'sk \<Rightarrow>
    ('pk LockVerifier, Decision) exec" where
  "present_key P key = present P (ik_token key) (Some (ik_device_sk_b64 key)) BENCH_NOW False"

type_synonym ('sk, 'pk) attempts = "('sk Scenario, ('sk, 'pk) Attempt list) exec"

definition legit_attempts :: "('sk, 'pk) platform \<Rightarrow> (nat \<Rightarrow> 'sk draw) \<Rightarrow> nat \<Rightarrow> ('sk, 'pk) attempts" where
  "legit_attempts P D n = for_collect (\<lambda>i.
     let span = dr_number (D i)
     in bindE (issue_demo P (dr_fresh (D i)) [TARGET_ROOM] (BENCH_NOW - span) (BENCH_NOW + span)
                 BENCH_PROPERTY_ID None)
          (\<lambda>key. ret (attempt ''legit'' True (present_key P key)))) [0..<n]"

definition expired_attempts :: "('sk, 'pk) platform \<Rightarrow> (nat \<Rightarrow> 'sk draw) \<Rightarrow> nat \<Rightarrow> ('sk, 'pk) attempts" where
  "expired_attempts P D n = for_collect (\<lambda>i.
     let off = dr_number (D i)
     in bindE (issue_demo P (dr_fresh (D i)) [TARGET_ROOM] (BENCH_NOW - 2 * off) (BENCH_NOW - off)
                 BENCH_PROPERTY_ID None)
          (\<lambda>key. ret (attempt ''expired'' False (present_key P key)))) [0..<n]"

definition early_attempts :: "('sk, 'pk) platform \<Rightarrow> (nat \<Rightarrow> 'sk draw) \<Rightarrow> nat \<Rightarrow> ('sk, 'pk) attempts" where
  "early_attempts P D n = for_collect (\<lambda>i.
     let off = dr_number (D i)
     in bindE (issue_demo P (dr_fresh (D i)) [TARGET_ROOM] (BENCH_NOW + off) (BENCH_NOW + 2 * off)
                 BENCH_PROPERTY_ID None)
          (\<lambda>key. ret (attempt ''not_yet_valid'' False (present_key P key)))) [0..<n]"

text \<open>Here the number is the room that \<open>rng.choice\<close> picks.\<close>

definition wrong_rooms :: "int list" where
  "wrong_rooms = [102, 103, 205, 999]"

definition wrong_room_attempts :: "('sk, 'pk) platform \<Rightarrow> (nat \<Rightarrow> 'sk draw) \<Rightarrow> nat \<Rightarrow> ('sk, 'pk) attempts" where
  "wrong_room_attempts P D n = for_collect (\<lambda>i.
     let other = dr_number (D i)
     in bindE (issue_demo P (dr_fresh (D i)) [other] (BENCH_NOW - 3600) (BENCH_NOW + 3600)
                 BENCH_PROPERTY_ID None)
          (\<lambda>key. ret (attempt ''wrong_room'' False (present_key P key)))) [0..<n]"

text \<open>The key the remaining categories start from.\<close>

definition issue_hour ::
  "('sk, 'pk) platform \<Rightarrow> 'sk fresh \<Rightarrow> pystr \<Rightarrow> 'sk option \<Rightarrow> ('sk Scenario, IssuedKey) exec" where
  "issue_hour P f property_id signer =
     issue_demo P f [TARGET_ROOM] (BENCH_NOW - 3600) (BENCH_NOW + 3600) property_id signer"

definition wrong_property_attempts ::
  "('sk, 'pk) platform \<Rightarrow> (nat \<Rightarrow> 'sk draw) \<Rightarrow> nat \<Rightarrow> ('sk, 'pk) attempts" where
  "wrong_property_attempts P D n = for_collect (\<lambda>i.
     bindE (issue_hour P (dr_fresh (D i)) OTHER_PROPERTY_ID None)
       (\<lambda>key. ret (attempt ''wrong_property'' False (present_key P key)))) [0..<n]"

definition forged_attempts :: "('sk, 'pk) platform \<Rightarrow> (nat \<Rightarrow> 'sk draw) \<Rightarrow> nat \<Rightarrow> ('sk, 'pk) attempts" where
  "forged_attempts P D n = for_collect (\<lambda>i scn.
     bindE (issue_hour P (dr_fresh (D i)) BENCH_PROPERTY_ID (Some (scn_attacker_sk scn)))
       (\<lambda>key. ret (attempt ''forged_signature'' False (present_key P key))) scn) [0..<n]"

text \<open>\<open>token.split('.')[1]\<close>\<close>

definition second_segment :: "pystr \<Rightarrow> exn + pystr" where
  "second_segment token =
     (case dropWhile (\<lambda>c. c \<noteq> DOT) token of
        [] \<Rightarrow> Inl IndexError
      | _ # rest \<Rightarrow> Inr (takeWhile (\<lambda>c. c \<noteq> DOT) rest))"

definition tampered_token ::
  "('sk, 'pk) platform \<Rightarrow> string \<Rightarrow> json \<Rightarrow> IssuedKey \<Rightarrow> exn + pystr" where
  "tampered_token P k v key =
     (case canonical_bytes P (AList.update (lit k) v (ik_payload key)) of
        Inl e \<Rightarrow> Inl e
      | Inr raw \<Rightarrow>
          (case second_segment (ik_token key) of
             Inl e \<Rightarrow> Inl e
           | Inr sig \<Rightarrow> Inr (b64u_encode raw @ lit ''.'' @ sig)))"

definition tampered_attempts :: "('sk, 'pk) platform \<Rightarrow> (nat \<Rightarrow> 'sk draw) \<Rightarrow> nat \<Rightarrow> ('sk, 'pk) attempts" where
  "tampered_attempts P D n = for_collect (\<lambda>i.
     bindE (issue_hour P (dr_fresh (D i)) BENCH_PROPERTY_ID None)
       (\<lambda>key. case tampered_token P ''valid_until'' (JInt (BENCH_NOW + 10000000)) key of
                Inl e \<Rightarrow> raise e
              | Inr token \<Rightarrow>
                  ret (attempt ''tampered_payload'' False
                    (present P token (Some (ik_device_sk_b64 key)) BENCH_NOW False)))) [0..<n]"

definition revoked_attempts :: "('sk, 'pk) platform \<Rightarrow> (nat \<Rightarrow> 'sk draw) \<Rightarrow> nat \<Rightarrow> ('sk, 'pk) attempts" where
  "revoked_attempts P D n = for_collect (\<lambda>i.
     bindE (issue_hour P (dr_fresh (D i)) BENCH_PROPERTY_ID None)
       (\<lambda>key. thenE (modify (\<lambda>scn. scn\<lparr>scn_revoked_ids := List.insert (ik_key_id key) (scn_revoked_ids scn)\<rparr>))
          (ret (attempt ''revoked'' False (present_key P key))))) [0..<n]"

definition replayed_attempts :: "('sk, 'pk) platform \<Rightarrow> (nat \<Rightarrow> 'sk draw) \<Rightarrow> nat \<Rightarrow> ('sk, 'pk) attempts" where
  "replayed_attempts P D n = for_collect (\<lambda>i.
     bindE (issue_hour P (dr_fresh (D i)) BENCH_PROPERTY_ID None)
       (\<lambda>key. ret (attempt ''replayed'' False (replay P key)))) [0..<n]"

definition impersonation_attempts ::
  "('sk, 'pk) platform \<Rightarrow> (nat \<Rightarrow> 'sk draw) \<Rightarrow> nat \<Rightarrow> ('sk, 'pk) attempts" where
  "impersonation_attempts P D n = for_collect (\<lambda>i.
     bindE (issue_hour P (dr_fresh (D i)) BENCH_PROPERTY_ID None)
       (\<lambda>key. ret (attempt ''impersonation'' False
          (present P (ik_token key) (Some (ik_device_sk_b64 key)) BENCH_NOW True)))) [0..<n]"

definition garbage :: "pystr list" where
  "garbage = [lit ''not-a-token'', lit '''', lit ''....'', lit ''aGVsbG8.d29ybGQ'', lit ''%%%.$$$'']"

definition malformed_attempts :: "('sk, 'pk) platform \<Rightarrow> nat \<Rightarrow> ('sk, 'pk) attempts" where
  "malformed_attempts P n = for_collect (\<lambda>i.
     ret (attempt ''malformed'' False
       (present P (garbage ! (i mod length garbage)) None BENCH_NOW False))) [0..<n]"

text \<open>\<open>D c i\<close> is what round \<open>i\<close> of category \<open>c\<close> draws.\<close>

definition build_attempts ::
  "('sk, 'pk) platform \<Rightarrow> (string \<Rightarrow> nat \<Rightarrow> 'sk draw) \<Rightarrow> nat \<Rightarrow> nat \<Rightarrow> ('sk, 'pk) attempts" where
  "build_attempts P D n_each n_legit =
     bindE (for_collect (\<lambda>loop. loop)
       [legit_attempts P (D ''legit'') n_legit,
        expired_attempts P (D ''expired'') n_each,
        early_attempts P (D ''not_yet_valid'') n_each,
        wrong_room_attempts P (D ''wrong_room'') n_each,
        wrong_property_attempts P (D ''wrong_property'') n_each,
        forged_attempts P (D ''forged_signature'') n_each,
        tampered_attempts P (D ''tampered_payload'') n_each,
        revoked_attempts P (D ''revoked'') n_each,
        replayed_attempts P (D ''replayed'') n_each,
        impersonation_attempts P (D ''impersonation'') n_each,
        malformed_attempts P n_each])
       (\<lambda>loops. ret (concat loops))"

section \<open>The run\<close>

type_synonym counter = "(pystr \<times> nat) list"

definition count :: "pystr \<Rightarrow> counter \<Rightarrow> nat" where
  "count k c = (case map_of c k of None \<Rightarrow> 0 | Some n \<Rightarrow> n)"

definition bump :: "pystr \<Rightarrow> counter \<Rightarrow> counter" where
  "bump k c = AList.update k (Suc (count k c)) c"

lemma count_bump: "count k (bump k' c) = count k c + (if k = k' then 1 else 0)"
  by (simp add: count_def bump_def update_conv')

lemma reason_value_eq: "reason_value r = reason_value r' \<longleftrightarrow> r = r'"
  by (cases r; cases r') (simp_all add: reason_value_def lit_def)

record tally =
  tp :: nat
  fp :: nat
  fn :: nat
  tn :: nat
  unauthorized :: "pystr list"
  by_category :: counter
  denied_by_category :: counter
  deny_reasons :: counter

definition empty_tally :: tally where
  "empty_tally = \<lparr>tp = 0, fp = 0, fn = 0, tn = 0, unauthorized = [], by_category = [],
     denied_by_category = [], deny_reasons = []\<rparr>"

definition judge :: "('sk, 'pk) Attempt \<Rightarrow> Decision \<Rightarrow> tally \<Rightarrow> tally" where
  "judge a d t0 =
     (let t = t0\<lparr>by_category := bump (at_category a) (by_category t0)\<rparr>
      in if at_expect_unlock a then
           (if unlocked d then t\<lparr>tp := tp t + 1\<rparr> else t\<lparr>fn := fn t + 1\<rparr>)
         else if unlocked d then
           t\<lparr>fp := fp t + 1, unauthorized := unauthorized t @ [at_category a]\<rparr>
         else
           (let t' = t\<lparr>tn := tn t + 1,
                       denied_by_category := bump (at_category a) (denied_by_category t)\<rparr>
            in case reason d of
                 None \<Rightarrow> t'
               | Some r \<Rightarrow> t'\<lparr>deny_reasons := bump (reason_value r) (deny_reasons t')\<rparr>))"

text \<open>\<open>E i\<close> is the nonce and the generated key of the \<open>i\<close>-th attempt.\<close>

primrec run_attempts ::
  "(nat \<Rightarrow> bytes \<times> 'sk) \<Rightarrow> nat \<Rightarrow> ('sk, 'pk) Attempt list \<Rightarrow> tally \<Rightarrow>
     ('pk LockVerifier, tally) exec" where
  "run_attempts E i [] t = ret t"
| "run_attempts E i (a # as) t =
     bindE (case E i of (challenge, generated) \<Rightarrow> at_run a challenge generated)
       (\<lambda>d. run_attempts E (Suc i) as (judge a d t))"

text \<open>The report without its note. The two rates are floats, rounded to six digits.\<close>

record security_report =
  total_attempts :: nat
  adversarial_attempts :: nat
  adversarial_denied :: int
  unauthorized_unlocks :: nat
  legit_attempted :: nat
  legit_unlocked :: nat
  access_precision :: rat
  access_recall :: rat
  confusion :: "nat \<times> nat \<times> nat \<times> nat"
  adversarial_categories :: "pystr list"
  per_category_attempts :: counter
  per_category_denied :: counter
  deny_reason_distribution :: counter

definition rate :: "nat \<Rightarrow> nat \<Rightarrow> rat" where
  "rate hits misses = (if hits + misses \<noteq> 0 then fl (of_nat hits / of_nat (hits + misses)) else 1)"

definition security_report_of :: "('sk, 'pk) Attempt list \<Rightarrow> tally \<Rightarrow> security_report" where
  "security_report_of as t =
     (let n_adv = length (filter (\<lambda>a. \<not> at_expect_unlock a) as)
      in \<lparr>total_attempts = length as, adversarial_attempts = n_adv,
          adversarial_denied = int n_adv - int (length (unauthorized t)),
          unauthorized_unlocks = length (unauthorized t),
          legit_attempted = length (filter at_expect_unlock as), legit_unlocked = tp t,
          access_precision = round_to 6 (rate (tp t) (fp t)),
          access_recall = round_to 6 (rate (tp t) (fn t)),
          confusion = (tp t, fp t, fn t, tn t),
          adversarial_categories =
            sort (filter (\<lambda>c. c \<noteq> lit ''legit'') (map fst (by_category t))),
          per_category_attempts = by_category t, per_category_denied = denied_by_category t,
          deny_reason_distribution = deny_reasons t\<rparr>)"

definition SUITE_N_EACH :: nat where
  "SUITE_N_EACH = 40"

definition SUITE_N_LEGIT :: nat where
  "SUITE_N_LEGIT = 100"

definition security_run ::
  "('sk, 'pk) platform \<Rightarrow> 'sk \<Rightarrow> 'sk \<Rightarrow> (string \<Rightarrow> nat \<Rightarrow> 'sk draw) \<Rightarrow> (nat \<Rightarrow> bytes \<times> 'sk) \<Rightarrow>
     exn + security_report" where
  "security_run P property_sk attacker_sk D E =
     (case build_attempts P D SUITE_N_EACH SUITE_N_LEGIT (build_scenario P property_sk attacker_sk) of
        (Inl e, _) \<Rightarrow> Inl e
      | (Inr attempts, scn) \<Rightarrow>
          (case make_lock P scn of
             Inl e \<Rightarrow> Inl e
           | Inr lock \<Rightarrow>
               (case run_attempts E 0 attempts empty_tally lock of
                  (Inl e, _) \<Rightarrow> Inl e
                | (Inr t, _) \<Rightarrow> Inr (security_report_of attempts t))))"

end
