(* ===== verification/Lock_Guard.thy ===== *)
theory Lock_Guard
  imports Lock_Properties
begin

text \<open>
  A lock in use: whose door it guards, what it has been told of revocations and which
  nonces it has handed out, and its verdict on a key the property issued. The benches
  and the demo run locks through many presentations; these are the facts they share.
\<close>

definition guards ::
  "pystr \<Rightarrow> int \<Rightarrow> 'pk \<Rightarrow> pystr set \<Rightarrow> bytes set \<Rightarrow> 'pk LockVerifier \<Rightarrow> bool" where
  "guards prop room pub R used lk \<longleftrightarrow>
     lock_property_id lk = prop \<and> lock_room_id lk = room \<and> lock_property_pub lk = pub \<and>
     lock_revoked lk = R \<and> ttl (lock_challenges lk) = CHALLENGE_TTL_SECONDS \<and>
     (\<exists>issued accepted. set issued \<subseteq> used \<and> challenges.tracks (lock_challenges lk) issued accepted)"

lemma guardsD:
  assumes "guards prop room pub R used lk"
  shows "lock_property_id lk = prop" "lock_room_id lk = room" "lock_property_pub lk = pub"
    "lock_revoked lk = R"
  using assms by (simp_all add: guards_def)

lemma guards_mono: "guards prop room pub R used lk \<Longrightarrow> used \<subseteq> used' \<Longrightarrow> guards prop room pub R used' lk"
  by (auto simp: guards_def)

lemma new_lock_guards:
  assumes "ed25519 P"
  obtains lk where "new_lock P prop room (public_bytes P pub) revoked = Inr lk"
    "guards prop room pub (set revoked) used lk"
proof (rule that)
  let ?lk = "\<lparr>lock_property_id = prop, lock_room_id = room, lock_property_pub = pub,
    lock_revoked = set revoked,
    lock_challenges = new_store CHALLENGE_TTL_SECONDS CHALLENGE_NONCE_BYTES\<rparr>"
  show "new_lock P prop room (public_bytes P pub) revoked = Inr ?lk"
    using assms by (simp add: new_lock_def ed25519_simps)
  have "challenges.tracks (lock_challenges ?lk) [] []"
    by (simp add: challenges.tracks_init store_inv_new check_new)
  moreover have "ttl (new_store l n) = l" for l n by (simp add: new_store_def)
  ultimately show "guards prop room pub (set revoked) used ?lk"
    unfolding guards_def by (fastforce intro: exI [of _ "[]"])
qed

lemma guards_sync: "guards prop room pub R used lk \<Longrightarrow> guards prop room pub (set rs) used (sync_revocations rs lk)"
  by (simp add: guards_def sync_revocations_def)

lemma store_begin:
  assumes "challenges.tracks s issued accepted" "set issued \<subseteq> used" "c \<notin> used" "ttl s = CHALLENGE_TTL_SECONDS"
  shows "challenges.tracks (issue c t s) (c # issued) accepted" "check (issue c t s) c t = OK"
proof -
  have c: "c \<notin> set issued" using assms(2,3) by blast
  show "challenges.tracks (issue c t s) (c # issued) accepted"
    by (rule challenges.tracks_issue [OF assms(1) c])
  have "store_inv s" "check s c t = UNKNOWN" using assms(1) c by (auto simp: challenges.tracks_def)
  then show "check (issue c t s) c t = OK"
    using assms(4) challenges.issue_OK_iff [of s c t t] by (simp add: CHALLENGE_TTL_SECONDS_def)
qed

lemma guards_begin:
  assumes "guards prop room pub R used lk" "c \<notin> used"
  shows "guards prop room pub R (insert c used) (begin_unlock c t lk)"
    and "check (lock_challenges (begin_unlock c t lk)) c t = OK"
proof -
  obtain issued acc where tr: "challenges.tracks (lock_challenges lk) issued acc" "set issued \<subseteq> used"
    using assms(1) by (auto simp: guards_def)
  have ttl: "ttl (lock_challenges lk) = CHALLENGE_TTL_SECONDS" using assms(1) by (simp add: guards_def)
  note begun = store_begin [OF tr assms(2) ttl, of t]
  have "\<exists>issued accepted. set issued \<subseteq> insert c used \<and>
      challenges.tracks (issue c t (lock_challenges lk)) issued accepted"
    by (rule exI [of _ "c # issued"], rule exI [of _ acc]) (use begun(1) tr(2) in auto)
  then show "guards prop room pub R (insert c used) (begin_unlock c t lk)"
    using assms(1) by (simp add: guards_def begin_unlock_def)
  show "check (lock_challenges (begin_unlock c t lk)) c t = OK"
    using begun(2) by (simp add: begin_unlock_def)
qed

lemma guards_after:
  assumes "guards prop room pub R used lk" "check (lock_challenges lk) c t = OK"
  shows "guards prop room pub R used (after_unlock c t lk)"
proof -
  obtain issued acc where tr: "challenges.tracks (lock_challenges lk) issued acc" "set issued \<subseteq> used"
    using assms(1) by (auto simp: guards_def)
  show ?thesis
    using assms(1) challenges.tracks_accept [OF tr(1) assms(2)] tr(2)
    by (auto simp: guards_def after_unlock_def)
qed

section \<open>The verdict on an issued key\<close>

definition verdict :: "pystr \<Rightarrow> DenyReason option \<Rightarrow> Decision" where
  "verdict k v = (case v of None \<Rightarrow> unlock k | Some r \<Rightarrow> deny r (Some k))"

lemma verdict_simps [simp]:
  "unlocked (verdict k v) \<longleftrightarrow> v = None" "reason (verdict k v) = v"
  by (cases v; simp add: verdict_def)+

lemma guards_present:
  assumes "ed25519 P" "args_ok f a" "issue_credential P f sk a = Inr ik"
    and "guards prop room (public_key P sk) R used lk" "check (lock_challenges lk) c t = OK"
  obtains lk' where "finish_unlock P (ik_token ik) c (sign P (device_key f a) c) t lk =
      (Inr (verdict (ik_key_id ik) (issued_decision (ik_key_id ik) a prop room t R)), lk')"
    "guards prop room (public_key P sk) R used lk'"
proof (cases "issued_decision (ik_key_id ik) a prop room t R")
  case None
  note lk = guardsD [OF assms(4)]
  have "finish_unlock P (ik_token ik) c (sign P (device_key f a) c) t lk =
      (Inr (unlock (ik_key_id ik)), after_unlock c t lk)"
    by (rule finish_unlock_issued [OF assms(1-3) lk(3) _ assms(5)])
      (use assms(1) None in \<open>simp_all add: lk ed25519_simps\<close>)
  then show ?thesis using that None guards_after [OF assms(4,5)] by (simp add: verdict_def)
next
  case (Some r)
  note lk = guardsD [OF assms(4)]
  have "finish_unlock P (ik_token ik) c (sign P (device_key f a) c) t lk =
      (Inr (deny r (Some (ik_key_id ik))), lk)"
    by (rule finish_unlock_issued_denied [OF assms(1-3) lk(3)]) (simp add: lk Some)
  then show ?thesis using that Some assms(4) by (simp add: verdict_def)
qed

end
