(* ===== verification/Security_Properties.thy ===== *)
theory Security_Properties
  imports Adversarial Lock_Guard
begin

text \<open>
  The security bench as a theorem: with a sound signature scheme and the ranges its
  generators document, every run of the suite unlocks each legitimate key and denies each
  adversarial presentation, for the reason its category names.
\<close>

section \<open>Loops\<close>

lemma for_collect_each:
  assumes "\<And>x s. x \<in> set xs \<Longrightarrow> I s \<Longrightarrow> \<exists>y. f x s = (Inr y, u x s) \<and> Q y \<and> I (u x s)" "I s"
  shows "\<exists>ys. for_collect f xs s = (Inr ys, fold u xs s) \<and> length ys = length xs \<and>
    (\<forall>y \<in> set ys. Q y) \<and> I (fold u xs s)"
  using assms
proof (induction xs arbitrary: s)
  case (Cons x xs)
  then obtain y where y: "f x s = (Inr y, u x s)" "Q y" "I (u x s)" by (meson list.set_intros(1))
  have "\<exists>ys. for_collect f xs (u x s) = (Inr ys, fold u xs (u x s)) \<and> length ys = length xs \<and>
      (\<forall>y \<in> set ys. Q y) \<and> I (fold u xs (u x s))"
    by (rule Cons.IH [OF _ y(3)]) (use Cons.prems(1) in auto)
  then show ?case using y by auto
qed simp

section \<open>The lock of the bench\<close>

text \<open>The lock between two attempts, of which \<open>used\<close> are the nonces so far.\<close>

definition at_lock :: "'pk \<Rightarrow> pystr set \<Rightarrow> bytes list \<Rightarrow> 'pk LockVerifier \<Rightarrow> bool" where
  "at_lock pub R used lk \<longleftrightarrow> guards BENCH_PROPERTY_ID TARGET_ROOM pub R (set used) lk"

lemma at_lockD:
  assumes "at_lock pub R used lk"
  shows "lock_property_pub lk = pub" "lock_property_id lk = BENCH_PROPERTY_ID"
    "lock_room_id lk = TARGET_ROOM" "lock_revoked lk = R"
  using assms by (simp_all add: at_lock_def guardsD)

lemma at_lock_begin:
  assumes "at_lock pub R used lk" "c \<notin> set used"
  shows "at_lock pub R (c # used) (begin_unlock c t lk)"
    and "check (lock_challenges (begin_unlock c t lk)) c t = OK"
  using guards_begin [OF _ assms(2)] assms(1) by (simp_all add: at_lock_def)

lemma at_lock_after:
  "at_lock pub R used lk \<Longrightarrow> check (lock_challenges lk) c t = OK \<Longrightarrow> at_lock pub R used (after_unlock c t lk)"
  by (simp add: at_lock_def guards_after)

section \<open>How an attempt ends\<close>

text \<open>
  The attempt ends with the verdict \<open>v\<close> (a reason, or \<open>None\<close> for an unlock) at every
  lock of the bench, with any unused nonce and any generated key \<open>ok\<close> admits.
\<close>

definition ends ::
  "'pk \<Rightarrow> pystr set \<Rightarrow> ('sk \<Rightarrow> bool) \<Rightarrow> DenyReason option \<Rightarrow> ('sk, 'pk) Attempt \<Rightarrow> bool" where
  "ends pub R ok v a \<longleftrightarrow>
     (\<forall>c g used lk. at_lock pub R used lk \<and> c \<notin> set used \<and> ok g \<longrightarrow>
        (\<exists>d lk'. at_run a c g lk = (Inr d, lk') \<and> at_lock pub R (c # used) lk' \<and>
           (unlocked d \<longleftrightarrow> v = None) \<and> reason d = v))"

lemma endsI:
  assumes "\<And>c g used lk. at_lock pub R (c # used) lk \<Longrightarrow> check (lock_challenges lk) c t = OK \<Longrightarrow> ok g \<Longrightarrow>
      \<exists>d lk'. m c g lk = (Inr d, lk') \<and> at_lock pub R (c # used) lk' \<and>
         (unlocked d \<longleftrightarrow> v = None) \<and> reason d = v"
    and "\<And>c g. at_run a c g = thenE (modify (begin_unlock c t)) (m c g)"
  shows "ends pub R ok v a"
  unfolding ends_def
proof (intro allI impI; elim conjE)
  fix c g used lk
  assume "at_lock pub R used lk" "c \<notin> set used" "ok g"
  from assms(1) [OF at_lock_begin [OF this(1,2)] this(3)]
  show "\<exists>d lk'. at_run a c g lk = (Inr d, lk') \<and> at_lock pub R (c # used) lk' \<and>
      (unlocked d \<longleftrightarrow> v = None) \<and> reason d = v"
    by (simp add: assms(2))
qed

text \<open>The key of a round, and the decision its payload is due at the bench's lock.\<close>

lemma demo_args_simps [simp]:
  "ia_property_id (demo_args rooms i u p) = p" "ia_room_ids (demo_args rooms i u p) = rooms"
  "ia_valid_from (demo_args rooms i u p) = i" "ia_valid_until (demo_args rooms i u p) = u"
  "ia_key_id (demo_args rooms i u p) = None" "ia_nonce (demo_args rooms i u p) = None"
  "device_key f (demo_args rooms i u p) = fresh_sk f"
  by (simp_all add: demo_args_def device_key_def)

lemma or_else_None [simp]: "or_else None x = x"
  by (simp add: or_else_def)

lemma demo_args_ok:
  assumes "fresh_ok f" "\<bar>i\<bar> \<le> 2 ^ 63" "\<bar>u\<bar> \<le> 2 ^ 63" "\<forall>r \<in> set rooms. \<bar>r\<bar> \<le> 2 ^ 63" "text_ok p"
  shows "args_ok f (demo_args rooms i u p)"
  using assms by (simp add: args_ok_def fresh_ok_def list_all_iff short_int_64)
    (simp add: demo_args_def short_int_64)

lemma issue_demo_ok:
  assumes "args_ok f (demo_args rooms i u p)" "i < u"
  obtains ik where
    "issue_credential P f (case signer of None \<Rightarrow> sk | Some s \<Rightarrow> s) (demo_args rooms i u p) = Inr ik"
    "\<And>scn. scn_property_sk scn = sk \<Longrightarrow> issue_demo P f rooms i u p signer scn = (Inr ik, scn)"
    "ik_key_id ik = fresh_uuid f"
proof -
  obtain ik where ik: "issue_credential P f (case signer of None \<Rightarrow> sk | Some s \<Rightarrow> s) (demo_args rooms i u p) = Inr ik"
    by (rule issue_credential_Inr [OF assms(1), of P "case signer of None \<Rightarrow> sk | Some s \<Rightarrow> s"])
      (use assms(2) in simp_all)
  show ?thesis
  proof (rule that [OF ik])
    show "scn_property_sk scn = sk \<Longrightarrow> issue_demo P f rooms i u p signer scn = (Inr ik, scn)" for scn
      using ik by (cases signer) (simp_all add: issue_demo_def)
    show "ik_key_id ik = fresh_uuid f" using issued_fields(1) [OF ik] by simp
  qed
qed

section \<open>Single presentations\<close>

lemma ends_present_key:
  assumes "ed25519 P" "args_ok f a" "issue_credential P f sk a = Inr ik"
    and "issued_decision (ik_key_id ik) a BENCH_PROPERTY_ID TARGET_ROOM BENCH_NOW R = v"
  shows "ends (public_key P sk) R ok v (attempt c e (present_key P ik))"
proof (rule endsI [where t = BENCH_NOW and m = "\<lambda>c g. finish_unlock P (ik_token ik) c
    (sign P (device_key f a) c) BENCH_NOW"])
  note dev = device_sign_issued [OF assms(1,3)]
  show "at_run (attempt c e (present_key P ik)) c' g = thenE (modify (begin_unlock c' BENCH_NOW))
      (finish_unlock P (ik_token ik) c' (sign P (device_key f a) c') BENCH_NOW)" for c' g
    by (simp add: attempt_def present_key_def present_def dev)
  fix c' g used lk
  assume lk: "at_lock (public_key P sk) R (c' # used) lk" "check (lock_challenges lk) c' BENCH_NOW = OK"
  obtain lk' where "finish_unlock P (ik_token ik) c' (sign P (device_key f a) c') BENCH_NOW lk =
      (Inr (verdict (ik_key_id ik) v), lk')" "at_lock (public_key P sk) R (c' # used) lk'"
    using guards_present [OF assms(1-3) lk(1) [unfolded at_lock_def] lk(2)] assms(4)
    by (metis at_lock_def)
  then show "\<exists>d lk'. finish_unlock P (ik_token ik) c' (sign P (device_key f a) c') BENCH_NOW lk = (Inr d, lk') \<and>
      at_lock (public_key P sk) R (c' # used) lk' \<and> (unlocked d \<longleftrightarrow> v = None) \<and> reason d = v"
    by simp
qed

lemma ends_unsigned:
  assumes "parse_token P token = Inr found"
    and "\<And>t. found = Some t \<Longrightarrow> \<not> signature_ok P pub (pt_payload_bytes t) (pt_signature t)"
    and "\<And>c. \<exists>r. (case device of None \<Rightarrow> Inr (replicate 64 0) | Some k \<Rightarrow> device_sign P k c) = Inr r"
  shows "ends pub R ok (Some (if found = None then MALFORMED else FORGED_SIGNATURE))
    (attempt c e (present P token device BENCH_NOW False))"
proof -
  obtain resp where resp: "\<And>c. (case device of None \<Rightarrow> Inr (replicate 64 0) | Some k \<Rightarrow> device_sign P k c) = Inr (resp c)"
    using assms(3) by metis
  show ?thesis
  proof (rule endsI [where t = BENCH_NOW and m = "\<lambda>c g. finish_unlock P token c (resp c) BENCH_NOW"])
    show "at_run (attempt c e (present P token device BENCH_NOW False)) c' g =
        thenE (modify (begin_unlock c' BENCH_NOW)) (finish_unlock P token c' (resp c') BENCH_NOW)" for c' g
      using resp [of c'] by (cases device) (simp_all add: attempt_def present_def)
    fix c' g used lk
    assume lk: "at_lock pub R (c' # used) lk"
    have "finish_unlock P token c' (resp c') BENCH_NOW lk =
        (Inr (deny (if found = None then MALFORMED else FORGED_SIGNATURE) None), lk)"
      using finish_unlock_unsigned [of P token lk c' "resp c'" BENCH_NOW] assms(1,2) at_lockD(1) [OF lk] by simp
    then show "\<exists>d lk'. finish_unlock P token c' (resp c') BENCH_NOW lk = (Inr d, lk') \<and>
        at_lock pub R (c' # used) lk' \<and>
        (unlocked d \<longleftrightarrow> Some (if found = None then MALFORMED else FORGED_SIGNATURE) = None) \<and>
        reason d = Some (if found = None then MALFORMED else FORGED_SIGNATURE)"
      using lk by simp
  qed
qed

lemma ends_impersonation:
  assumes "ed25519 P" "args_ok f a" "issue_credential P f sk a = Inr ik"
    and "issued_decision (ik_key_id ik) a BENCH_PROPERTY_ID TARGET_ROOM BENCH_NOW R = None"
    and "\<And>g c. ok g \<Longrightarrow> \<not> verify P (public_key P (device_key f a)) (sign P g c) c"
  shows "ends (public_key P sk) R ok (Some BAD_RESPONSE)
    (attempt c e (present P (ik_token ik) (Some (ik_device_sk_b64 ik)) BENCH_NOW True))"
proof (rule endsI [where t = BENCH_NOW and m = "\<lambda>c g. finish_unlock P (ik_token ik) c (sign P g c) BENCH_NOW"])
  fix c' g used lk
  assume lk: "at_lock (public_key P sk) R (c' # used) lk" "check (lock_challenges lk) c' BENCH_NOW = OK"
    and g: "ok g"
  note lk' = at_lockD [OF lk(1)]
  have "finish_unlock P (ik_token ik) c' (sign P g c') BENCH_NOW lk =
      (Inr (deny BAD_RESPONSE (Some (ik_key_id ik))), lk)"
    by (rule finish_unlock_wrong_device [OF assms(1-3) lk'(1) _ lk(2) assms(5) [OF g]])
      (use assms(4) in \<open>simp add: lk'\<close>)
  then show "\<exists>d lk'. finish_unlock P (ik_token ik) c' (sign P g c') BENCH_NOW lk = (Inr d, lk') \<and>
      at_lock (public_key P sk) R (c' # used) lk' \<and> (unlocked d \<longleftrightarrow> Some BAD_RESPONSE = None) \<and>
      reason d = Some BAD_RESPONSE"
    using lk(1) by simp
qed (simp add: attempt_def present_def)

lemma ends_replay:
  assumes "ed25519 P" "args_ok f a" "issue_credential P f sk a = Inr ik"
    and "issued_decision (ik_key_id ik) a BENCH_PROPERTY_ID TARGET_ROOM BENCH_NOW R = None"
  shows "ends (public_key P sk) R ok (Some REPLAYED) (attempt c e (replay P ik))"
proof (rule endsI [where t = BENCH_NOW and m = "\<lambda>c g. bindE (finish_unlock P (ik_token ik) c
    (sign P (device_key f a) c) BENCH_NOW) (\<lambda>first. if \<not> unlocked first then raise AssertionError
      else finish_unlock P (ik_token ik) c (sign P (device_key f a) c) BENCH_NOW)"])
  show "at_run (attempt c e (replay P ik)) c' g = thenE (modify (begin_unlock c' BENCH_NOW))
      (bindE (finish_unlock P (ik_token ik) c' (sign P (device_key f a) c') BENCH_NOW)
        (\<lambda>first. if \<not> unlocked first then raise AssertionError
           else finish_unlock P (ik_token ik) c' (sign P (device_key f a) c') BENCH_NOW))" for c' g
    by (simp add: attempt_def replay_def device_sign_issued [OF assms(1,3)])
  fix c' g used lk
  assume lk: "at_lock (public_key P sk) R (c' # used) lk" "check (lock_challenges lk) c' BENCH_NOW = OK"
  note lk' = at_lockD [OF lk(1)]
  have opens: "opens P lk (ik_token ik) c' (sign P (device_key f a) c') BENCH_NOW (sorted_payload (ik_payload ik))"
    by (rule opens_issued [OF assms(1-3) lk'(1) _ lk(2)])
      (use assms(1,4) in \<open>simp_all add: lk' ed25519_simps\<close>)
  show "\<exists>d lk'. bindE (finish_unlock P (ik_token ik) c' (sign P (device_key f a) c') BENCH_NOW)
        (\<lambda>first. if \<not> unlocked first then raise AssertionError
           else finish_unlock P (ik_token ik) c' (sign P (device_key f a) c') BENCH_NOW) lk = (Inr d, lk') \<and>
      at_lock (public_key P sk) R (c' # used) lk' \<and> (unlocked d \<longleftrightarrow> Some REPLAYED = None) \<and>
      reason d = Some REPLAYED"
    using finish_unlock_opens [OF opens] finish_unlock_again [OF opens] at_lock_after [OF lk] by simp
qed

section \<open>Tampered and malformed tokens\<close>

text \<open>
  Documented behaviour of a signature scheme, for the keys of one run: a signature is of
  one message only, and one made with another key does not verify.
\<close>

definition signs_one :: "('sk, 'pk) platform \<Rightarrow> 'sk \<Rightarrow> bool" where
  "signs_one P sk \<longleftrightarrow> (\<forall>m m'. verify P (public_key P sk) (sign P sk m) m' \<longrightarrow> m' = m)"

definition keys_apart :: "('sk, 'pk) platform \<Rightarrow> 'sk \<Rightarrow> 'sk \<Rightarrow> bool" where
  "keys_apart P sk other \<longleftrightarrow> (\<forall>m. \<not> verify P (public_key P sk) (sign P other m) m)"

lemma second_segment_token:
  "second_segment (b64u_encode b @ lit ''.'' @ b64u_encode s) = Inr (b64u_encode s)"
proof -
  have nd: "46 \<notin> set (b64u_encode x)" for x by (rule b64u_encode_no_dot)
  then have "dropWhile (\<lambda>c. c \<noteq> 46) (b64u_encode b @ 46 # b64u_encode s) = 46 # b64u_encode s"
    by (auto simp: dropWhile_append)
  moreover have "takeWhile (\<lambda>c. c \<noteq> 46) (b64u_encode s) = b64u_encode s"
    using nd [of s] by (auto simp: takeWhile_eq_all_conv)
  ultimately show ?thesis by (simp add: second_segment_def DOT_def lit_def)
qed

lemma tampered_unsigned:
  assumes "args_ok f a" "issue_credential P f sk a = Inr ik" "signs_one P sk"
    and "u \<noteq> ia_valid_until a" "short_int u"
  obtains token t where "tampered_token P ''valid_until'' (JInt u) ik = Inr token"
    "parse_token P token = Inr (Some t)"
    "\<not> signature_ok P (public_key P sk) (pt_payload_bytes t) (pt_signature t)"
proof -
  let ?a = "a\<lparr>ia_valid_until := u\<rparr>"
  obtain b where b: "canonical_bytes P (issue_payload P f a) = Inr b"
    "issue_credential P f sk a = Inr \<lparr>ik_key_id = or_else (ia_key_id a) (fresh_uuid f),
       ik_token = b64u_encode b @ lit ''.'' @ b64u_encode (sign P sk b),
       ik_device_sk_b64 = b64u_encode (private_bytes P (device_key f a)),
       ik_payload = issue_payload P f a\<rparr>"
    by (rule issue_credential_Inr [OF assms(1) issued_fields(3) [OF assms(2)], of P sk])
  have ok: "args_ok f ?a" using assms(1,5) by (simp add: args_ok_def)
  obtain b' where b': "canonical_bytes P (issue_payload P f ?a) = Inr b'"
    "json_loads (nesting_limit P) b' = Inr (JObj (sorted_payload (issue_payload P f ?a)))"
    by (rule canonical_bytes_issue [OF ok])
  have changed: "AList.update (lit ''valid_until'') (JInt u) (issue_payload P f a) = issue_payload P f ?a"
    by (simp add: issue_payload_def device_key_def)
  let ?t = "b64u_encode b' @ lit ''.'' @ b64u_encode (sign P sk b)"
  have "map_of (issue_payload P f ?a) (lit ''key_id'') \<noteq> None" by (simp add: issue_payload_def)
  then have parsed: "parse_token P ?t = Inr (Some \<lparr>pt_payload = sorted_payload (issue_payload P f ?a),
      pt_payload_bytes = b', pt_signature = sign P sk b\<rparr>)"
    by (simp add: parse_token_segments b'(2) map_of_sorted_payload issue_payload_keys)
  have "b' \<noteq> b"
  proof
    assume "b' = b"
    then obtain b0 where "canonical_bytes P (issue_payload P f a) = Inr b0"
      "json_loads (nesting_limit P) b0 = Inr (JObj (sorted_payload (issue_payload P f a)))" "b0 = b'"
      using canonical_bytes_issue [OF assms(1), of P] b(1) by (metis Inr_inject)
    then have "sorted_payload (issue_payload P f a) = sorted_payload (issue_payload P f ?a)"
      using b'(2) by simp
    then have "map_of (issue_payload P f a) = map_of (issue_payload P f ?a)"
      by (metis map_of_sorted_payload issue_payload_keys)
    then have "map_of (issue_payload P f a) (lit ''valid_until'') = map_of (issue_payload P f ?a) (lit ''valid_until'')"
      by simp
    then show False using assms(4) by (simp add: issue_payload_def)
  qed
  then have "\<not> verify P (public_key P sk) (sign P sk b) b'"
    using assms(3) by (auto simp: signs_one_def)
  moreover have "tampered_token P ''valid_until'' (JInt u) ik = Inr ?t"
    using assms(2) b by (auto simp: tampered_token_def changed b'(1) second_segment_token)
  ultimately show ?thesis using that parsed by (simp add: signature_ok_def)
qed

lemma garbage_malformed: "token \<in> set garbage \<Longrightarrow> parse_token P token = Inr None"
proof -
  have "parse_token P (lit ''not-a-token'') = Inr None" "parse_token P (lit '''') = Inr None"
    "parse_token P (lit ''....'') = Inr None"
    by (simp_all add: parse_token_def lit_def DOT_def)
  moreover have "parse_token P (lit ''aGVsbG8.d29ybGQ'') = Inr None"
    by code_simp
  moreover have "parse_token P (lit ''%%%.$$$'') = Inr None"
    by code_simp
  ultimately show "token \<in> set garbage \<Longrightarrow> parse_token P token = Inr None"
    by (auto simp: garbage_def)
qed

section \<open>The loops\<close>

text \<open>The reason for which each category is denied; a legitimate key has none.\<close>

definition denial :: "pystr \<Rightarrow> DenyReason option" where
  "denial = map_of
     [(lit ''expired'', EXPIRED), (lit ''not_yet_valid'', NOT_YET_VALID), (lit ''wrong_room'', WRONG_ROOM),
      (lit ''wrong_property'', WRONG_PROPERTY), (lit ''forged_signature'', FORGED_SIGNATURE),
      (lit ''tampered_payload'', FORGED_SIGNATURE), (lit ''revoked'', REVOKED), (lit ''replayed'', REPLAYED),
      (lit ''impersonation'', BAD_RESPONSE), (lit ''malformed'', MALFORMED)]"

definition judged :: "'pk \<Rightarrow> pystr set \<Rightarrow> ('sk \<Rightarrow> bool) \<Rightarrow> ('sk, 'pk) Attempt \<Rightarrow> bool" where
  "judged pub R ok a \<longleftrightarrow>
     at_expect_unlock a = (denial (at_category a) = None) \<and> ends pub R ok (denial (at_category a)) a"

definition series ::
  "'pk \<Rightarrow> pystr set \<Rightarrow> ('sk \<Rightarrow> bool) \<Rightarrow> string \<times> nat \<Rightarrow> ('sk, 'pk) Attempt list \<Rightarrow> bool" where
  "series pub R ok = (\<lambda>(c, n) as.
     length as = n \<and> (\<forall>a \<in> set as. at_category a = lit c \<and> judged pub R ok a))"

lemma judged_attempt:
  "ends pub R ok (denial (lit c)) (attempt c e m) \<Longrightarrow> e = (denial (lit c) = None) \<Longrightarrow>
     at_category (attempt c e m) = lit c \<and> judged pub R ok (attempt c e m)"
  by (simp add: judged_def attempt_def)

definition scn_keys :: "'sk \<Rightarrow> 'sk \<Rightarrow> 'sk Scenario \<Rightarrow> bool" where
  "scn_keys sk attacker scn \<longleftrightarrow> scn_property_sk scn = sk \<and> scn_attacker_sk scn = attacker"

lemma series_loop:
  assumes "\<And>i scn. scn_keys sk attacker scn \<Longrightarrow> \<exists>a. body i scn = (Inr a, scn) \<and>
      at_category a = lit c \<and> judged pub R ok a"
    and "scn_keys sk attacker scn"
  shows "\<exists>as. for_collect body [0..<n] scn = (Inr as, scn) \<and> series pub R ok (c, n) as"
proof -
  have "\<exists>as. for_collect body [0..<n] scn = (Inr as, fold (\<lambda>_ s. s) [0..<n] scn) \<and>
      length as = length [0..<n] \<and> (\<forall>a \<in> set as. at_category a = lit c \<and> judged pub R ok a) \<and>
      scn_keys sk attacker (fold (\<lambda>_ s. s) [0..<n] scn)"
    by (rule for_collect_each) (use assms in blast)+
  moreover have "fold (\<lambda>_ s. s) xs y = y" for xs :: "nat list" and y :: "'d Scenario"
    by (induction xs) simp_all
  ultimately show ?thesis by (auto simp: series_def)
qed

text \<open>What the generators document of the numbers, the ids and the nonces they draw.\<close>

definition suite_draws :: "(string \<Rightarrow> nat \<Rightarrow> 'sk draw) \<Rightarrow> bool" where
  "suite_draws D \<longleftrightarrow>
     (\<forall>c i. fresh_ok (dr_fresh (D c i))) \<and>
     (\<forall>i. 1800 \<le> dr_number (D ''legit'' i) \<and> dr_number (D ''legit'' i) \<le> 7200) \<and>
     (\<forall>i. 60 \<le> dr_number (D ''expired'' i) \<and> dr_number (D ''expired'' i) \<le> 100000) \<and>
     (\<forall>i. 60 \<le> dr_number (D ''not_yet_valid'' i) \<and> dr_number (D ''not_yet_valid'' i) \<le> 100000) \<and>
     (\<forall>i. dr_number (D ''wrong_room'' i) \<in> set wrong_rooms) \<and>
     (\<forall>c i j. c \<noteq> ''revoked'' \<longrightarrow>
        fresh_uuid (dr_fresh (D c i)) \<noteq> fresh_uuid (dr_fresh (D ''revoked'' j)))"

definition revoked_uuids :: "(string \<Rightarrow> nat \<Rightarrow> 'sk draw) \<Rightarrow> nat \<Rightarrow> pystr set" where
  "revoked_uuids D n = (\<lambda>i. fresh_uuid (dr_fresh (D ''revoked'' i))) ` {0..<n}"

lemma unrevoked: "suite_draws D \<Longrightarrow> c \<noteq> ''revoked'' \<Longrightarrow> fresh_uuid (dr_fresh (D c i)) \<notin> revoked_uuids D n"
  unfolding suite_draws_def revoked_uuids_def by blast

lemma bench_text_ok [simp]: "text_ok BENCH_PROPERTY_ID" "text_ok OTHER_PROPERTY_ID"
  by (simp_all add: BENCH_PROPERTY_ID_def OTHER_PROPERTY_ID_def)

text \<open>One round of a category that presents its key once.\<close>

lemma present_round:
  assumes "ed25519 P" "suite_draws D" "\<bar>i\<bar> \<le> 2 ^ 63" "\<bar>u\<bar> \<le> 2 ^ 63" "\<bar>r\<bar> \<le> 2 ^ 63" "text_ok p" "i < u"
    and "issued_decision (fresh_uuid (dr_fresh (D c j))) (demo_args [r] i u p :: 'sk issue_args)
      BENCH_PROPERTY_ID TARGET_ROOM BENCH_NOW (revoked_uuids D n) = denial (lit c)"
    and "scn_keys sk attacker (scn :: 'sk Scenario)" "e = (denial (lit c) = None)"
  shows "\<exists>a. bindE (issue_demo P (dr_fresh (D c j)) [r] i u p None)
      (\<lambda>key. ret (attempt c e (present_key P key))) scn = (Inr a, scn) \<and>
    at_category a = lit c \<and> judged (public_key P sk) (revoked_uuids D n) ok a"
proof -
  have ok: "args_ok (dr_fresh (D c j)) (demo_args [r] i u p)"
    by (rule demo_args_ok) (use assms(2-6) in \<open>simp_all add: suite_draws_def\<close>)
  obtain ik where ik: "issue_credential P (dr_fresh (D c j)) (case None of None \<Rightarrow> sk | Some s \<Rightarrow> s)
      (demo_args [r] i u p) = Inr ik"
    "\<And>scn. scn_property_sk scn = sk \<Longrightarrow> issue_demo P (dr_fresh (D c j)) [r] i u p None scn = (Inr ik, scn)"
    "ik_key_id ik = fresh_uuid (dr_fresh (D c j))"
    by (rule issue_demo_ok [OF ok assms(7), where P = P and signer = None and sk = sk]) blast
  have issued: "issue_credential P (dr_fresh (D c j)) sk (demo_args [r] i u p) = Inr ik"
    using ik(1) by simp
  have "ends (public_key P sk) (revoked_uuids D n) ok (denial (lit c)) (attempt c e (present_key P ik))"
    by (rule ends_present_key [OF assms(1) ok issued]) (use assms(8) ik(3) in simp)
  then show ?thesis
    using ik(2) [of scn] assms(9,10) judged_attempt by (fastforce simp: scn_keys_def)
qed

lemmas bench_consts = BENCH_NOW_def TARGET_ROOM_def

lemma issued_decision_demo:
  "issued_decision k (demo_args [r] i u p) BENCH_PROPERTY_ID TARGET_ROOM BENCH_NOW R =
     (if p \<noteq> BENCH_PROPERTY_ID then Some WRONG_PROPERTY
      else if r \<noteq> TARGET_ROOM then Some WRONG_ROOM
      else if BENCH_NOW < i then Some NOT_YET_VALID
      else if BENCH_NOW > u then Some EXPIRED
      else if k \<in> R then Some REVOKED else None)"
  by (auto simp: issued_decision_def)

lemma denial_simps [simp]:
  "denial (lit ''legit'') = None" "denial (lit ''expired'') = Some EXPIRED"
  "denial (lit ''not_yet_valid'') = Some NOT_YET_VALID" "denial (lit ''wrong_room'') = Some WRONG_ROOM"
  "denial (lit ''wrong_property'') = Some WRONG_PROPERTY"
  "denial (lit ''forged_signature'') = Some FORGED_SIGNATURE"
  "denial (lit ''tampered_payload'') = Some FORGED_SIGNATURE" "denial (lit ''revoked'') = Some REVOKED"
  "denial (lit ''replayed'') = Some REPLAYED" "denial (lit ''impersonation'') = Some BAD_RESPONSE"
  "denial (lit ''malformed'') = Some MALFORMED"
  by (simp_all add: denial_def)

text \<open>A round whose key has printable times and is due the verdict \<open>v\<close>.\<close>

definition round_due :: "time \<Rightarrow> time \<Rightarrow> int \<Rightarrow> pystr \<Rightarrow> pystr \<Rightarrow> pystr set \<Rightarrow> DenyReason option \<Rightarrow> bool" where
  "round_due i u r p k R v \<longleftrightarrow>
     0 \<le> i \<and> i < u \<and> u \<le> 2 ^ 32 \<and> \<bar>r\<bar> \<le> 2 ^ 32 \<and>
     v = (if p \<noteq> BENCH_PROPERTY_ID then Some WRONG_PROPERTY
          else if r \<noteq> TARGET_ROOM then Some WRONG_ROOM
          else if BENCH_NOW < i then Some NOT_YET_VALID
          else if BENCH_NOW > u then Some EXPIRED
          else if k \<in> R then Some REVOKED else None)"

lemma window_loop:
  assumes "ed25519 P" "suite_draws D" "scn_keys sk attacker (scn :: 'sk Scenario)" "text_ok p"
    "e = (denial (lit c) = None)"
    and "\<And>i. round_due (lo i) (hi i) (r i) p (fresh_uuid (dr_fresh (D c i))) (revoked_uuids D n) (denial (lit c))"
  shows "\<exists>as. for_collect (\<lambda>i. bindE (issue_demo P (dr_fresh (D c i)) [r i] (lo i) (hi i) p None)
      (\<lambda>key. ret (attempt c e (present_key P key)))) [0..<m] scn = (Inr as, scn) \<and>
    series (public_key P sk) (revoked_uuids D n) ok (c, m) as"
proof (rule series_loop [OF _ assms(3)])
  fix i and scn' :: "'sk Scenario"
  assume "scn_keys sk attacker scn'"
  moreover have "issued_decision (fresh_uuid (dr_fresh (D c i))) (demo_args [r i] (lo i) (hi i) p :: 'sk issue_args)
      BENCH_PROPERTY_ID TARGET_ROOM BENCH_NOW (revoked_uuids D n) = denial (lit c)"
    using assms(6) [of i] by (simp only: round_due_def issued_decision_demo)
  ultimately show "\<exists>a. bindE (issue_demo P (dr_fresh (D c i)) [r i] (lo i) (hi i) p None)
      (\<lambda>key. ret (attempt c e (present_key P key))) scn' = (Inr a, scn') \<and>
    at_category a = lit c \<and> judged (public_key P sk) (revoked_uuids D n) ok a"
    using assms(6) [of i]
    by (intro present_round [OF assms(1,2) _ _ _ assms(4)] assms(5)) (auto simp: round_due_def)
qed

lemma rounds_due:
  "1800 \<le> x \<and> x \<le> 7200 \<Longrightarrow> k \<notin> R \<Longrightarrow>
     round_due (BENCH_NOW - x) (BENCH_NOW + x) TARGET_ROOM BENCH_PROPERTY_ID k R None"
  "60 \<le> x \<and> x \<le> 100000 \<Longrightarrow>
     round_due (BENCH_NOW - 2 * x) (BENCH_NOW - x) TARGET_ROOM BENCH_PROPERTY_ID k R (Some EXPIRED)"
  "60 \<le> x \<and> x \<le> 100000 \<Longrightarrow>
     round_due (BENCH_NOW + x) (BENCH_NOW + 2 * x) TARGET_ROOM BENCH_PROPERTY_ID k R (Some NOT_YET_VALID)"
  "r \<in> set wrong_rooms \<Longrightarrow>
     round_due (BENCH_NOW - 3600) (BENCH_NOW + 3600) r BENCH_PROPERTY_ID k R (Some WRONG_ROOM)"
  "round_due (BENCH_NOW - 3600) (BENCH_NOW + 3600) TARGET_ROOM OTHER_PROPERTY_ID k R (Some WRONG_PROPERTY)"
  "k \<notin> R \<Longrightarrow> round_due (BENCH_NOW - 3600) (BENCH_NOW + 3600) TARGET_ROOM BENCH_PROPERTY_ID k R None"
  "k \<in> R \<Longrightarrow> round_due (BENCH_NOW - 3600) (BENCH_NOW + 3600) TARGET_ROOM BENCH_PROPERTY_ID k R (Some REVOKED)"
  by (auto simp: round_due_def bench_consts wrong_rooms_def OTHER_PROPERTY_ID_def BENCH_PROPERTY_ID_def)

lemma drawn:
  assumes "suite_draws D"
  shows "1800 \<le> dr_number (D ''legit'' i)" "dr_number (D ''legit'' i) \<le> 7200"
    "60 \<le> dr_number (D ''expired'' i)" "dr_number (D ''expired'' i) \<le> 100000"
    "60 \<le> dr_number (D ''not_yet_valid'' i)" "dr_number (D ''not_yet_valid'' i) \<le> 100000"
    "dr_number (D ''wrong_room'' i) \<in> set wrong_rooms" "fresh_ok (dr_fresh (D c i))"
  using assms by (simp_all add: suite_draws_def)

lemma window_loops:
  assumes "ed25519 P" "suite_draws D" "scn_keys sk attacker scn"
  shows "\<exists>as. legit_attempts P (D ''legit'') m scn = (Inr as, scn) \<and>
      series (public_key P sk) (revoked_uuids D n) ok (''legit'', m) as"
    and "\<exists>as. expired_attempts P (D ''expired'') m scn = (Inr as, scn) \<and>
      series (public_key P sk) (revoked_uuids D n) ok (''expired'', m) as"
    and "\<exists>as. early_attempts P (D ''not_yet_valid'') m scn = (Inr as, scn) \<and>
      series (public_key P sk) (revoked_uuids D n) ok (''not_yet_valid'', m) as"
    and "\<exists>as. wrong_room_attempts P (D ''wrong_room'') m scn = (Inr as, scn) \<and>
      series (public_key P sk) (revoked_uuids D n) ok (''wrong_room'', m) as"
    and "\<exists>as. wrong_property_attempts P (D ''wrong_property'') m scn = (Inr as, scn) \<and>
      series (public_key P sk) (revoked_uuids D n) ok (''wrong_property'', m) as"
  unfolding legit_attempts_def expired_attempts_def early_attempts_def wrong_room_attempts_def
    wrong_property_attempts_def issue_hour_def Let_def
  by (rule window_loop [OF assms]; simp add: rounds_due drawn [OF assms(2)] unrevoked [OF assms(2)])+

text \<open>The key of an hour each way, which the other categories present in their own way.\<close>

abbreviation hour_args :: "'sk issue_args" where
  "hour_args \<equiv> demo_args [TARGET_ROOM] (BENCH_NOW - 3600) (BENCH_NOW + 3600) BENCH_PROPERTY_ID"

lemma hour_key:
  assumes "suite_draws D" "scn_keys sk attacker scn"
  obtains ik where "args_ok (dr_fresh (D c i)) (hour_args :: 'sk issue_args)"
    "issue_credential P (dr_fresh (D c i)) (case signer of None \<Rightarrow> sk | Some s \<Rightarrow> s) hour_args = Inr ik"
    "issue_hour P (dr_fresh (D c i)) BENCH_PROPERTY_ID signer (scn :: 'sk Scenario) = (Inr ik, scn)"
    "ik_key_id ik = fresh_uuid (dr_fresh (D c i))"
proof -
  have ok: "args_ok (dr_fresh (D c i)) (hour_args :: 'sk issue_args)"
    by (rule demo_args_ok) (simp_all add: drawn [OF assms(1)] bench_consts)
  show ?thesis
    by (rule issue_demo_ok [OF ok, where P = P and signer = signer and sk = sk])
      (use that [OF ok] assms(2) in \<open>simp_all add: bench_consts scn_keys_def issue_hour_def\<close>)
qed

lemma hour_decision:
  "issued_decision k hour_args BENCH_PROPERTY_ID TARGET_ROOM BENCH_NOW R = (if k \<in> R then Some REVOKED else None)"
  unfolding issued_decision_demo by (simp add: bench_consts)

definition suite_keys ::
  "('sk, 'pk) platform \<Rightarrow> 'sk \<Rightarrow> 'sk \<Rightarrow> (string \<Rightarrow> nat \<Rightarrow> 'sk draw) \<Rightarrow> ('sk \<Rightarrow> bool) \<Rightarrow> bool" where
  "suite_keys P sk attacker D ok \<longleftrightarrow>
     ed25519 P \<and> signs_one P sk \<and> keys_apart P sk attacker \<and>
     (\<forall>i g. ok g \<longrightarrow> keys_apart P (fresh_sk (dr_fresh (D ''impersonation'' i))) g)"

lemma forged_unsigned:
  assumes "args_ok f a" "issue_credential P f other a = Inr ik" "keys_apart P sk other"
  obtains t where "parse_token P (ik_token ik) = Inr (Some t)"
    "\<not> signature_ok P (public_key P sk) (pt_payload_bytes t) (pt_signature t)"
proof -
  obtain b where b: "issue_credential P f other a = Inr \<lparr>ik_key_id = or_else (ia_key_id a) (fresh_uuid f),
       ik_token = b64u_encode b @ lit ''.'' @ b64u_encode (sign P other b),
       ik_device_sk_b64 = b64u_encode (private_bytes P (device_key f a)),
       ik_payload = issue_payload P f a\<rparr>"
    "parse_token P (b64u_encode b @ lit ''.'' @ b64u_encode (sign P other b)) =
       Inr (Some \<lparr>pt_payload = sorted_payload (issue_payload P f a), pt_payload_bytes = b,
             pt_signature = sign P other b\<rparr>)"
    by (rule issue_credential_Inr [OF assms(1) issued_fields(3) [OF assms(2)], of P other])
  then have tok: "parse_token P (ik_token ik) = Inr (Some \<lparr>pt_payload = sorted_payload (issue_payload P f a),
      pt_payload_bytes = b, pt_signature = sign P other b\<rparr>)"
    using assms(2) by auto
  show ?thesis by (rule that [OF tok]) (use assms(3) in \<open>simp add: signature_ok_def keys_apart_def\<close>)
qed

lemma forged_loop:
  assumes "suite_keys P sk attacker D ok" "suite_draws D" "scn_keys sk attacker scn"
  shows "\<exists>as. forged_attempts P (D ''forged_signature'') m scn = (Inr as, scn) \<and>
    series (public_key P sk) R ok (''forged_signature'', m) as"
  unfolding forged_attempts_def
proof (rule series_loop [OF _ assms(3)])
  fix i and scn' :: "'a Scenario"
  assume scn: "scn_keys sk attacker scn'"
  obtain ik where ik: "args_ok (dr_fresh (D ''forged_signature'' i)) (hour_args :: 'a issue_args)"
    "issue_credential P (dr_fresh (D ''forged_signature'' i)) attacker hour_args = Inr ik"
    "issue_hour P (dr_fresh (D ''forged_signature'' i)) BENCH_PROPERTY_ID (Some attacker) scn' = (Inr ik, scn')"
    by (rule hour_key [OF assms(2) scn, where signer = "Some attacker"]) auto
  have apart: "keys_apart P sk attacker" "ed25519 P" using assms(1) by (simp_all add: suite_keys_def)
  obtain t where unsigned: "parse_token P (ik_token ik) = Inr (Some t)"
    "\<not> signature_ok P (public_key P sk) (pt_payload_bytes t) (pt_signature t)"
    by (rule forged_unsigned [OF ik(1,2) apart(1)])
  have "ends (public_key P sk) R ok (Some (if Some t = None then MALFORMED else FORGED_SIGNATURE))
      (attempt ''forged_signature'' False (present_key P ik))"
    unfolding present_key_def
    by (rule ends_unsigned [OF unsigned(1)]) (use unsigned(2) in \<open>simp_all add: device_sign_issued [OF apart(2) ik(2)]\<close>)
  then have "ends (public_key P sk) R ok (denial (lit ''forged_signature''))
      (attempt ''forged_signature'' False (present_key P ik))" by simp
  then show "\<exists>a. bindE (issue_hour P (dr_fresh (D ''forged_signature'' i)) BENCH_PROPERTY_ID
        (Some (scn_attacker_sk scn'))) (\<lambda>key. ret (attempt ''forged_signature'' False (present_key P key))) scn' =
      (Inr a, scn') \<and> at_category a = lit ''forged_signature'' \<and> judged (public_key P sk) R ok a"
    using ik(3) scn judged_attempt by (fastforce simp: scn_keys_def)
qed

text \<open>A loop whose rounds all start from a key the property issued.\<close>

lemma hour_loop:
  assumes "suite_draws D" "scn_keys sk attacker (scn :: 'sk Scenario)"
    and "\<And>i ik. args_ok (dr_fresh (D c i)) (hour_args :: 'sk issue_args) \<Longrightarrow>
      issue_credential P (dr_fresh (D c i)) sk hour_args = Inr ik \<Longrightarrow>
      ik_key_id ik = fresh_uuid (dr_fresh (D c i)) \<Longrightarrow>
      \<exists>a. (\<forall>s. body ik s = (Inr a, s)) \<and> at_category a = lit c \<and> judged pub R ok a"
  shows "\<exists>as. for_collect (\<lambda>i. bindE (issue_hour P (dr_fresh (D c i)) BENCH_PROPERTY_ID None) body) [0..<m] scn =
      (Inr as, scn) \<and> series pub R ok (c, m) as"
proof (rule series_loop [OF _ assms(2)])
  fix i and scn' :: "'sk Scenario"
  assume scn: "scn_keys sk attacker scn'"
  obtain ik where ik: "args_ok (dr_fresh (D c i)) (hour_args :: 'sk issue_args)"
    "issue_credential P (dr_fresh (D c i)) sk hour_args = Inr ik"
    "issue_hour P (dr_fresh (D c i)) BENCH_PROPERTY_ID None scn' = (Inr ik, scn')"
    "ik_key_id ik = fresh_uuid (dr_fresh (D c i))"
    by (rule hour_key [OF assms(1) scn, where signer = None]) auto
  from assms(3) [OF ik(1,2,4)] show "\<exists>a. bindE (issue_hour P (dr_fresh (D c i)) BENCH_PROPERTY_ID None) body scn' =
      (Inr a, scn') \<and> at_category a = lit c \<and> judged pub R ok a"
    using ik(3) by auto
qed

lemma tampered_loop:
  assumes "suite_keys P sk attacker D ok" "suite_draws D" "scn_keys sk attacker scn"
  shows "\<exists>as. tampered_attempts P (D ''tampered_payload'') m scn = (Inr as, scn) \<and>
    series (public_key P sk) R ok (''tampered_payload'', m) as"
  unfolding tampered_attempts_def
proof (rule hour_loop [OF assms(2,3)])
  fix i ik
  assume ok: "args_ok (dr_fresh (D ''tampered_payload'' i)) (hour_args :: 'a issue_args)"
    and ik: "issue_credential P (dr_fresh (D ''tampered_payload'' i)) sk hour_args = Inr ik"
  have keys: "signs_one P sk" "ed25519 P" using assms(1) by (simp_all add: suite_keys_def)
  obtain token t where token: "tampered_token P ''valid_until'' (JInt (BENCH_NOW + 10000000)) ik = Inr token"
    "parse_token P token = Inr (Some t)"
    "\<not> signature_ok P (public_key P sk) (pt_payload_bytes t) (pt_signature t)"
    by (rule tampered_unsigned [OF ok ik keys(1), of "BENCH_NOW + 10000000"])
      (auto simp: short_int_64 bench_consts)
  let ?m = "present P token (Some (ik_device_sk_b64 ik)) BENCH_NOW False"
  have "ends (public_key P sk) R ok (Some (if Some t = None then MALFORMED else FORGED_SIGNATURE))
      (attempt ''tampered_payload'' False ?m)"
    by (rule ends_unsigned [OF token(2)]) (use token(3) in \<open>simp_all add: device_sign_issued [OF keys(2) ik]\<close>)
  then have "ends (public_key P sk) R ok (denial (lit ''tampered_payload'')) (attempt ''tampered_payload'' False ?m)"
    by simp
  then show "\<exists>a. (\<forall>s. (case tampered_token P ''valid_until'' (JInt (BENCH_NOW + 10000000)) ik of
          Inl e \<Rightarrow> raise e
        | Inr token \<Rightarrow> ret (attempt ''tampered_payload'' False
            (present P token (Some (ik_device_sk_b64 ik)) BENCH_NOW False))) s = (Inr a, s)) \<and>
      at_category a = lit ''tampered_payload'' \<and> judged (public_key P sk) R ok a"
    using judged_attempt token(1) by fastforce
qed

lemma possession_loops:
  assumes "suite_keys P sk attacker D ok" "suite_draws D" "scn_keys sk attacker scn"
  shows "\<exists>as. replayed_attempts P (D ''replayed'') m scn = (Inr as, scn) \<and>
      series (public_key P sk) (revoked_uuids D n) ok (''replayed'', m) as"
    and "\<exists>as. impersonation_attempts P (D ''impersonation'') m scn = (Inr as, scn) \<and>
      series (public_key P sk) (revoked_uuids D n) ok (''impersonation'', m) as"
proof -
  have keys: "ed25519 P" "\<And>i g. ok g \<Longrightarrow> keys_apart P (fresh_sk (dr_fresh (D ''impersonation'' i))) g"
    using assms(1) by (simp_all add: suite_keys_def)
  show "\<exists>as. replayed_attempts P (D ''replayed'') m scn = (Inr as, scn) \<and>
      series (public_key P sk) (revoked_uuids D n) ok (''replayed'', m) as"
    unfolding replayed_attempts_def
  proof (rule hour_loop [OF assms(2,3)])
    fix i ik
    assume h: "args_ok (dr_fresh (D ''replayed'' i)) (hour_args :: 'a issue_args)"
      "issue_credential P (dr_fresh (D ''replayed'' i)) sk hour_args = Inr ik"
      "ik_key_id ik = fresh_uuid (dr_fresh (D ''replayed'' i))"
    have "ends (public_key P sk) (revoked_uuids D n) ok (denial (lit ''replayed''))
        (attempt ''replayed'' False (replay P ik))"
      unfolding denial_simps
      by (rule ends_replay [OF keys(1) h(1,2)]) (simp add: hour_decision h(3) unrevoked [OF assms(2)])
    then show "\<exists>a. (\<forall>s. ret (attempt ''replayed'' False (replay P ik)) s = (Inr a, s)) \<and>
        at_category a = lit ''replayed'' \<and> judged (public_key P sk) (revoked_uuids D n) ok a"
      using judged_attempt by fastforce
  qed
  show "\<exists>as. impersonation_attempts P (D ''impersonation'') m scn = (Inr as, scn) \<and>
      series (public_key P sk) (revoked_uuids D n) ok (''impersonation'', m) as"
    unfolding impersonation_attempts_def
  proof (rule hour_loop [OF assms(2,3)])
    fix i ik
    assume h: "args_ok (dr_fresh (D ''impersonation'' i)) (hour_args :: 'a issue_args)"
      "issue_credential P (dr_fresh (D ''impersonation'' i)) sk hour_args = Inr ik"
      "ik_key_id ik = fresh_uuid (dr_fresh (D ''impersonation'' i))"
    let ?m = "present P (ik_token ik) (Some (ik_device_sk_b64 ik)) BENCH_NOW True"
    have "ends (public_key P sk) (revoked_uuids D n) ok (denial (lit ''impersonation''))
        (attempt ''impersonation'' False ?m)"
      unfolding denial_simps
      by (rule ends_impersonation [OF keys(1) h(1,2)])
        (use keys(2) [of _ i] in \<open>simp_all add: hour_decision h(3) unrevoked [OF assms(2)] keys_apart_def\<close>)
    then show "\<exists>a. (\<forall>s. ret (attempt ''impersonation'' False ?m) s = (Inr a, s)) \<and>
        at_category a = lit ''impersonation'' \<and> judged (public_key P sk) (revoked_uuids D n) ok a"
      using judged_attempt by fastforce
  qed
qed

lemma malformed_loop:
  "\<exists>as. malformed_attempts P m scn = (Inr as, scn) \<and> series pub R ok (''malformed'', m) as"
  unfolding malformed_attempts_def
proof (rule series_loop)
  show "scn_keys (scn_property_sk scn) (scn_attacker_sk scn) scn" by (simp add: scn_keys_def)
  fix i and scn' :: "'a Scenario"
  let ?token = "garbage ! (i mod length garbage)"
  let ?m = "present P ?token None BENCH_NOW False"
  have "?token \<in> set garbage" by (rule nth_mem) (simp add: garbage_def)
  then have none: "parse_token P ?token = Inr None" by (rule garbage_malformed)
  have "ends pub R ok (Some (if (None :: ParsedToken option) = None then MALFORMED else FORGED_SIGNATURE))
      (attempt ''malformed'' False ?m)"
    by (rule ends_unsigned [OF none]) simp_all
  then have "ends pub R ok (denial (lit ''malformed'')) (attempt ''malformed'' False ?m)"
    by simp
  then show "\<exists>a. ret (attempt ''malformed'' False ?m) scn' = (Inr a, scn') \<and>
      at_category a = lit ''malformed'' \<and> judged pub R ok a"
    using judged_attempt by fastforce
qed

definition revoke_id :: "pystr \<Rightarrow> 'sk Scenario \<Rightarrow> 'sk Scenario" where
  "revoke_id k scn = scn\<lparr>scn_revoked_ids := List.insert k (scn_revoked_ids scn)\<rparr>"

lemma revoke_ids:
  "set (scn_revoked_ids (fold (\<lambda>i. revoke_id (k i)) xs scn)) = set (scn_revoked_ids scn) \<union> k ` set xs"
  "scn_property_pub_raw (fold (\<lambda>i. revoke_id (k i)) xs scn) = scn_property_pub_raw scn"
  by (induction xs arbitrary: scn) (auto simp: revoke_id_def)

lemma revoked_loop:
  assumes "suite_keys P sk attacker D ok" "suite_draws D" "scn_keys sk attacker scn"
  shows "\<exists>as. revoked_attempts P (D ''revoked'') m scn =
      (Inr as, fold (\<lambda>i. revoke_id (fresh_uuid (dr_fresh (D ''revoked'' i)))) [0..<m] scn) \<and>
    series (public_key P sk) (revoked_uuids D m) ok (''revoked'', m) as \<and>
    scn_keys sk attacker (fold (\<lambda>i. revoke_id (fresh_uuid (dr_fresh (D ''revoked'' i)))) [0..<m] scn)"
proof -
  have keys: "ed25519 P" using assms(1) by (simp add: suite_keys_def)
  have "\<exists>as. revoked_attempts P (D ''revoked'') m scn =
      (Inr as, fold (\<lambda>i. revoke_id (fresh_uuid (dr_fresh (D ''revoked'' i)))) [0..<m] scn) \<and>
    length as = length [0..<m] \<and>
    (\<forall>a \<in> set as. at_category a = lit ''revoked'' \<and> judged (public_key P sk) (revoked_uuids D m) ok a) \<and>
    scn_keys sk attacker (fold (\<lambda>i. revoke_id (fresh_uuid (dr_fresh (D ''revoked'' i)))) [0..<m] scn)"
    unfolding revoked_attempts_def
  proof (rule for_collect_each [where I = "scn_keys sk attacker", OF _ assms(3)])
    fix i and scn' :: "'a Scenario"
    assume i: "i \<in> set [0..<m]" and scn: "scn_keys sk attacker scn'"
    obtain ik where ik: "args_ok (dr_fresh (D ''revoked'' i)) (hour_args :: 'a issue_args)"
      "issue_credential P (dr_fresh (D ''revoked'' i)) sk hour_args = Inr ik"
      "issue_hour P (dr_fresh (D ''revoked'' i)) BENCH_PROPERTY_ID None scn' = (Inr ik, scn')"
      "ik_key_id ik = fresh_uuid (dr_fresh (D ''revoked'' i))"
      by (rule hour_key [OF assms(2) scn, where signer = None]) auto
    have "ik_key_id ik \<in> revoked_uuids D m" using i ik(4) by (auto simp: revoked_uuids_def)
    then have "ends (public_key P sk) (revoked_uuids D m) ok (denial (lit ''revoked''))
        (attempt ''revoked'' False (present_key P ik))"
      unfolding denial_simps by (intro ends_present_key [OF keys ik(1,2)]) (simp add: hour_decision)
    then show "\<exists>a. bindE (issue_hour P (dr_fresh (D ''revoked'' i)) BENCH_PROPERTY_ID None)
        (\<lambda>key. thenE (modify (\<lambda>scn. scn\<lparr>scn_revoked_ids := List.insert (ik_key_id key) (scn_revoked_ids scn)\<rparr>))
           (ret (attempt ''revoked'' False (present_key P key)))) scn' =
        (Inr a, revoke_id (fresh_uuid (dr_fresh (D ''revoked'' i))) scn') \<and>
      (at_category a = lit ''revoked'' \<and> judged (public_key P sk) (revoked_uuids D m) ok a) \<and>
      scn_keys sk attacker (revoke_id (fresh_uuid (dr_fresh (D ''revoked'' i))) scn')"
      using ik(3,4) scn judged_attempt [of "public_key P sk" "revoked_uuids D m" ok "''revoked''" False]
      by (auto simp: revoke_id_def scn_keys_def)
  qed
  then show ?thesis by (auto simp: series_def)
qed

text \<open>The categories in the order of the loops.\<close>

definition suite_table :: "nat \<Rightarrow> nat \<Rightarrow> (string \<times> nat) list" where
  "suite_table n m =
     [(''legit'', m), (''expired'', n), (''not_yet_valid'', n), (''wrong_room'', n), (''wrong_property'', n),
      (''forged_signature'', n), (''tampered_payload'', n), (''revoked'', n), (''replayed'', n),
      (''impersonation'', n), (''malformed'', n)]"

lemmas loops_Cons = for_collect_Cons [of "\<lambda>l. l"]

lemma loops_Nil: "for_collect (\<lambda>l. l) [] s = (Inr [], s)"
  by simp

lemma build_attempts_ok:
  assumes "suite_keys P sk attacker D ok" "suite_draws D" "scn_keys sk attacker scn" "scn_revoked_ids scn = []"
  shows "\<exists>loops scn'. build_attempts P D n m scn = (Inr (concat loops), scn') \<and>
    list_all2 (series (public_key P sk) (revoked_uuids D n) ok) (suite_table n m) loops \<and>
    set (scn_revoked_ids scn') = revoked_uuids D n \<and> scn_property_pub_raw scn' = scn_property_pub_raw scn"
proof -
  let ?ser = "series (public_key P sk) (revoked_uuids D n) ok"
  obtain scn1 where scn1: "scn1 = fold (\<lambda>i. revoke_id (fresh_uuid (dr_fresh (D ''revoked'' i)))) [0..<n] scn"
    by blast
  have ed: "ed25519 P" using assms(1) by (simp add: suite_keys_def)
  note window = window_loops [OF ed assms(2,3), where n = n and ok = ok]
  obtain l1 l2 l3 l4 l5 where l: "legit_attempts P (D ''legit'') m scn = (Inr l1, scn)" "?ser (''legit'', m) l1"
    "expired_attempts P (D ''expired'') n scn = (Inr l2, scn)" "?ser (''expired'', n) l2"
    "early_attempts P (D ''not_yet_valid'') n scn = (Inr l3, scn)" "?ser (''not_yet_valid'', n) l3"
    "wrong_room_attempts P (D ''wrong_room'') n scn = (Inr l4, scn)" "?ser (''wrong_room'', n) l4"
    "wrong_property_attempts P (D ''wrong_property'') n scn = (Inr l5, scn)" "?ser (''wrong_property'', n) l5"
    using window(1) [of m] window(2) [of n] window(3) [of n] window(4) [of n] window(5) [of n]
    by (elim exE conjE) (rule that)
  obtain l6 l7 where l': "forged_attempts P (D ''forged_signature'') n scn = (Inr l6, scn)"
    "?ser (''forged_signature'', n) l6"
    "tampered_attempts P (D ''tampered_payload'') n scn = (Inr l7, scn)" "?ser (''tampered_payload'', n) l7"
    using forged_loop [OF assms(1-3)] tampered_loop [OF assms(1-3)] by metis
  obtain l8 where l8: "revoked_attempts P (D ''revoked'') n scn = (Inr l8, scn1)" "?ser (''revoked'', n) l8"
    "scn_keys sk attacker scn1"
    using revoked_loop [OF assms(1-3), of n] scn1 by blast
  obtain l9 l10 l11 where l'': "replayed_attempts P (D ''replayed'') n scn1 = (Inr l9, scn1)"
    "?ser (''replayed'', n) l9"
    "impersonation_attempts P (D ''impersonation'') n scn1 = (Inr l10, scn1)" "?ser (''impersonation'', n) l10"
    "malformed_attempts P n scn1 = (Inr l11, scn1)" "?ser (''malformed'', n) l11"
    using possession_loops [OF assms(1,2) l8(3)] malformed_loop by metis
  have "build_attempts P D n m scn = (Inr (concat [l1, l2, l3, l4, l5, l6, l7, l8, l9, l10, l11]), scn1)"
    unfolding build_attempts_def
    by (rule trans [OF bindE_Inr], (rule loops_Cons loops_Nil l l' l8(1) l'')+) simp
  moreover have "list_all2 ?ser (suite_table n m) [l1, l2, l3, l4, l5, l6, l7, l8, l9, l10, l11]"
    by (simp add: suite_table_def l l' l8(2) l'')
  moreover have "set (scn_revoked_ids scn1) = revoked_uuids D n"
    by (simp add: scn1 revoke_ids assms(4) revoked_uuids_def)
  moreover have "scn_property_pub_raw scn1 = scn_property_pub_raw scn" by (simp add: scn1 revoke_ids)
  ultimately show ?thesis by blast
qed

section \<open>The tally\<close>

definition how_many :: "(pystr \<Rightarrow> bool) \<Rightarrow> ('sk, 'pk) Attempt list \<Rightarrow> nat" where
  "how_many q as = length (filter (\<lambda>a. q (at_category a)) as)"

lemma how_many_simps [simp]:
  "how_many q [] = 0" "how_many q (a # as) = (if q (at_category a) then 1 else 0) + how_many q as"
  by (simp_all add: how_many_def)

text \<open>The decisions of the run are the verdicts of the categories.\<close>

lemma run_attempts_tally:
  assumes "\<forall>a \<in> set as. judged pub R ok a" "\<forall>j. ok (snd (E j))" "inj (\<lambda>j. fst (E j))"
    and "at_lock pub R used lk" "set used \<subseteq> (\<lambda>j. fst (E j)) ` {..<i}"
  shows "\<exists>t' lk'. run_attempts E i as t lk = (Inr t', lk') \<and>
    tp t' = tp t + how_many (\<lambda>c. denial c = None) as \<and> fp t' = fp t \<and> fn t' = fn t \<and>
    tn t' = tn t + how_many (\<lambda>c. denial c \<noteq> None) as \<and> unauthorized t' = unauthorized t \<and>
    (\<forall>k. count k (by_category t') = count k (by_category t) + how_many (\<lambda>c. c = k) as) \<and>
    (\<forall>k. count k (denied_by_category t') =
       count k (denied_by_category t) + how_many (\<lambda>c. c = k \<and> denial c \<noteq> None) as) \<and>
    (\<forall>r. count (reason_value r) (deny_reasons t') =
       count (reason_value r) (deny_reasons t) + how_many (\<lambda>c. denial c = Some r) as)"
  using assms(1,4,5)
proof (induction as arbitrary: i t lk used)
  case (Cons a as)
  obtain c g where E: "E i = (c, g)" by force
  have fresh: "c \<notin> set used"
  proof
    assume "c \<in> set used"
    then obtain j where "fst (E j) = fst (E i)" "j < i" using Cons.prems(3) E by fastforce
    then show False using assms(3) by (metis injD less_irrefl)
  qed
  have g: "ok g" using assms(2) E by (metis snd_conv)
  have a: "at_expect_unlock a = (denial (at_category a) = None)"
    "ends pub R ok (denial (at_category a)) a"
    using Cons.prems(1) by (simp_all add: judged_def)
  obtain d lk1 where d: "at_run a c g lk = (Inr d, lk1)" "at_lock pub R (c # used) lk1"
    "unlocked d \<longleftrightarrow> denial (at_category a) = None" "reason d = denial (at_category a)"
    using a(2) Cons.prems(2) fresh g unfolding ends_def by blast
  have used: "set (c # used) \<subseteq> (\<lambda>j. fst (E j)) ` {..<Suc i}"
    using Cons.prems(3) E by (force simp: lessThan_Suc)
  have rest: "\<forall>a \<in> set as. judged pub R ok a" using Cons.prems(1) by simp
  show ?case
    using Cons.IH [OF rest d(2) used, of "judge a d t"] a(1) d(1,3,4)
    by (cases "denial (at_category a)") (auto simp: E judge_def Let_def count_bump reason_value_eq)
qed simp

lemma how_many_append: "how_many q (as @ bs) = how_many q as + how_many q bs"
  by (simp add: how_many_def)

lemma how_many_series: "series pub R ok (c, n) as \<Longrightarrow> how_many q as = (if q (lit c) then n else 0)"
proof -
  assume s: "series pub R ok (c, n) as"
  then have "\<forall>a \<in> set as. at_category a = lit c" by (simp add: series_def)
  then have "how_many q as = (if q (lit c) then length as else 0)" by (induction as) simp_all
  then show ?thesis using s by (simp add: series_def)
qed

lemma how_many_concat:
  "list_all2 (series pub R ok) tab loops \<Longrightarrow>
     how_many q (concat loops) = sum_list (map (\<lambda>(c, n). if q (lit c) then n else 0) tab)"
proof (induction rule: list_all2_induct)
  case (Cons x xs y ys)
  then show ?case by (cases x) (simp add: how_many_append how_many_series [of pub R ok])
qed simp

section \<open>The suite\<close>

lemma make_lock_ok:
  assumes "ed25519 P" "scn_property_pub_raw scn = public_bytes P pub"
  obtains lk where "make_lock P scn = Inr lk" "at_lock pub (set (scn_revoked_ids scn)) [] lk"
  using new_lock_guards [OF assms(1)] assms(2) by (metis make_lock_def at_lock_def)

lemma judged_filters:
  assumes "\<forall>a \<in> set as. judged pub R ok a"
  shows "length (filter at_expect_unlock as) = how_many (\<lambda>c. denial c = None) as"
    and "length (filter (\<lambda>a. \<not> at_expect_unlock a) as) = how_many (\<lambda>c. denial c \<noteq> None) as"
    and "length as = how_many (\<lambda>_. True) as"
  using assms by (induction as) (auto simp: judged_def)

lemma series_judged:
  "list_all2 (series pub R ok) tab loops \<Longrightarrow> \<forall>a \<in> set (concat loops). judged pub R ok a"
  by (induction rule: list_all2_induct) (auto simp: series_def)

lemma security_run_result:
  assumes "suite_keys P sk attacker D (\<lambda>g. g \<in> range (\<lambda>j. snd (E j)))" "suite_draws D"
    and "inj (\<lambda>j. fst (E j))"
  shows "\<exists>rep. security_run P sk attacker D E = Inr rep \<and>
    total_attempts rep = 500 \<and> adversarial_attempts rep = 400 \<and> adversarial_denied rep = 400 \<and>
    unauthorized_unlocks rep = 0 \<and> legit_attempted rep = 100 \<and> legit_unlocked rep = 100 \<and>
    access_precision rep = 1 \<and> access_recall rep = 1 \<and> confusion rep = (100, 0, 0, 400) \<and>
    (\<forall>r. count (reason_value r) (deny_reason_distribution rep) =
       (if r = FORGED_SIGNATURE then 80
        else if r \<in> {EXPIRED, NOT_YET_VALID, WRONG_ROOM, WRONG_PROPERTY, REVOKED, REPLAYED, BAD_RESPONSE,
          MALFORMED} then 40 else 0))"
proof -
  let ?scn = "build_scenario P sk attacker" and ?R = "revoked_uuids D 40"
  let ?ok = "\<lambda>g. g \<in> range (\<lambda>j. snd (E j))"
  have ed: "ed25519 P" using assms(1) by (simp add: suite_keys_def)
  have scn: "scn_keys sk attacker ?scn" "scn_revoked_ids ?scn = []"
    by (simp_all add: scn_keys_def build_scenario_def)
  obtain loops scn' where b: "build_attempts P D 40 100 ?scn = (Inr (concat loops), scn')"
    "list_all2 (series (public_key P sk) ?R ?ok) (suite_table 40 100) loops"
    "set (scn_revoked_ids scn') = ?R" "scn_property_pub_raw scn' = scn_property_pub_raw ?scn"
    using build_attempts_ok [OF assms(1,2) scn] by blast
  have raw: "scn_property_pub_raw scn' = public_bytes P (public_key P sk)"
    using b(4) by (simp add: build_scenario_def)
  obtain lk where lk: "make_lock P scn' = Inr lk" "at_lock (public_key P sk) ?R [] lk"
    by (rule make_lock_ok [OF ed raw]) (simp add: b(3))
  note judged = series_judged [OF b(2)]
  have ok: "\<forall>j. ?ok (snd (E j))" by blast
  have start: "set ([] :: bytes list) \<subseteq> (\<lambda>j. fst (E j)) ` {..<0}" by simp
  obtain t lk' where run: "run_attempts E 0 (concat loops) empty_tally lk = (Inr t, lk')"
    and t: "tp t = tp empty_tally + how_many (\<lambda>c. denial c = None) (concat loops)" "fp t = fp empty_tally"
      "fn t = fn empty_tally" "tn t = tn empty_tally + how_many (\<lambda>c. denial c \<noteq> None) (concat loops)"
      "unauthorized t = unauthorized empty_tally"
      "\<And>r. count (reason_value r) (deny_reasons t) =
        count (reason_value r) (deny_reasons empty_tally) + how_many (\<lambda>c. denial c = Some r) (concat loops)"
    using run_attempts_tally [OF judged ok assms(3) lk(2) start, of empty_tally] by blast
  have "security_run P sk attacker D E = Inr (security_report_of (concat loops) t)"
    by (simp add: security_run_def SUITE_N_EACH_def SUITE_N_LEGIT_def b(1) lk(1) run)
  moreover have "count (reason_value r) [] = 0" for r by (simp add: count_def)
  ultimately show ?thesis
    using t by (simp add: security_report_of_def Let_def judged_filters [OF judged] how_many_concat [OF b(2)]
        suite_table_def empty_tally_def rate_def round_to_one)
qed


text \<open>A scheme whose signature is the key followed by the message, and fixed draws.\<close>

definition strict_platform :: "(byte, byte) platform" where
  "strict_platform =
     \<lparr>uni_decimal = (\<lambda>_. None), uni_space = (\<lambda>_. False), uni_printable = (\<lambda>_. False),
      float_repr = (\<lambda>_. lit ''0.0''), spare_nesting = 0,
      public_key = (\<lambda>sk. sk), public_bytes = (\<lambda>pk. [pk]), private_bytes = (\<lambda>sk. [sk]),
      from_public_bytes = (\<lambda>b. if length b = 1 then Some (hd b) else None),
      from_private_bytes = (\<lambda>b. if length b = 1 then Some (hd b) else None),
      sign = (\<lambda>sk m. sk # m), verify = (\<lambda>pk s m. s = pk # m)\<rparr>"

definition fixed_draws :: "string \<Rightarrow> nat \<Rightarrow> byte draw" where
  "fixed_draws c i =
     \<lparr>dr_fresh = \<lparr>fresh_sk = 3, fresh_uuid = (if c = ''revoked'' then lit ''r'' else lit ''k''),
        fresh_hex = lit ''00''\<rparr>,
      dr_number = (if c = ''legit'' then 1800 else if c = ''wrong_room'' then 102 else 60)\<rparr>"


end
