(* ===== verification/Concurrency_Bench.thy ===== *)
theory Concurrency_Bench
  imports Race Json
begin

text \<open>
  \<open>bench/concurrency.py\<close>: threads racing for one room, and more overlapping stays than
  rooms. A thread is a caller of \<open>Race\<close> and the scheduler's choice of who steps next is
  an argument, as are the uuids drawn.
\<close>

definition RACE_NOW :: time where
  "RACE_NOW = 1800000000"

definition RACE_WINDOW :: "time \<times> time" where
  "RACE_WINDOW = (RACE_NOW, RACE_NOW + 2 * 24 * 3600)"

definition seed :: "pystr \<Rightarrow> nat \<Rightarrow> (db, unit) exec" where
  "seed property_id n_rooms =
     thenE (add_guest (lit ''g'') (lit ''Guest'') (lit ''g@example.com''))
       (for_each (\<lambda>i. add_room (100 + int i) property_id (dec_int (100 + int i)) (lit ''king''))
          [0..<n_rooms])"

text \<open>The stays created before the race; \<open>uuid\<close> is \<open>uuid4().hex\<close> of each round.\<close>

definition create_stays :: "(nat \<Rightarrow> pystr) \<Rightarrow> pystr \<Rightarrow> nat \<Rightarrow> (db, pystr list) exec" where
  "create_stays uuid property_id n =
     for_collect (\<lambda>i.
       let sid = lit ''s_'' @ take 10 (uuid i)
       in thenE (add_stay sid (lit ''g'') property_id (lit ''king'') (fst RACE_WINDOW) (snd RACE_WINDOW))
            (ret sid)) [0..<n]"

text \<open>What a worker leaves in the lists \<open>results\<close> and \<open>errors\<close>.\<close>

definition worker_result :: "call \<Rightarrow> int option" where
  "worker_result c = (case c of Done (Inr r) \<Rightarrow> Some r | _ \<Rightarrow> None)"

definition worker_error :: "call \<Rightarrow> nat" where
  "worker_error c = (if c = Done (Inl RoomUnavailableError) then 1 else 0)"

record single_race =
  sr_threads :: nat
  sr_successes :: nat
  sr_rejections :: nat
  sr_assigned :: nat
  sr_double_booked :: int

definition race_for_room ::
  "nat list \<Rightarrow> (nat \<Rightarrow> pystr) \<Rightarrow> pystr \<Rightarrow> int \<Rightarrow> nat \<Rightarrow> (db, single_race) exec" where
  "race_for_room schedule uuid property_id room_id n_threads =
     bindE (create_stays uuid property_id n_threads)
       (\<lambda>stay_ids d.
          case run_schedule schedule (d, map (\<lambda>sid. Assign sid (Some room_id)) stay_ids) of
            (d', workers) \<Rightarrow>
              let assigned = length (filter (\<lambda>a. as_room_id a = room_id \<and> as_active a) (assignments d'))
              in (Inr \<lparr>sr_threads = n_threads,
                       sr_successes = length (filter (\<lambda>c. worker_result c \<noteq> None) workers),
                       sr_rejections = sum_list (map worker_error workers),
                       sr_assigned = assigned, sr_double_booked = max 0 (int assigned - 1)\<rparr>, d'))"

record multi_race =
  mr_rooms :: nat
  mr_competing :: nat
  mr_assigned :: nat
  mr_distinct :: nat
  mr_duplicates :: int

definition multi_room ::
  "nat list \<Rightarrow> (nat \<Rightarrow> pystr) \<Rightarrow> pystr \<Rightarrow> nat \<Rightarrow> nat \<Rightarrow> (db, multi_race) exec" where
  "multi_room schedule uuid property_id n_rooms n_stays =
     bindE (create_stays uuid property_id n_stays)
       (\<lambda>stay_ids d.
          case run_schedule schedule (d, map (\<lambda>sid. Assign sid None) stay_ids) of
            (d', workers) \<Rightarrow>
              let got = List.map_filter worker_result workers
              in (Inr \<lparr>mr_rooms = n_rooms, mr_competing = n_stays, mr_assigned = length got,
                       mr_distinct = card (set got),
                       mr_duplicates = int (length got) - int (card (set got))\<rparr>, d'))"

record concurrency_report =
  single_room_race :: single_race
  multi_room_race :: multi_race
  double_booked_total :: int

text \<open>Each race has a database of its own.\<close>

definition concurrency_run ::
  "nat list \<Rightarrow> (nat \<Rightarrow> pystr) \<Rightarrow> nat list \<Rightarrow> (nat \<Rightarrow> pystr) \<Rightarrow> exn + concurrency_report" where
  "concurrency_run schedule1 uuid1 schedule2 uuid2 =
     (let property_id = lit ''HILTON-DEMO-001''
      in case thenE (seed property_id 1) (race_for_room schedule1 uuid1 property_id 100 32) init_db of
           (Inl e, _) \<Rightarrow> Inl e
         | (Inr single, _) \<Rightarrow>
             (case thenE (seed property_id 10) (multi_room schedule2 uuid2 property_id 10 40) init_db of
                (Inl e, _) \<Rightarrow> Inl e
              | (Inr multi, _) \<Rightarrow>
                  Inr \<lparr>single_room_race = single, multi_room_race = multi,
                       double_booked_total = sr_double_booked single + mr_duplicates multi\<rparr>))"

end
