(* ===== verification/Pool_Race.thy ===== *)
theory Pool_Race
  imports Race
begin

text \<open>
  More callers than rooms: any number of callers, each for a stay of its own with the
  same window, compete for a pool of free rooms. However their steps interleave, as many
  win as there are rooms (or callers, if fewer), each a different room.
\<close>

section \<open>The pool\<close>

text \<open>The rooms a caller may get: the one asked for, or all of its property and type.\<close>

definition pool_of :: "db \<Rightarrow> pystr \<Rightarrow> pystr \<Rightarrow> int option \<Rightarrow> int list" where
  "pool_of d p t wanted =
     (case wanted of
        None \<Rightarrow> sort (map ro_room_id (filter (\<lambda>r. ro_property_id r = p \<and> ro_room_type r = t) (rooms d)))
      | Some r \<Rightarrow> if list_ex (\<lambda>ro. ro_room_id ro = r \<and> ro_property_id ro = p) (rooms d) then [r] else [])"

lemma pool_choice:
  assumes "db_ok d" "\<forall>r. wanted = Some r \<longrightarrow> fits r"
  shows "room_choice d s wanted (rooms_of d s) =
    (case List.find (\<lambda>r. room_free d r (st_check_in s) (st_check_out s))
            (pool_of d (st_property_id s) (st_room_type s) wanted) of
       Some r \<Rightarrow> Inr r | None \<Rightarrow> Inl RoomUnavailableError)"
  using assms(2) by (cases wanted) (auto simp: room_choice_def rooms_of_def pool_of_def)

lemma pool_rooms: "r \<in> set (pool_of d p t wanted) \<Longrightarrow> r \<in> ro_room_id ` set (rooms d)"
  by (auto simp: pool_of_def list_ex_iff split: option.splits if_splits)

lemma pool_of_cong: "rooms d' = rooms d \<Longrightarrow> pool_of d' p t wanted = pool_of d p t wanted"
  by (simp add: pool_of_def split: option.split)

section \<open>A waiting caller\<close>

definition seeks ::
  "pystr \<Rightarrow> pystr \<Rightarrow> int option \<Rightarrow> time \<Rightarrow> time \<Rightarrow> db \<Rightarrow> pystr \<Rightarrow> call \<Rightarrow> bool" where
  "seeks p t wanted i out d sid c \<longleftrightarrow>
     (\<exists>s. st_stay_id s = sid \<and> st_check_in s = i \<and> st_check_out s = out \<and> st_property_id s = p \<and>
        st_room_type s = t \<and>
        (c = Assign sid wanted \<and> s \<in> set (stays d) \<and> st_room_id s = None \<or>
         c = Assigning s wanted \<and> stay_known d s))"

lemma seeks_step:
  assumes "db_ok d" "seeks p t wanted i out d sid c" "call_step d c = (d', c')"
    and "\<forall>r. wanted = Some r \<longrightarrow> fits r"
  obtains (reading) "d' = d" "seeks p t wanted i out d sid c'"
    | (winning) s r where "r \<in> set (pool_of d p t wanted)" "room_free d r i out" "c' = Done (Inr r)"
        "d' = booked s r d" "st_stay_id s = sid" "st_check_in s = i" "st_check_out s = out" "stay_known d s"
    | (losing) "\<forall>r \<in> set (pool_of d p t wanted). \<not> room_free d r i out" "lost c'" "d' = d"
proof -
  obtain s where s: "st_stay_id s = sid" "st_check_in s = i" "st_check_out s = out"
    "st_property_id s = p" "st_room_type s = t"
    "c = Assign sid wanted \<and> s \<in> set (stays d) \<and> st_room_id s = None \<or>
     c = Assigning s wanted \<and> stay_known d s"
    using assms(2) by (auto simp: seeks_def)
  from s(6) show ?thesis
  proof (elim disjE conjE)
    assume c: "c = Assign sid wanted" and mem: "s \<in> set (stays d)" "st_room_id s = None"
    have "get_stay sid d = (Inr (Some s), d)"
      using get_stay_row [OF assms(1) mem(1)] s(1) by simp
    then have "d' = d" "c' = Assigning s wanted"
      using assms(3) mem(2) by (simp_all add: c call_step_def)
    then show ?thesis using reading s stay_known_read [OF assms(1) mem(1)] by (auto simp: seeks_def)
  next
    assume c: "c = Assigning s wanted" and known: "stay_known d s"
    note exec = assign_txn_exec [OF assms(1) known, of wanted, unfolded pool_choice [OF assms(1,4)] s(2-5)]
    show ?thesis
    proof (cases "List.find (\<lambda>r. room_free d r i out) (pool_of d p t wanted)")
      case None
      then have "d' = d" "lost c'" using assms(3) exec by (simp_all add: c call_step_def lost_def)
      then show ?thesis using losing None by (simp add: find_None_iff)
    next
      case (Some r)
      then have r: "r \<in> set (pool_of d p t wanted)" "room_free d r i out" by (auto simp: find_Some_iff)
      have "c' = Done (Inr r)" "d' = booked s r d"
        using assms(3) exec Some by (simp_all add: c call_step_def)
      then show ?thesis using winning r s(1-3) known by blast
    qed
  qed
qed

lemma seeks_booked:
  assumes "seeks p t wanted i out d sid c" "st_stay_id s \<noteq> sid"
  shows "seeks p t wanted i out (booked s r d) sid c"
proof -
  have "x \<in> set (stays (booked s r d))" if "x \<in> set (stays d)" "st_stay_id x = sid" for x
    using that assms(2)
    by (simp add: booked_def with_room_def put_assignment_def in_update_where)
  moreover have "stay_known (booked s r d) x" if "stay_known d x" for x
    using stay_known_grows [OF that grows_booked(2)] .
  moreover obtain x where "st_stay_id x = sid" "st_check_in x = i" "st_check_out x = out"
    "st_property_id x = p" "st_room_type x = t"
    "c = Assign sid wanted \<and> x \<in> set (stays d) \<and> st_room_id x = None \<or>
     c = Assigning x wanted \<and> stay_known d x"
    using assms(1) unfolding seeks_def by blast
  ultimately show ?thesis unfolding seeks_def by (intro exI [of _ x]) blast
qed

lemma booked_free_other:
  "r' \<noteq> r \<Longrightarrow> room_free (booked s r d) r' i out = room_free d r' i out"
  by (simp add: room_free_def booked_def with_room_def put_assignment_def)

section \<open>The race\<close>

definition taken :: "int list \<Rightarrow> time \<Rightarrow> time \<Rightarrow> db \<Rightarrow> int set" where
  "taken R i out d = {r \<in> set R. \<not> room_free d r i out}"

definition pool_state ::
  "pystr \<Rightarrow> pystr \<Rightarrow> int option \<Rightarrow> time \<Rightarrow> time \<Rightarrow> int list \<Rightarrow> pystr list \<Rightarrow> db \<times> call list \<Rightarrow> bool" where
  "pool_state p t wanted i out R ids = (\<lambda>(d, cs).
     length cs = length ids \<and> distinct ids \<and> db_ok d \<and> i < out \<and> pool_of d p t wanted = R \<and>
     (\<forall>r. wanted = Some r \<longrightarrow> fits r) \<and>
     (\<forall>a \<in> set (assignments d). as_room_id a \<in> set R \<longrightarrow> as_active a \<longrightarrow>
        as_check_in a = i \<and> as_check_out a = out) \<and>
     (\<forall>k < length ids. seeks p t wanted i out d (ids ! k) (cs ! k) \<or>
        (\<exists>r \<in> taken R i out d. cs ! k = Done (Inr r)) \<or>
        lost (cs ! k) \<and> taken R i out d = set R) \<and>
     (\<forall>k < length ids. \<forall>l < length ids. \<forall>r. cs ! k = Done (Inr r) \<and> cs ! l = Done (Inr r) \<longrightarrow> k = l) \<and>
     (\<forall>r \<in> taken R i out d. \<exists>k < length ids. cs ! k = Done (Inr r)))"

lemma seeks_not_done: "\<not> seeks p t wanted i out d sid (Done x)"
  by (simp add: seeks_def)

lemma pool_stateD:
  assumes "pool_state p t wanted i out R ids (d, cs)"
  shows "length cs = length ids" "distinct ids" "db_ok d" "i < out" "pool_of d p t wanted = R"
    "\<forall>r. wanted = Some r \<longrightarrow> fits r"
    "\<forall>a \<in> set (assignments d). as_room_id a \<in> set R \<longrightarrow> as_active a \<longrightarrow>
        as_check_in a = i \<and> as_check_out a = out"
    and "\<And>k. k < length ids \<Longrightarrow> seeks p t wanted i out d (ids ! k) (cs ! k) \<or>
        (\<exists>r \<in> taken R i out d. cs ! k = Done (Inr r)) \<or> lost (cs ! k) \<and> taken R i out d = set R"
    and "\<And>k l r. k < length ids \<Longrightarrow> l < length ids \<Longrightarrow> cs ! k = Done (Inr r) \<Longrightarrow>
        cs ! l = Done (Inr r) \<Longrightarrow> k = l"
    and "\<And>r. r \<in> taken R i out d \<Longrightarrow> \<exists>k < length ids. cs ! k = Done (Inr r)"
  using assms by (simp_all add: pool_state_def)

text \<open>
  One caller moves on: what it must be afterwards, and what the store must still be, for
  the race to be in order.
\<close>

lemma pool_state_update:
  assumes st: "pool_state p t wanted i out R ids (d, cs)" and n: "n < length ids" "\<And>x. cs ! n \<noteq> Done x"
    and d': "db_ok d'" "pool_of d' p t wanted = R"
      "\<forall>a \<in> set (assignments d'). as_room_id a \<in> set R \<longrightarrow> as_active a \<longrightarrow>
        as_check_in a = i \<and> as_check_out a = out"
    and more: "taken R i out d \<subseteq> taken R i out d'"
      "\<And>r. r \<in> taken R i out d' \<Longrightarrow> r \<notin> taken R i out d \<Longrightarrow> c' = Done (Inr r)"
    and others: "\<And>k. k < length ids \<Longrightarrow> k \<noteq> n \<Longrightarrow> seeks p t wanted i out d (ids ! k) (cs ! k) \<Longrightarrow>
        seeks p t wanted i out d' (ids ! k) (cs ! k)"
    and c': "seeks p t wanted i out d' (ids ! n) c' \<or> (\<exists>r \<in> taken R i out d'. c' = Done (Inr r)) \<or>
        lost c' \<and> taken R i out d' = set R"
      "\<And>r. c' = Done (Inr r) \<Longrightarrow> r \<notin> taken R i out d"
  shows "pool_state p t wanted i out R ids (d', cs[n := c'])"
proof -
  note D = pool_stateD [OF st]
  have len: "n < length cs" using n(1) D(1) by simp
  have full: "taken R i out d = set R \<Longrightarrow> taken R i out d' = set R" using more(1) by (auto simp: taken_def)
  have each: "seeks p t wanted i out d' (ids ! k) (cs[n := c'] ! k) \<or>
      (\<exists>r \<in> taken R i out d'. cs[n := c'] ! k = Done (Inr r)) \<or> lost (cs[n := c'] ! k) \<and> taken R i out d' = set R"
    if "k < length ids" for k
    using D(8) [OF that] others [OF that] more(1) full c'(1) len by (cases "k = n") auto
  have old: "cs ! k = Done (Inr r) \<Longrightarrow> r \<in> taken R i out d" if "k < length ids" for k r
    using D(8) [OF that] by (auto simp: seeks_not_done lost_def)
  have once: "k = l" if "k < length ids" "l < length ids" "cs[n := c'] ! k = Done (Inr r)"
    "cs[n := c'] ! l = Done (Inr r)" for k l r
    using that D(9) [of k l r] old [of k r] old [of l r] c'(2) [of r] len
    by (cases "k = n"; cases "l = n") auto
  have won: "\<exists>k < length ids. cs[n := c'] ! k = Done (Inr r)" if r: "r \<in> taken R i out d'" for r
  proof (cases "r \<in> taken R i out d")
    case True
    then obtain k where "k < length ids" "cs ! k = Done (Inr r)" using D(10) by blast
    moreover from this have "k \<noteq> n" using n(2) by metis
    ultimately show ?thesis by (intro exI [of _ k]) simp
  next
    case False
    then show ?thesis using more(2) [OF r] n(1) len by (intro exI [of _ n]) simp
  qed
  show ?thesis
    unfolding pool_state_def prod.case
    using D(1,2,4,6) d' each once won by (auto 0 3 simp del: nth_list_update)
qed

lemma tick_pool_state:
  assumes "pool_state p t wanted i out R ids (d, cs)"
  shows "pool_state p t wanted i out R ids (tick n (d, cs))"
proof (cases "n < length cs \<and> \<not> (\<exists>x. cs ! n = Done x)")
  case False
  then have "tick n (d, cs) = (d, cs)" by (auto simp: tick_def) (metis list_update_id)
  then show ?thesis using assms by simp
next
  case True
  note D = pool_stateD [OF assms]
  obtain d' c' where step: "call_step d (cs ! n) = (d', c')" by force
  have tick: "tick n (d, cs) = (d', cs[n := c'])" using True step by (simp add: tick_def)
  have n: "n < length ids" "\<And>x. cs ! n \<noteq> Done x" using True D(1) by auto
  note update = pool_state_update [OF assms n]
  have "seeks p t wanted i out d (ids ! n) (cs ! n)" using n(2) D(8) [OF n(1)] by (auto simp: lost_def)
  then have "pool_state p t wanted i out R ids (d', cs[n := c'])"
  proof (cases rule: seeks_step [OF D(3) _ step D(6), consumes 1])
    case 1
    then have "c' \<noteq> Done x" for x using seeks_not_done by metis
    then show ?thesis using 1 D(3,5,7) by (intro update) auto
  next
    case winning: (2 s r)
    have taken: "taken R i out d' = insert r (taken R i out d)"
    proof (rule set_eqI)
      fix x
      show "x \<in> taken R i out d' \<longleftrightarrow> x \<in> insert r (taken R i out d)"
        using winning(1) booked_taken [OF D(3,4) winning(6,7), of r] D(5)
        by (cases "x = r") (simp_all add: taken_def winning(4) booked_free_other)
    qed
    have "seeks p t wanted i out d' (ids ! k) (cs ! k)"
      if "k < length ids" "k \<noteq> n" "seeks p t wanted i out d (ids ! k) (cs ! k)" for k
      using that seeks_booked winning(4,5) n(1) D(2) by (metis nth_eq_iff_index_eq)
    moreover have "db_ok d'"
      unfolding winning(4) using pool_rooms [OF winning(1)] by (rule db_ok_booked [OF D(3) winning(8)])
    moreover have "pool_of d' p t wanted = R" using D(5) pool_of_cong [of d' d] winning(4) by simp
    moreover have "\<forall>a \<in> set (assignments d'). as_room_id a \<in> set R \<longrightarrow> as_active a \<longrightarrow>
        as_check_in a = i \<and> as_check_out a = out"
      using D(7) winning(4,6,7) by (auto simp: booked_def with_room_def put_assignment_def)
    moreover have "r \<notin> taken R i out d" using winning(2) by (simp add: taken_def)
    ultimately show ?thesis using taken winning(3) by (intro update) auto
  next
    case losing: 3
    then have "taken R i out d = set R" using D(5) by (auto simp: taken_def)
    then show ?thesis using losing D(3,5,7) by (intro update) (auto simp: lost_def)
  qed
  then show ?thesis by (simp add: tick)
qed

lemma schedule_pool_state:
  "pool_state p t wanted i out R ids st \<Longrightarrow> pool_state p t wanted i out R ids (run_schedule ns st)"
proof (induction ns arbitrary: st)
  case (Cons n ns)
  then show ?case using tick_pool_state [of p t wanted i out R ids "fst st" "snd st" n]
    by (simp add: run_schedule_def)
qed (simp add: run_schedule_def)

end
