(* ===== verification/Concurrency_Properties.thy ===== *)
theory Concurrency_Properties
  imports Concurrency_Bench Pool_Race Credential_Facts
begin

text \<open>
  The concurrency bench as theorems: rooms go to as many callers as there are rooms, each
  to one, under every schedule; and both races of the bench report no double booking.
\<close>

section \<open>Every scheduled caller finishes\<close>

definition steps_left :: "call \<Rightarrow> nat" where
  "steps_left c =
     (case c of Assign i w \<Rightarrow> 2 | Change i w \<Rightarrow> 2 | Assigning s w \<Rightarrow> 1 | Changing s w \<Rightarrow> 1 | Done r \<Rightarrow> 0)"

lemma call_step_left: "call_step d c = (d', c') \<Longrightarrow> steps_left c' \<le> steps_left c - 1"
  by (auto simp: call_step_def steps_left_def split: call.splits prod.splits sum.splits option.splits)

lemma tick_left:
  assumes "tick n st = (d', cs')" "k < length (snd st)"
  shows "length cs' = length (snd st)"
    and "steps_left (cs' ! k) \<le> steps_left (snd st ! k) - (if n = k then 1 else 0)"
  using assms call_step_left [of "fst st" "snd st ! n"]
  by (auto simp: tick_def nth_list_update split: prod.splits if_splits)

lemma run_schedule_left:
  "run_schedule ns st = (d', cs') \<Longrightarrow> k < length (snd st) \<Longrightarrow>
     length cs' = length (snd st) \<and> steps_left (cs' ! k) \<le> steps_left (snd st ! k) - count_list ns k"
proof (induction ns arbitrary: st)
  case (Cons n ns)
  obtain d1 cs1 where t: "tick n st = (d1, cs1)" by force
  note left = tick_left [OF t Cons.prems(2)]
  have "run_schedule ns (d1, cs1) = (d', cs')" using Cons.prems(1) t by (simp add: run_schedule_def)
  from Cons.IH [OF this] left Cons.prems(2) show ?case by auto
qed (simp add: run_schedule_def)

definition fair :: "nat \<Rightarrow> nat list \<Rightarrow> bool" where
  "fair n ns \<longleftrightarrow> (\<forall>k < n. 2 \<le> count_list ns k)"

lemma fair_finishes:
  assumes "run_schedule ns (d, cs) = (d', cs')" "fair (length cs) ns" "k < length cs"
  obtains x where "cs' ! k = Done x"
proof -
  have "steps_left (cs' ! k) \<le> steps_left (cs ! k) - count_list ns k"
    using run_schedule_left [OF assms(1)] assms(3) by simp
  moreover have "steps_left (cs ! k) \<le> 2" by (cases "cs ! k") (simp_all add: steps_left_def)
  moreover have "2 \<le> count_list ns k" using assms(2,3) by (simp add: fair_def)
  ultimately have "steps_left (cs' ! k) = 0" by linarith
  then show ?thesis using that by (cases "cs' ! k") (simp_all add: steps_left_def)
qed

section \<open>Who got what\<close>

lemma map_filter_Cons [simp]:
  "List.map_filter f [] = []"
  "List.map_filter f (x # xs) = (case f x of None \<Rightarrow> List.map_filter f xs | Some y \<Rightarrow> y # List.map_filter f xs)"
  by (simp_all add: List.map_filter_def split: option.split)

lemma set_got: "r \<in> set (List.map_filter f cs) \<longleftrightarrow> (\<exists>k < length cs. f (cs ! k) = Some r)"
proof -
  have "r \<in> set (List.map_filter f cs) \<longleftrightarrow> (\<exists>c \<in> set cs. f c = Some r)"
    by (induction cs) (auto split: option.split)
  then show ?thesis by (metis in_set_conv_nth)
qed

lemma distinct_got:
  assumes "\<And>k l r. k < length cs \<Longrightarrow> l < length cs \<Longrightarrow> f (cs ! k) = Some r \<Longrightarrow> f (cs ! l) = Some r \<Longrightarrow> k = l"
  shows "distinct (List.map_filter f cs)"
  using assms
proof (induction cs)
  case (Cons c cs)
  have "distinct (List.map_filter f cs)"
  proof (rule Cons.IH)
    fix k l r
    assume "k < length cs" "l < length cs" "f (cs ! k) = Some r" "f (cs ! l) = Some r"
    then show "k = l" using Cons.prems [of "Suc k" "Suc l" r] by simp
  qed
  moreover have "r \<notin> set (List.map_filter f cs)" if "f c = Some r" for r
  proof
    assume "r \<in> set (List.map_filter f cs)"
    then obtain k where "k < length cs" "f (cs ! k) = Some r" by (auto simp: set_got)
    then show False using Cons.prems [of 0 "Suc k" r] that by simp
  qed
  ultimately show ?case by (cases "f c") auto
qed simp

lemma length_got: "length (List.map_filter f cs) = length (filter (\<lambda>c. f c \<noteq> None) cs)"
  by (induction cs) (auto split: option.split)

lemma worker_result_Some: "worker_result c = Some r \<longleftrightarrow> c = Done (Inr r)"
  by (auto simp: worker_result_def split: call.splits sum.splits)

text \<open>When all have finished, the winners are as many as there are rooms or callers.\<close>

lemma finished_pool:
  assumes "pool_state p t wanted i out R ids (d, cs)" "\<And>k. k < length ids \<Longrightarrow> \<exists>x. cs ! k = Done x"
    and "distinct R"
  shows "distinct (List.map_filter worker_result cs)"
    and "length (List.map_filter worker_result cs) = min (length ids) (length R)"
    and "set (List.map_filter worker_result cs) = taken R i out d"
    and "\<forall>c \<in> set cs. worker_result c \<noteq> None \<or> c = Done (Inl RoomUnavailableError)"
proof -
  let ?got = "List.map_filter worker_result cs"
  have len: "length cs = length ids"
    and at: "\<And>k. k < length ids \<Longrightarrow> seeks p t wanted i out d (ids ! k) (cs ! k) \<or>
        (\<exists>r \<in> taken R i out d. cs ! k = Done (Inr r)) \<or> lost (cs ! k) \<and> taken R i out d = set R"
    and once: "\<And>k l r. k < length ids \<Longrightarrow> l < length ids \<Longrightarrow> cs ! k = Done (Inr r) \<Longrightarrow>
        cs ! l = Done (Inr r) \<Longrightarrow> k = l"
    and won: "\<And>r. r \<in> taken R i out d \<Longrightarrow> \<exists>k < length ids. cs ! k = Done (Inr r)"
    using assms(1) by (simp_all add: pool_state_def)
  have each: "(\<exists>r \<in> taken R i out d. cs ! k = Done (Inr r)) \<or> lost (cs ! k) \<and> taken R i out d = set R"
    if "k < length ids" for k
    using at [OF that] assms(2) [OF that] by (metis seeks_not_done)
  show dist: "distinct ?got"
    by (rule distinct_got) (use once len in \<open>simp add: worker_result_Some\<close>)
  show got: "set ?got = taken R i out d"
  proof (rule set_eqI)
    fix r
    show "r \<in> set ?got \<longleftrightarrow> r \<in> taken R i out d"
      using each won len by (force simp: set_got worker_result_Some lost_def)
  qed
  have size: "length ?got = card (taken R i out d)" using distinct_card [OF dist] got by simp
  have R: "card (set R) = length R" "taken R i out d \<subseteq> set R"
    using assms(3) by (auto simp: distinct_card taken_def)
  then have le: "card (taken R i out d) \<le> length R" using card_mono [of "set R"] by fastforce
  have n: "length ?got \<le> length ids" unfolding length_got using len length_filter_le by metis
  show "length ?got = min (length ids) (length R)"
  proof (cases "\<exists>k < length ids. lost (cs ! k)")
    case True
    then have "taken R i out d = set R" using each by (force simp: lost_def)
    then show ?thesis using size R(1) n by simp
  next
    case False
    then have "worker_result c \<noteq> None" if c: "c \<in> set cs" for c
    proof -
      obtain k where k: "k < length ids" "cs ! k = c" using c len by (auto simp: in_set_conv_nth)
      then have "\<not> lost (cs ! k)" using False by blast
      then obtain r where "cs ! k = Done (Inr r)" using each [OF k(1)] by blast
      then show ?thesis using k(2) by (auto simp: worker_result_def)
    qed
    then have "filter (\<lambda>c. worker_result c \<noteq> None) cs = cs" by (simp add: filter_id_conv)
    then have "length ?got = length ids" by (simp only: length_got len)
    then show ?thesis using size le by simp
  qed
  show "\<forall>c \<in> set cs. worker_result c \<noteq> None \<or> c = Done (Inl RoomUnavailableError)"
  proof
    fix c assume c: "c \<in> set cs"
    obtain k where k: "k < length ids" "cs ! k = c" using c len by (auto simp: in_set_conv_nth)
    then show "worker_result c \<noteq> None \<or> c = Done (Inl RoomUnavailableError)"
      using each [OF k(1)] by (auto simp: worker_result_def lost_def)
  qed
qed

lemma distinct_pool: "db_ok d \<Longrightarrow> distinct (pool_of d p t wanted)"
  by (auto simp: pool_of_def db_ok_defs distinct_map inj_on_def split: option.split)

text \<open>The race at its start: the pool is not booked, each stay is there and without a room.\<close>

definition waiting_stay :: "pystr \<Rightarrow> pystr \<Rightarrow> time \<Rightarrow> time \<Rightarrow> db \<Rightarrow> pystr \<Rightarrow> bool" where
  "waiting_stay p t i out d sid \<longleftrightarrow>
     list_ex (\<lambda>s. st_stay_id s = sid \<and> st_check_in s = i \<and> st_check_out s = out \<and>
       st_property_id s = p \<and> st_room_type s = t \<and> st_room_id s = None) (stays d)"

lemma pool_start:
  assumes "db_ok d" "distinct ids" "i < out" "\<forall>r. wanted = Some r \<longrightarrow> fits r"
    and "\<forall>a \<in> set (assignments d). as_room_id a \<in> set (pool_of d p t wanted) \<longrightarrow> \<not> as_active a"
    and "list_all (waiting_stay p t i out d) ids"
  shows "pool_state p t wanted i out (pool_of d p t wanted) ids (d, map (\<lambda>sid. Assign sid wanted) ids)"
proof -
  have "taken (pool_of d p t wanted) i out d = {}" using assms(5) by (auto simp: taken_def room_free_def list_ex_iff)
  moreover have "seeks p t wanted i out d (ids ! k) (Assign (ids ! k) wanted)" if "k < length ids" for k
  proof -
    have "waiting_stay p t i out d (ids ! k)" using assms(6) that by (simp add: list_all_length)
    then show ?thesis unfolding seeks_def waiting_stay_def list_ex_iff by blast
  qed
  ultimately show ?thesis using assms(1-5) by (simp add: pool_state_def)
qed

text \<open>
  C8: Rooms go around. Any number of callers, each for a stay of its own with the same
  window, compete for a pool of unbooked rooms (those of their type, or the one they all
  ask for). Under every schedule that lets each of them finish, as many get a room as
  there are rooms, or callers if those are fewer, no two the same, and every other one
  is refused with \<open>RoomUnavailableError\<close>.
\<close>

theorem rooms_go_around:
  assumes "db_ok d" "distinct ids" "i < out" "\<forall>r. wanted = Some r \<longrightarrow> fits r"
    and "\<forall>a \<in> set (assignments d). as_room_id a \<in> set (pool_of d p t wanted) \<longrightarrow> \<not> as_active a"
    and "list_all (waiting_stay p t i out d) ids" "fair (length ids) ns"
    and "run_schedule ns (d, map (\<lambda>sid. Assign sid wanted) ids) = (d', cs)"
  shows "distinct (List.map_filter worker_result cs) \<and>
    set (List.map_filter worker_result cs) \<subseteq> set (pool_of d p t wanted) \<and>
    length (List.map_filter worker_result cs) = min (length ids) (length (pool_of d p t wanted)) \<and>
    (\<forall>c \<in> set cs. worker_result c \<noteq> None \<or> c = Done (Inl RoomUnavailableError))"
proof -
  have st: "pool_state p t wanted i out (pool_of d p t wanted) ids (d', cs)"
    using schedule_pool_state [OF pool_start [OF assms(1-6)], of ns] assms(8) by simp
  have "\<exists>x. cs ! k = Done x" if "k < length ids" for k
    by (rule fair_finishes [OF assms(8), of k]) (use assms(7) that in auto)
  from finished_pool [OF st this distinct_pool [OF assms(1)]] show ?thesis
    by (auto simp: taken_def)
qed

section \<open>The bench\<close>

text \<open>The store each race starts from.\<close>

definition bench_room :: "nat \<Rightarrow> room_row" where
  "bench_room k = \<lparr>ro_room_id = 100 + int k, ro_property_id = lit ''HILTON-DEMO-001'',
     ro_number = dec_int (100 + int k), ro_room_type = lit ''king''\<rparr>"

definition bench_stay :: "pystr \<Rightarrow> stay_row" where
  "bench_stay sid = \<lparr>st_stay_id = sid, st_guest_id = lit ''g'', st_property_id = lit ''HILTON-DEMO-001'',
     st_room_type = lit ''king'', st_room_id = None, st_check_in = fst RACE_WINDOW,
     st_check_out = snd RACE_WINDOW, st_status = lit ''reserved''\<rparr>"

definition seeded :: "nat \<Rightarrow> db" where
  "seeded n = init_db\<lparr>guests := [\<lparr>gu_guest_id = lit ''g'', gu_name = lit ''Guest'',
     gu_email = lit ''g@example.com''\<rparr>], rooms := map bench_room [0..<n]\<rparr>"

lemma clean_bench [simp]: "clean (lit s)" "clean (dec_int j)"
proof -
  show "clean (lit s)" using text_ok_lit by (simp add: clean_def text_ok_def)
  have "printable s \<Longrightarrow> list_all is_scalar s" for s
    by (induction s) (auto intro: ascii_scalar)
  then show "clean (dec_int j)" using dec_int_printable by (simp add: clean_def)
qed

lemma add_rooms:
  assumes "distinct xs" "\<forall>k \<in> set xs. fits (100 + int k) \<and> 100 + int k \<notin> ro_room_id ` set (rooms d)"
  shows "for_each (\<lambda>k. add_room (100 + int k) (lit ''HILTON-DEMO-001'') (dec_int (100 + int k)) (lit ''king''))
      xs d = (Inr (), d\<lparr>rooms := rooms d @ map bench_room xs\<rparr>)"
  using assms
proof (induction xs arbitrary: d)
  case (Cons k xs)
  let ?d = "d\<lparr>rooms := rooms d @ [bench_room k]\<rparr>"
  have "add_room (100 + int k) (lit ''HILTON-DEMO-001'') (dec_int (100 + int k)) (lit ''king'') d = (Inr (), ?d)"
    using Cons.prems by (simp add: add_room_def insert_if_def bench_room_def)
  moreover have "for_each (\<lambda>k. add_room (100 + int k) (lit ''HILTON-DEMO-001'') (dec_int (100 + int k)) (lit ''king''))
      xs ?d = (Inr (), ?d\<lparr>rooms := rooms ?d @ map bench_room xs\<rparr>)"
    by (rule Cons.IH) (use Cons.prems in \<open>auto simp: bench_room_def\<close>)
  ultimately show ?case by simp
qed simp

lemma seed_run:
  assumes "n \<le> 1000"
  shows "seed (lit ''HILTON-DEMO-001'') n init_db = (Inr (), seeded n)" "db_ok (seeded n)"
proof -
  let ?g = "\<lparr>gu_guest_id = lit ''g'', gu_name = lit ''Guest'', gu_email = lit ''g@example.com''\<rparr>"
  have guest: "add_guest (lit ''g'') (lit ''Guest'') (lit ''g@example.com'') init_db = (Inr (), init_db\<lparr>guests := [?g]\<rparr>)"
    by (simp add: add_guest_def insert_if_def) (simp add: init_db_def)
  have each: "for_each (\<lambda>k. add_room (100 + int k) (lit ''HILTON-DEMO-001'') (dec_int (100 + int k)) (lit ''king''))
      [0..<n] (init_db\<lparr>guests := [?g]\<rparr>) = (Inr (), seeded n)"
    using assms by (subst add_rooms) (auto simp: fits_def seeded_def init_db_def)
  show run: "seed (lit ''HILTON-DEMO-001'') n init_db = (Inr (), seeded n)"
    using guest each by (simp add: seed_def)
  have "keeps db_ok (seed (lit ''HILTON-DEMO-001'') n)" unfolding seed_def by (intro keeps_intros)
  from keepsD [OF this db_ok_init run] show "db_ok (seeded n)" .
qed

lemma create_stays_list:
  assumes "distinct (map f xs)" "\<forall>k \<in> set xs. clean (f k) \<and> f k \<notin> st_stay_id ` set (stays d)"
    and "lit ''g'' \<in> gu_guest_id ` set (guests d)"
  shows "for_collect (\<lambda>k. thenE (add_stay (f k) (lit ''g'') (lit ''HILTON-DEMO-001'') (lit ''king'')
        (fst RACE_WINDOW) (snd RACE_WINDOW)) (ret (f k))) xs d =
    (Inr (map f xs), d\<lparr>stays := stays d @ map (\<lambda>k. bench_stay (f k)) xs\<rparr>)"
  using assms
proof (induction xs arbitrary: d)
  case (Cons k xs)
  let ?d = "d\<lparr>stays := stays d @ [bench_stay (f k)]\<rparr>"
  let ?f = "\<lambda>k. thenE (add_stay (f k) (lit ''g'') (lit ''HILTON-DEMO-001'') (lit ''king'')
        (fst RACE_WINDOW) (snd RACE_WINDOW)) (ret (f k))"
  have "add_stay (f k) (lit ''g'') (lit ''HILTON-DEMO-001'') (lit ''king'') (fst RACE_WINDOW) (snd RACE_WINDOW) d =
      (Inr (), ?d)"
    using Cons.prems
    by (simp add: add_stay_def insert_if_def bench_stay_def RACE_WINDOW_def RACE_NOW_def fits_def)
  then have first: "?f k d = (Inr (f k), ?d)" by simp
  have rest: "for_collect ?f xs ?d =
      (Inr (map f xs), ?d\<lparr>stays := stays ?d @ map (\<lambda>k. bench_stay (f k)) xs\<rparr>)"
    by (rule Cons.IH) (use Cons.prems in \<open>auto simp: bench_stay_def image_iff\<close>)
  have "?d\<lparr>stays := stays ?d @ map (\<lambda>k. bench_stay (f k)) xs\<rparr> =
      d\<lparr>stays := stays d @ map (\<lambda>k. bench_stay (f k)) (k # xs)\<rparr>" by simp
  with for_collect_Cons [of ?f, OF first rest] show ?case unfolding list.map(2) [of f] by metis
qed simp

text \<open>What \<open>uuid4\<close> documents of its first ten digits, for \<open>n\<close> rounds.\<close>

definition uuids_ok :: "(nat \<Rightarrow> pystr) \<Rightarrow> nat \<Rightarrow> bool" where
  "uuids_ok uuid n \<longleftrightarrow> (\<forall>k. clean (uuid k)) \<and> inj_on (\<lambda>k. take 10 (uuid k)) {..<n}"

definition bench_sid :: "(nat \<Rightarrow> pystr) \<Rightarrow> nat \<Rightarrow> pystr" where
  "bench_sid uuid k = lit ''s_'' @ take 10 (uuid k)"

definition contested :: "nat \<Rightarrow> (nat \<Rightarrow> pystr) \<Rightarrow> nat \<Rightarrow> db" where
  "contested m uuid n = (seeded m)\<lparr>stays := map (\<lambda>k. bench_stay (bench_sid uuid k)) [0..<n]\<rparr>"

lemma create_stays_run:
  assumes "uuids_ok uuid n" "m \<le> 1000"
  shows "create_stays uuid (lit ''HILTON-DEMO-001'') n (seeded m) =
      (Inr (map (bench_sid uuid) [0..<n]), contested m uuid n)"
    and "distinct (map (bench_sid uuid) [0..<n])" "db_ok (contested m uuid n)"
proof -
  show dist: "distinct (map (bench_sid uuid) [0..<n])"
    using assms(1) by (auto simp: uuids_ok_def distinct_map inj_on_def bench_sid_def)
  have sids: "\<forall>k \<in> set [0..<n]. clean (bench_sid uuid k) \<and> bench_sid uuid k \<notin> st_stay_id ` set (stays (seeded m))"
    using assms(1) clean_bench(1) [of "''s_''"]
    by (auto simp: uuids_ok_def bench_sid_def clean_def seeded_def init_db_def list_all_iff dest: in_set_takeD)
  have run: "for_collect (\<lambda>k. thenE (add_stay (bench_sid uuid k) (lit ''g'') (lit ''HILTON-DEMO-001'') (lit ''king'')
        (fst RACE_WINDOW) (snd RACE_WINDOW)) (ret (bench_sid uuid k))) [0..<n] (seeded m) =
    (Inr (map (bench_sid uuid) [0..<n]), contested m uuid n)"
    by (subst create_stays_list [OF dist sids]) (simp_all add: contested_def seeded_def init_db_def)
  then show create: "create_stays uuid (lit ''HILTON-DEMO-001'') n (seeded m) =
      (Inr (map (bench_sid uuid) [0..<n]), contested m uuid n)"
    by (simp add: create_stays_def bench_sid_def Let_def)
  have "keeps db_ok (create_stays uuid (lit ''HILTON-DEMO-001'') n)"
    unfolding create_stays_def Let_def by (intro keeps_intros)
  from keepsD [OF this seed_run(2) [OF assms(2)] create] show "db_ok (contested m uuid n)" .
qed

lemma contested_simps [simp]:
  "assignments (contested m uuid n) = []" "rooms (contested m uuid n) = map bench_room [0..<m]"
  "list_all (waiting_stay (lit ''HILTON-DEMO-001'') (lit ''king'') (fst RACE_WINDOW) (snd RACE_WINDOW)
     (contested m uuid n)) (map (bench_sid uuid) [0..<n])"
  by (auto simp: contested_def seeded_def init_db_def list_all_iff waiting_stay_def list_ex_iff bench_stay_def)

lemma contested_pool:
  "pool_of (contested m uuid n) (lit ''HILTON-DEMO-001'') (lit ''king'') None = sort (map (\<lambda>k. 100 + int k) [0..<m])"
  "0 < m \<Longrightarrow> pool_of (contested m uuid n) (lit ''HILTON-DEMO-001'') (lit ''king'') (Some 100) = [100]"
proof -
  have "filter (\<lambda>r. ro_property_id r = lit ''HILTON-DEMO-001'' \<and> ro_room_type r = lit ''king'')
      (map bench_room xs) = map bench_room xs" for xs
    by (induction xs) (simp_all add: bench_room_def)
  moreover have "map ro_room_id (map bench_room xs) = map (\<lambda>k. 100 + int k) xs" for xs
    by (simp add: bench_room_def)
  ultimately show "pool_of (contested m uuid n) (lit ''HILTON-DEMO-001'') (lit ''king'') None =
      sort (map (\<lambda>k. 100 + int k) [0..<m])"
    by (simp only: pool_of_def option.case contested_simps)
  show "0 < m \<Longrightarrow> pool_of (contested m uuid n) (lit ''HILTON-DEMO-001'') (lit ''king'') (Some 100) = [100]"
    by (auto simp: pool_of_def list_ex_iff bench_room_def intro!: bexI [of _ 0])
qed

lemma distinct_keys_eq:
  "distinct (map f xs) \<Longrightarrow> a \<in> set xs \<Longrightarrow> b \<in> set xs \<Longrightarrow> f a = f b \<Longrightarrow> a = b"
  by (metis distinct_map inj_onD)

text \<open>Where the active bookings of a room all have one window, there is at most one.\<close>

lemma one_row:
  assumes "booking_ok d" "i < out" "\<not> room_free d r i out"
    and "\<forall>a \<in> set (assignments d). as_room_id a = r \<longrightarrow> as_active a \<longrightarrow> as_check_in a = i \<and> as_check_out a = out"
  shows "length (filter (\<lambda>a. as_room_id a = r \<and> as_active a) (assignments d)) = 1"
proof -
  let ?rows = "filter (\<lambda>a. as_room_id a = r \<and> as_active a) (assignments d)"
  have ids: "distinct (map as_id (assignments d))" using assms(1) by (simp add: booking_ok_def db_ok_defs)
  have same: "a = b" if "a \<in> set ?rows" "b \<in> set ?rows" for a b
  proof (rule ccontr)
    assume "a \<noteq> b"
    then have "as_id a \<noteq> as_id b" using distinct_keys_eq [OF ids, of a b] that by auto
    then have "\<not> overlap (as_check_in a) (as_check_out a) (as_check_in b) (as_check_out b)"
      using assms(1) that by (auto simp: booking_ok_def no_double_book_def)
    then show False using assms(2,4) that by (auto simp: overlap_def)
  qed
  obtain a where a: "a \<in> set ?rows" using assms(3) by (auto simp: room_free_def list_ex_iff)
  have "distinct ?rows" using ids by (simp add: distinct_map)
  moreover have "set ?rows = {a}" using a same by blast
  ultimately show ?thesis by (metis card.empty card_insert_disjoint distinct_card empty_iff finite.emptyI
      One_nat_def)
qed

lemma all_judged:
  assumes "\<forall>c \<in> set cs. worker_result c \<noteq> None \<or> c = Done (Inl RoomUnavailableError)"
  shows "sum_list (map worker_error cs) + length (filter (\<lambda>c. worker_result c \<noteq> None) cs) = length cs"
  using assms by (induction cs) (auto simp: worker_error_def worker_result_def)

lemma fits_100: "fits 100"
  by (simp add: fits_def)

text \<open>The two races of the bench, each on a database of its own.\<close>

lemma single_race_run:
  assumes "uuids_ok uuid 32" "fair 32 ns"
  obtains d where "thenE (seed (lit ''HILTON-DEMO-001'') 1)
      (race_for_room ns uuid (lit ''HILTON-DEMO-001'') 100 32) init_db =
    (Inr \<lparr>sr_threads = 32, sr_successes = 1, sr_rejections = 31, sr_assigned = 1, sr_double_booked = 0\<rparr>, d)"
proof -
  let ?p = "lit ''HILTON-DEMO-001''" and ?i = "fst RACE_WINDOW" and ?out = "snd RACE_WINDOW"
  let ?ids = "map (bench_sid uuid) [0..<32]" and ?d = "contested 1 uuid 32"
  have window: "?i < ?out" by (simp add: RACE_WINDOW_def)
  obtain e cs where run: "run_schedule ns (?d, map (\<lambda>sid. Assign sid (Some 100)) ?ids) = (e, cs)" by force
  note made = create_stays_run [OF assms(1), of 1]
  have "pool_state ?p (lit ''king'') (Some 100) ?i ?out (pool_of ?d ?p (lit ''king'') (Some 100)) ?ids
      (?d, map (\<lambda>sid. Assign sid (Some 100)) ?ids)"
    by (rule pool_start) (use made window in \<open>simp_all add: fits_100\<close>)
  then have st: "pool_state ?p (lit ''king'') (Some 100) ?i ?out [100] ?ids (e, cs)"
    using schedule_pool_state run by (metis contested_pool(2) zero_less_one)
  have "\<exists>x. cs ! k = Done x" if "k < length ?ids" for k
    by (rule fair_finishes [OF run, of k]) (use assms(2) that in auto)
  note ended = finished_pool [OF st this]
  have len: "length cs = 32" using st by (simp add: pool_state_def)
  have won: "length (filter (\<lambda>c. worker_result c \<noteq> None) cs) = 1"
    using ended(2) by (simp add: length_got)
  then have rejected: "sum_list (map worker_error cs) = 31"
    using all_judged [OF ended(4)] len by simp
  have "race_inv (?d, map (\<lambda>sid. Assign sid (Some 100)) ?ids)"
    using made(3) by (simp add: race_inv_def booking_ok_def no_double_book_def calls_known_def list_all_iff)
  then have ok: "booking_ok e"
    using interleavings_safe [OF run_schedule_interleave, of _ ns] run by (fastforce simp: race_inv_def)
  have "List.map_filter worker_result cs \<noteq> []" using ended(2) by auto
  then have "taken [100] ?i ?out e \<noteq> {}" using ended(3) by (metis set_empty distinct_singleton)
  then have "\<not> room_free e 100 ?i ?out" by (auto simp: taken_def)
  then have rows: "length (filter (\<lambda>a. as_room_id a = 100 \<and> as_active a) (assignments e)) = 1"
    using st by (intro one_row [OF ok window]) (simp_all add: pool_state_def)
  show ?thesis
    by (rule that [of e]) (use made(1) seed_run(1) [of 1] run won rejected rows in
        \<open>simp add: race_for_room_def Let_def\<close>)
qed

lemma multi_race_run:
  assumes "uuids_ok uuid 40" "fair 40 ns"
  obtains d where "thenE (seed (lit ''HILTON-DEMO-001'') 10)
      (multi_room ns uuid (lit ''HILTON-DEMO-001'') 10 40) init_db =
    (Inr \<lparr>mr_rooms = 10, mr_competing = 40, mr_assigned = 10, mr_distinct = 10, mr_duplicates = 0\<rparr>, d)"
proof -
  let ?p = "lit ''HILTON-DEMO-001''" and ?i = "fst RACE_WINDOW" and ?out = "snd RACE_WINDOW"
  let ?ids = "map (bench_sid uuid) [0..<40]" and ?d = "contested 10 uuid 40"
  have window: "?i < ?out" by (simp add: RACE_WINDOW_def)
  obtain e cs where run: "run_schedule ns (?d, map (\<lambda>sid. Assign sid None) ?ids) = (e, cs)" by force
  note made = create_stays_run [OF assms(1), of 10]
  have "pool_state ?p (lit ''king'') None ?i ?out (pool_of ?d ?p (lit ''king'') None) ?ids
      (?d, map (\<lambda>sid. Assign sid None) ?ids)"
    by (rule pool_start) (use made window in simp_all)
  then have st: "pool_state ?p (lit ''king'') None ?i ?out (pool_of ?d ?p (lit ''king'') None) ?ids (e, cs)"
    using schedule_pool_state run by metis
  have "\<exists>x. cs ! k = Done x" if "k < length ?ids" for k
    by (rule fair_finishes [OF run, of k]) (use assms(2) that in auto)
  note ended = finished_pool [OF st this distinct_pool [OF made(3)]]
  have got: "length (List.map_filter worker_result cs) = 10" "distinct (List.map_filter worker_result cs)"
    using ended(1,2) by (simp_all add: contested_pool)
  then have card: "card (set (List.map_filter worker_result cs)) = 10" by (simp add: distinct_card)
  show ?thesis
    by (rule that [of e]) (use made(1) seed_run(1) [of 10] run got card in
        \<open>simp add: multi_room_def Let_def\<close>)
qed

lemma concurrency_run_result:
  assumes "uuids_ok uuid1 32" "uuids_ok uuid2 40" "fair 32 ns1" "fair 40 ns2"
  shows "concurrency_run ns1 uuid1 ns2 uuid2 = Inr
    \<lparr>single_room_race = \<lparr>sr_threads = 32, sr_successes = 1, sr_rejections = 31, sr_assigned = 1, sr_double_booked = 0\<rparr>,
     multi_room_race = \<lparr>mr_rooms = 10, mr_competing = 40, mr_assigned = 10, mr_distinct = 10, mr_duplicates = 0\<rparr>,
     double_booked_total = 0\<rparr>"
proof -
  let ?p = "lit ''HILTON-DEMO-001''"
  obtain d1 where one: "thenE (seed ?p 1) (race_for_room ns1 uuid1 ?p 100 32) init_db =
      (Inr \<lparr>sr_threads = 32, sr_successes = 1, sr_rejections = 31, sr_assigned = 1, sr_double_booked = 0\<rparr>, d1)"
    by (rule single_race_run [OF assms(1,3)])
  obtain d2 where two: "thenE (seed ?p 10) (multi_room ns2 uuid2 ?p 10 40) init_db =
      (Inr \<lparr>mr_rooms = 10, mr_competing = 40, mr_assigned = 10, mr_distinct = 10, mr_duplicates = 0\<rparr>, d2)"
    by (rule multi_race_run [OF assms(2,4)])
  show ?thesis using one two by (simp add: concurrency_run_def Let_def)
qed

text \<open>
  The concurrency bench. Whatever uuids are drawn and however the threads are
  scheduled, as long as each gets to finish, the race of 32 threads for one room has one
  winner and 31 refusals and leaves one assignment, the 40 stays competing for 10 rooms
  get exactly 10, all different, and the bench counts no double booking.
\<close>

theorem concurrency_bench:
  assumes "uuids_ok uuid1 32" "uuids_ok uuid2 40" "fair 32 ns1" "fair 40 ns2"
  shows "\<exists>rep. concurrency_run ns1 uuid1 ns2 uuid2 = Inr rep \<and>
    sr_successes (single_room_race rep) = 1 \<and> sr_rejections (single_room_race rep) = 31 \<and>
    sr_assigned (single_room_race rep) = 1 \<and> sr_double_booked (single_room_race rep) = 0 \<and>
    mr_assigned (multi_room_race rep) = 10 \<and> mr_distinct (multi_room_race rep) = 10 \<and>
    double_booked_total rep = 0"
  by (simp add: concurrency_run_result [OF assms])

text \<open>Two rounds of every thread in turn are a fair schedule.\<close>

lemma fair_rounds: "fair n ([0..<n] @ [0..<n])"
proof -
  have "count_list [0..<n] k = (if k < n then 1 else 0)" for k by (induction n) simp_all
  then show ?thesis by (simp add: fair_def)
qed

lemma sample_uuids: "uuids_ok (\<lambda>k. [100 + k mod 1000]) n" if "n \<le> 1000"
  using that by (auto simp: uuids_ok_def inj_on_def clean_def is_scalar_def is_high_surrogate_def
      is_low_surrogate_def)

theorem concurrency_bench_witness:
  "\<exists>rep. concurrency_run ([0..<32] @ [0..<32]) (\<lambda>k. [100 + k mod 1000]) ([0..<40] @ [0..<40])
     (\<lambda>k. [100 + k mod 1000]) = Inr rep \<and> double_booked_total rep = 0"
  using concurrency_bench [OF sample_uuids sample_uuids fair_rounds fair_rounds] by auto

theorem rooms_go_around_witness:
  "\<exists>d cs. run_schedule ([0..<3] @ [0..<3])
      (contested 2 (\<lambda>k. [100 + k mod 1000]) 3,
       map (\<lambda>sid. Assign sid None) (map (bench_sid (\<lambda>k. [100 + k mod 1000])) [0..<3])) = (d, cs) \<and>
     length (List.map_filter worker_result cs) = 2"
proof -
  let ?u = "\<lambda>k. [100 + k mod 1000 :: nat]"
  let ?d = "contested 2 ?u 3" and ?ids = "map (bench_sid ?u) [0..<3]"
  have u: "uuids_ok ?u 3" by (rule sample_uuids) simp
  note made = create_stays_run [OF u, of 2]
  obtain d cs where run: "run_schedule ([0..<3] @ [0..<3]) (?d, map (\<lambda>sid. Assign sid None) ?ids) = (d, cs)"
    by force
  have window: "fst RACE_WINDOW < snd RACE_WINDOW" by (simp add: RACE_WINDOW_def)
  have "length (List.map_filter worker_result cs) = min (length ?ids)
      (length (pool_of ?d (lit ''HILTON-DEMO-001'') (lit ''king'') None))"
    using rooms_go_around [OF made(3,2) window _ _ contested_simps(3) _ run] fair_rounds [of 3] by simp
  then show ?thesis using run by (simp add: contested_pool)
qed

end
