(* ===== verification/Lifecycle_Bench.thy ===== *)
theory Lifecycle_Bench
  imports Api
begin

text \<open>
  \<open>bench/lifecycle_bench.py\<close>: one property's stays taken through issue, checkout and room
  change, with nine checks of what its locks then decide. The uuids, the material of the
  issued keys and the locks' nonces are arguments, each indexed by the order of its draws.
\<close>

definition BENCH_START :: time where
  "BENCH_START = 1800000000"

definition DAY :: time where
  "DAY = 24 * 3600"

text \<open>
  The lock that \<open>lock_for\<close> returns first is the object of the registry, which
  \<open>sync_lock\<close> then changes: it is read again.
\<close>

definition bench_unlock ::
  "('sk, 'pk) platform \<Rightarrow> bytes \<Rightarrow> int \<Rightarrow> IssuedKey \<Rightarrow> time \<Rightarrow> (('sk, 'pk) AppState, Decision) exec" where
  "bench_unlock P challenge room_id key now =
     thenE (lock_for P room_id)
       (thenE (sync_lock P room_id)
         (bindE (lock_for P room_id)
           (\<lambda>lk. thenE (modify (set_lock room_id (begin_unlock challenge now lk)))
              (bindE (lift_result (device_sign P (ik_device_sk_b64 key) challenge))
                (\<lambda>resp app.
                   case finish_unlock P (ik_token key) challenge resp now (begin_unlock challenge now lk) of
                     (r, lk') \<Rightarrow> (r, set_lock room_id lk' app))))))"

text \<open>A guest and a checked-in stay in the room; the two uuids are those of the ids.\<close>

definition arriving_stay ::
  "pystr \<Rightarrow> pystr \<Rightarrow> pystr \<Rightarrow> int \<Rightarrow> pystr \<Rightarrow> time \<Rightarrow> time \<Rightarrow> (db, pystr) exec" where
  "arriving_stay guest_uuid stay_uuid property_id room_id room_type check_in check_out =
     (let gid = lit ''g_'' @ take 8 guest_uuid; sid = lit ''s_'' @ take 8 stay_uuid
      in thenE (add_guest gid (lit ''Guest'') (lit ''g@example.com''))
           (thenE (add_stay sid gid property_id room_type check_in check_out)
             (thenE (assign_room sid (Some room_id))
               (thenE (set_stay_status sid CHECKED_IN) (ret sid)))))"

definition new_stay ::
  "pystr \<Rightarrow> pystr \<Rightarrow> int \<Rightarrow> (('sk, 'pk) AppState, pystr) exec" where
  "new_stay guest_uuid stay_uuid room_id app =
     with_db (arriving_stay guest_uuid stay_uuid (app_property_id app) room_id (lit ''king'')
                (BENCH_START - 3600) (BENCH_START + 3 * DAY)) app"

text \<open>An integer of a key's payload, which the issuer put there.\<close>

definition payload_int :: "IssuedKey \<Rightarrow> string \<Rightarrow> exn + int" where
  "payload_int key k =
     (case map_of (ik_payload key) (lit k) of
        None \<Rightarrow> Inl KeyError
      | Some (JInt i) \<Rightarrow> Inr i
      | Some _ \<Rightarrow> Inl TypeError)"

text \<open>A key issued with the application's key pair.\<close>

definition bench_issue ::
  "('sk, 'pk) platform \<Rightarrow> 'sk fresh \<Rightarrow> pystr \<Rightarrow> (('sk, 'pk) AppState, IssuedKey) exec" where
  "bench_issue P f sid app = with_db (issue_for_stay P f (app_property_sk app) sid BENCH_START) app"

definition add_king :: "int \<Rightarrow> (('sk, 'pk) AppState, unit) exec" where
  "add_king rid app =
     with_db (add_room rid (app_property_id app) (dec_int rid) (lit ''king'')) app"

text \<open>Issue and unlock, the two ends of the window, and checkout within it.\<close>

definition first_stay_checks ::
  "('sk, 'pk) platform \<Rightarrow> (nat \<Rightarrow> pystr) \<Rightarrow> (nat \<Rightarrow> 'sk fresh) \<Rightarrow> (nat \<Rightarrow> bytes) \<Rightarrow>
     (('sk, 'pk) AppState, (pystr \<times> bool) list) exec" where
  "first_stay_checks P uuid f nonce =
     bindE (new_stay (uuid 0) (uuid 1) 101) (\<lambda>sid.
     bindE (bench_issue P (f 0) sid) (\<lambda>key.
     bindE (bench_unlock P (nonce 0) 101 key BENCH_START) (\<lambda>now.
     bindE (lift_result (payload_int key ''valid_from'')) (\<lambda>valid_from.
     bindE (bench_unlock P (nonce 1) 101 key (valid_from - 1)) (\<lambda>before.
     bindE (lift_result (payload_int key ''valid_until'')) (\<lambda>valid_until.
     bindE (bench_unlock P (nonce 2) 101 key (valid_until + 1)) (\<lambda>late.
     thenE (with_db (checkout sid BENCH_START))
       (bindE (bench_unlock P (nonce 3) 101 key BENCH_START) (\<lambda>dec. ret
         [(lit ''issued_key_unlocks_in_window'', unlocked now),
          (lit ''before_checkin_denied'', \<not> unlocked before),
          (lit ''after_checkout_window_denied'', \<not> unlocked late),
          (lit ''revoked_after_checkout_denied'',
             \<not> unlocked dec \<and> map_option reason_value (reason dec) = Some (lit ''revoked''))])))))))))"

text \<open>A room change: the old key dies, the new one opens the new room only.\<close>

definition second_stay_checks ::
  "('sk, 'pk) platform \<Rightarrow> (nat \<Rightarrow> pystr) \<Rightarrow> (nat \<Rightarrow> 'sk fresh) \<Rightarrow> (nat \<Rightarrow> bytes) \<Rightarrow>
     (('sk, 'pk) AppState, (pystr \<times> bool) list) exec" where
  "second_stay_checks P uuid f nonce =
     bindE (new_stay (uuid 2) (uuid 3) 101) (\<lambda>sid.
     bindE (bench_issue P (f 1) sid) (\<lambda>key_old.
     bindE (bench_unlock P (nonce 4) 101 key_old BENCH_START) (\<lambda>pre.
     bindE (\<lambda>app. with_db (lifecycle_change_room P (f 2) (app_property_sk app) sid BENCH_START
                            (Some 102)) app) (\<lambda>(new_room, revoked, key_new).
     bindE (bench_unlock P (nonce 5) 101 key_old BENCH_START) (\<lambda>old.
     bindE (bench_unlock P (nonce 6) 102 key_new BENCH_START) (\<lambda>there.
     bindE (bench_unlock P (nonce 7) 101 key_new BENCH_START) (\<lambda>here. ret
       [(lit ''pre_change_old_key_unlocks'', unlocked pre),
        (lit ''room_changed_to_expected'', new_room = 102),
        (lit ''old_key_denied_after_change'', \<not> unlocked old),
        (lit ''new_key_unlocks_new_room'', unlocked there),
        (lit ''new_key_wrong_room_denied'', \<not> unlocked here)])))))))"

record lifecycle_report =
  lr_checks :: "(pystr \<times> bool) list"
  all_correct :: bool

definition lifecycle_run ::
  "('sk, 'pk) platform \<Rightarrow> 'sk \<Rightarrow> (nat \<Rightarrow> pystr) \<Rightarrow> (nat \<Rightarrow> 'sk fresh) \<Rightarrow> (nat \<Rightarrow> bytes) \<Rightarrow>
     exn + lifecycle_report" where
  "lifecycle_run P property_sk uuid f nonce =
     (case new_app P DEMO_PROPERTY_ID property_sk init_db of
        Inl e \<Rightarrow> Inl e
      | Inr app \<Rightarrow>
          fst (thenE (for_each add_king [101, 102])
            (bindE (first_stay_checks P uuid f nonce) (\<lambda>first.
             bindE (second_stay_checks P uuid f nonce) (\<lambda>second.
               let checks = first @ second
               in ret \<lparr>lr_checks = checks, all_correct = list_all snd checks\<rparr>))) app))"

end
