(* ===== verification/Bench_Facts.thy ===== *)
theory Bench_Facts
  imports Lifecycle_Bench Lock_Guard Api_Facts
begin

text \<open>
  What the benches over one application share: a stay that arrives, and a key presented
  at a lock of the registry after a sync, each in closed form.
\<close>

section \<open>A guest arrives\<close>

text \<open>The store \<open>d'\<close> is \<open>d\<close> with the checked-in stay \<open>s\<close> in room \<open>r\<close>.\<close>

definition arrived :: "stay_row \<Rightarrow> int \<Rightarrow> db \<Rightarrow> db \<Rightarrow> bool" where
  "arrived s r d d' \<longleftrightarrow>
     db_ok d' \<and> s \<in> set (stays d') \<and> st_room_id s = Some r \<and> st_status s = CHECKED_IN \<and>
     set (stays d) \<subseteq> set (stays d') \<and>
     st_stay_id ` set (stays d') = insert (st_stay_id s) (st_stay_id ` set (stays d)) \<and>
     gu_guest_id ` set (guests d') = insert (st_guest_id s) (gu_guest_id ` set (guests d)) \<and>
     rooms d' = rooms d \<and> keys d' = keys d \<and> revocations d' = revocations d \<and>
     (\<exists>n. active_rows d' = insert \<lparr>as_id = n, as_room_id = r, as_stay_id = st_stay_id s,
        as_check_in = st_check_in s, as_check_out = st_check_out s, as_active = True\<rparr> (active_rows d))"

definition arrival :: "pystr \<Rightarrow> pystr \<Rightarrow> pystr \<Rightarrow> pystr \<Rightarrow> time \<Rightarrow> time \<Rightarrow> stay_row" where
  "arrival sid gid prop kind i out =
     \<lparr>st_stay_id = sid, st_guest_id = gid, st_property_id = prop, st_room_type = kind,
      st_room_id = None, st_check_in = i, st_check_out = out, st_status = RESERVED\<rparr>"

lemma arrival_simps [simp]:
  "st_stay_id (arrival sid gid prop kind i out) = sid" "st_guest_id (arrival sid gid prop kind i out) = gid"
  "st_property_id (arrival sid gid prop kind i out) = prop" "st_room_id (arrival sid gid prop kind i out) = None"
  "st_room_type (arrival sid gid prop kind i out) = kind"
  "st_check_in (arrival sid gid prop kind i out) = i" "st_check_out (arrival sid gid prop kind i out) = out"
  by (simp_all add: arrival_def)

lemma active_rows_booked:
  assumes "db_ok d"
  shows "\<exists>n. active_rows (booked s r d) = insert \<lparr>as_id = n, as_room_id = r, as_stay_id = st_stay_id s,
    as_check_in = st_check_in s, as_check_out = st_check_out s, as_active = True\<rparr> (active_rows d)"
proof -
  have "active_rows (booked s r d) =
      active_rows (put_assignment r (st_stay_id s) (st_check_in s) (st_check_out s) d)"
    by (simp add: active_rows_def booked_def with_room_def)
  moreover have "ids_below d" using assms by (auto simp: ids_below_def db_ok_defs)
  ultimately show ?thesis
    using ledger.book_adds [of d r "st_stay_id s" "st_check_in s" "st_check_out s"] by metis
qed

lemma stay_arrives_bound:
  assumes "db_ok d" "gid \<notin> gu_guest_id ` set (guests d)" "sid \<notin> st_stay_id ` set (stays d)"
    and texts: "\<forall>x \<in> {gid, name, email, sid, prop, kind}. clean x" and "fits i" "fits out"
    and room: "list_ex (\<lambda>ro. ro_room_id ro = r \<and> ro_property_id ro = prop) (rooms d)" "room_free d r i out"
  shows "\<exists>d'. arrived (arrival sid gid prop kind i out\<lparr>st_room_id := Some r, st_status := CHECKED_IN\<rparr>) r d d' \<and>
    (\<forall>k. thenE (add_guest gid name email) (thenE (add_stay sid gid prop kind i out)
       (bindE (assign_room sid (Some r)) (\<lambda>room. thenE (set_stay_status sid CHECKED_IN) (k room)))) d = k r d')"
proof -
  let ?s = "arrival sid gid prop kind i out"
  define d1 where "d1 = d\<lparr>guests := guests d @ [\<lparr>gu_guest_id = gid, gu_name = name, gu_email = email\<rparr>]\<rparr>"
  define d2 where "d2 = d1\<lparr>stays := stays d1 @ [?s]\<rparr>"
  have run1: "add_guest gid name email d = (Inr (), d1)"
    using assms by (simp add: add_guest_def insert_if_def d1_def)
  have run2: "add_stay sid gid prop kind i out d1 = (Inr (), d2)"
    using assms by (simp add: add_stay_def insert_if_def d1_def d2_def arrival_def RESERVED_def)
  have ok1: "db_ok d1" by (rule keepsD [OF keeps_add_guest assms(1) run1])
  have ok2: "db_ok d2" by (rule keepsD [OF keeps_add_stay ok1 run2])
  have in2: "?s \<in> set (stays d2)" by (simp add: d2_def)
  have "fits r" using assms(1) room(1) by (auto simp: list_ex_iff db_ok_defs)
  moreover have "room_free d2 r i out" using room(2) by (simp add: room_free_def d1_def d2_def)
  ultimately have "room_choice d2 ?s (Some r) (rooms_of d2 ?s) = Inr r"
    using room(1) by (simp add: room_choice_def d1_def d2_def)
  then have run3: "assign_room sid (Some r) d2 = (Inr r, booked ?s r d2)"
    using assign_room_row [OF ok2 in2, of "Some r"] by simp
  have known: "stay_known d2 ?s" by (rule stay_known_read [OF ok2 in2])
  have "r \<in> ro_room_id ` set (rooms d2)" using room(1) by (auto simp: list_ex_iff d1_def d2_def)
  then have ok3: "db_ok (booked ?s r d2)" by (rule db_ok_booked [OF ok2 known])
  define d4 where "d4 = with_status sid CHECKED_IN (booked ?s r d2)"
  have run4: "set_stay_status sid CHECKED_IN (booked ?s r d2) = (Inr (), d4)"
    using texts by (simp add: set_status_exec d4_def)
  have ok4: "db_ok d4" by (rule keepsD [OF keeps_set_stay_status ok3 run4])
  have run: "thenE (add_guest gid name email) (thenE (add_stay sid gid prop kind i out)
      (bindE (assign_room sid (Some r)) (\<lambda>room. thenE (set_stay_status sid CHECKED_IN) (k room)))) d = k r d4"
    for k :: "int \<Rightarrow> (db, 'a) exec"
    using run1 run2 run3 run4 by simp
  obtain n where rows: "active_rows (booked ?s r d2) = insert \<lparr>as_id = n, as_room_id = r, as_stay_id = sid,
      as_check_in = i, as_check_out = out, as_active = True\<rparr> (active_rows d2)"
    using active_rows_booked [OF ok2, of ?s r] by auto
  have stays4: "stays d4 = stays d @ [?s\<lparr>st_room_id := Some r, st_status := CHECKED_IN\<rparr>]"
    using assms(3) by (auto simp: d4_def with_status_def booked_def with_room_def put_assignment_def
        d2_def d1_def update_where_def intro!: map_idI)
  have rest: "guests d4 = guests d1" "rooms d4 = rooms d" "keys d4 = keys d" "revocations d4 = revocations d"
    by (simp_all add: d4_def with_status_def booked_def with_room_def put_assignment_def d2_def d1_def)
  have "active_rows d4 = active_rows (booked ?s r d2)" "active_rows d2 = active_rows d"
    by (simp_all add: active_rows_def d4_def with_status_def d2_def d1_def)
  then have "arrived (?s\<lparr>st_room_id := Some r, st_status := CHECKED_IN\<rparr>) r d d4"
    using ok4 rows stays4 rest by (auto simp: arrived_def d1_def)
  then show ?thesis using run by blast
qed

text \<open>Where the room that was assigned is not looked at.\<close>

lemma stay_arrives:
  assumes "db_ok d" "gid \<notin> gu_guest_id ` set (guests d)" "sid \<notin> st_stay_id ` set (stays d)"
    and "\<forall>x \<in> {gid, name, email, sid, prop, kind}. clean x" and "fits i" "fits out"
    and "list_ex (\<lambda>ro. ro_room_id ro = r \<and> ro_property_id ro = prop) (rooms d)" "room_free d r i out"
  shows "\<exists>d'. arrived (arrival sid gid prop kind i out\<lparr>st_room_id := Some r, st_status := CHECKED_IN\<rparr>) r d d' \<and>
    (\<forall>k. thenE (add_guest gid name email) (thenE (add_stay sid gid prop kind i out)
       (thenE (assign_room sid (Some r)) (thenE (set_stay_status sid CHECKED_IN) k))) d = k d')"
proof -
  let ?s = "arrival sid gid prop kind i out\<lparr>st_room_id := Some r, st_status := CHECKED_IN\<rparr>"
  obtain d' where d: "arrived ?s r d d'"
    "\<forall>k :: int \<Rightarrow> (db, 'a) exec. thenE (add_guest gid name email) (thenE (add_stay sid gid prop kind i out)
       (bindE (assign_room sid (Some r)) (\<lambda>room. thenE (set_stay_status sid CHECKED_IN) (k room)))) d = k r d'"
    using stay_arrives_bound [OF assms] by (elim exE conjE)
  show ?thesis
    using d(1) d(2) [THEN spec, of "\<lambda>_. k" for k, folded thenE_def] by (intro exI conjI allI)
qed

section \<open>The application of a bench\<close>

text \<open>
  Between two presentations: \<open>used\<close> are the nonces so far, of any lock and of the
  authorizer, \<open>sk\<close> is the property's key.
\<close>

definition bench_app :: "('sk, 'pk) platform \<Rightarrow> 'sk \<Rightarrow> bytes set \<Rightarrow> ('sk, 'pk) AppState \<Rightarrow> bool" where
  "bench_app P sk used app \<longleftrightarrow>
     app_property_id app = DEMO_PROPERTY_ID \<and> app_property_sk app = sk \<and>
     app_property_pub_raw app = public_bytes P (public_key P sk) \<and>
     (\<forall>r lk. map_of (app_locks app) r = Some lk \<longrightarrow>
        (\<exists>R. guards DEMO_PROPERTY_ID r (public_key P sk) R used lk)) \<and>
     cr_property_id (app_connected app) = DEMO_PROPERTY_ID \<and>
     cr_property_pub (app_connected app) = public_key P sk \<and>
     ttl (cr_challenges (app_connected app)) = CHALLENGE_TTL_SECONDS \<and>
     (\<exists>issued accepted. set issued \<subseteq> used \<and>
        challenges.tracks (cr_challenges (app_connected app)) issued accepted)"

lemma bench_appD:
  assumes "bench_app P sk used app"
  shows "app_property_id app = DEMO_PROPERTY_ID" "app_property_sk app = sk"
    "app_property_pub_raw app = public_bytes P (public_key P sk)"
    "map_of (app_locks app) r = Some lk \<Longrightarrow> \<exists>R. guards DEMO_PROPERTY_ID r (public_key P sk) R used lk"
  using assms by (simp_all add: bench_app_def)

lemma bench_app_db [simp]: "bench_app P sk used (app\<lparr>app_db := d\<rparr>) = bench_app P sk used app"
  by (simp add: bench_app_def)

lemma bench_app_mono:
  "bench_app P sk used app \<Longrightarrow> used \<subseteq> used' \<Longrightarrow> bench_app P sk used' app"
  unfolding bench_app_def by (meson guards_mono order_trans)

lemma set_lock_simps [simp]:
  "app_db (set_lock r lk app) = app_db app"
  "map_of (app_locks (set_lock r lk app)) = (map_of (app_locks app))(r \<mapsto> lk)"
  "app_connected (set_lock r lk app) = app_connected app"
  by (simp_all add: set_lock_def update_conv')

lemma bench_app_set_lock:
  assumes "bench_app P sk used app" "guards DEMO_PROPERTY_ID r (public_key P sk) R used lk"
  shows "bench_app P sk used (set_lock r lk app)"
  using assms by (auto simp: bench_app_def set_lock_def update_conv')

lemma new_app_bench:
  assumes "ed25519 P"
  obtains app where "new_app P DEMO_PROPERTY_ID sk d = Inr app" "bench_app P sk {} app" "app_db app = d"
proof -
  let ?cr = "\<lparr>cr_property_id = DEMO_PROPERTY_ID, cr_property_pub = public_key P sk,
    cr_challenges = new_store CHALLENGE_TTL_SECONDS CHALLENGE_NONCE_BYTES\<rparr>"
  have "new_authorizer P DEMO_PROPERTY_ID (property_public_raw P sk) = Inr ?cr"
    using assms by (simp add: new_authorizer_def property_public_raw_def ed25519_simps)
  moreover have "challenges.tracks (cr_challenges ?cr) [] []"
    by (simp add: challenges.tracks_init store_inv_new check_new)
  moreover have "ttl (new_store l n) = l" for l n by (simp add: new_store_def)
  ultimately show ?thesis
    using that by (force simp: new_app_def bench_app_def property_public_raw_def)
qed

text \<open>Every room of the store is the property's.\<close>

definition own_rooms :: "db \<Rightarrow> bool" where
  "own_rooms d \<longleftrightarrow> (\<forall>ro \<in> set (rooms d). ro_property_id ro = DEMO_PROPERTY_ID)"

lemma lock_for_bench:
  assumes "ed25519 P" "bench_app P sk used app" "own_rooms (app_db app)" "fits r"
  obtains lk R app' where "lock_for P r app = (Inr lk, app')" "bench_app P sk used app'"
    "map_of (app_locks app') r = Some lk" "guards DEMO_PROPERTY_ID r (public_key P sk) R used lk"
    "app_db app' = app_db app"
proof (cases "map_of (app_locks app) r")
  case (Some lk)
  then show ?thesis using that [of lk app] bench_appD(4) [OF assms(2) Some] assms(2)
    by (auto simp: lock_for_def)
next
  case None
  let ?room = "fetchone (filter (\<lambda>ro. ro_room_id ro = r) (rooms (app_db app)))"
  let ?rs = "map re_key_id (revocations (app_db app))"
  note app = bench_appD [OF assms(2)]
  have room: "with_db (get_room r) app = (Inr ?room, app)"
    by (rule with_db_read) (use assms(4) in \<open>simp add: get_room_def\<close>)
  have owner: "(case ?room of Some ro \<Rightarrow> ro_property_id ro | None \<Rightarrow> app_property_id app) = DEMO_PROPERTY_ID"
    using assms(3) app(1) by (auto simp: own_rooms_def dest!: fetchone_Some split: option.split)
  obtain lk where lk: "new_lock P DEMO_PROPERTY_ID r (public_bytes P (public_key P sk)) ?rs = Inr lk"
    "guards DEMO_PROPERTY_ID r (public_key P sk) (set ?rs) used lk"
    by (rule new_lock_guards [OF assms(1)])
  have "lock_for P r app = (Inr lk, set_lock r lk app)"
    using None room owner lk(1) app(3)
    by (simp add: lock_for_def create_lock_def with_db_revocations set_lock_def)
  then show ?thesis using that bench_app_set_lock [OF assms(2) lk(2)] lk(2) by force
qed

lemma sync_lock_bench:
  assumes "ed25519 P" "bench_app P sk used app" "own_rooms (app_db app)" "fits r"
  obtains lk app' where "sync_lock P r app = (Inr (), app')" "bench_app P sk used app'"
    "map_of (app_locks app') r = Some lk"
    "guards DEMO_PROPERTY_ID r (public_key P sk) (revoked_ids (app_db app)) used lk"
    "app_db app' = app_db app"
proof -
  obtain lk R app1 where l: "lock_for P r app = (Inr lk, app1)" "bench_app P sk used app1"
    "guards DEMO_PROPERTY_ID r (public_key P sk) R used lk" "app_db app1 = app_db app"
    by (rule lock_for_bench [OF assms]) blast
  let ?rs = "map re_key_id (revocations (app_db app))"
  have "set ?rs = revoked_ids (app_db app)" by (simp add: revoked_ids_def)
  then have "guards DEMO_PROPERTY_ID r (public_key P sk) (revoked_ids (app_db app)) used (sync_revocations ?rs lk)"
    using guards_sync [OF l(3), of ?rs] by simp
  moreover have "sync_lock P r app = (Inr (), set_lock r (sync_revocations ?rs lk) app1)"
    using l(1,4) by (simp add: sync_lock_def with_db_revocations)
  ultimately show ?thesis
    using that bench_app_set_lock [OF l(2)] l(4) by force
qed

lemma bench_unlock_run:
  assumes "ed25519 P" "bench_app P sk used app" "own_rooms (app_db app)" "fits r" "c \<notin> used"
    and "args_ok f a" "issue_credential P f sk a = Inr ik"
  obtains app' where "bench_unlock P c r ik t app = (Inr (verdict (ik_key_id ik)
      (issued_decision (ik_key_id ik) a DEMO_PROPERTY_ID r t (revoked_ids (app_db app)))), app')"
    "bench_app P sk (insert c used) app'" "app_db app' = app_db app"
proof -
  obtain lk0 R app0 where l0: "lock_for P r app = (Inr lk0, app0)" "bench_app P sk used app0"
    "app_db app0 = app_db app"
    by (rule lock_for_bench [OF assms(1-4)]) blast
  obtain lk app1 where l1: "sync_lock P r app0 = (Inr (), app1)" "bench_app P sk used app1"
    "map_of (app_locks app1) r = Some lk"
    "guards DEMO_PROPERTY_ID r (public_key P sk) (revoked_ids (app_db app)) used lk" "app_db app1 = app_db app"
    by (rule sync_lock_bench [OF assms(1) l0(2) _ assms(4)]) (use assms(3) l0(3) in auto)
  note begun = guards_begin [OF l1(4) assms(5), of t]
  obtain lk' where l2: "finish_unlock P (ik_token ik) c (sign P (device_key f a) c) t (begin_unlock c t lk) =
      (Inr (verdict (ik_key_id ik)
         (issued_decision (ik_key_id ik) a DEMO_PROPERTY_ID r t (revoked_ids (app_db app)))), lk')"
    "guards DEMO_PROPERTY_ID r (public_key P sk) (revoked_ids (app_db app)) (insert c used) lk'"
    by (rule guards_present [OF assms(1,6,7) begun])
  let ?app2 = "set_lock r (begin_unlock c t lk) app1"
  have "bench_unlock P c r ik t app = (Inr (verdict (ik_key_id ik)
      (issued_decision (ik_key_id ik) a DEMO_PROPERTY_ID r t (revoked_ids (app_db app)))), set_lock r lk' ?app2)"
    using l0(1) l1(1,3) l2(1)
    by (simp add: bench_unlock_def lock_for_def lift_result_def device_sign_issued [OF assms(1,7)])
  moreover have "bench_app P sk (insert c used) (set_lock r lk' ?app2)"
    by (rule bench_app_set_lock [OF bench_app_set_lock [OF bench_app_mono [OF l1(2)] begun(1)] l2(2)]) blast
  ultimately show ?thesis using that l1(5) by simp
qed

section \<open>Keys of a bench\<close>

lemma bindE_to: "m s = (Inr x, s') \<Longrightarrow> f x s' = r \<Longrightarrow> bindE m f s = r"
  by simp

lemma thenE_to: "m s = (Inr x, s') \<Longrightarrow> k s' = r \<Longrightarrow> thenE m k s = r"
  by simp

lemma payload_int_issued:
  assumes "issue_credential P f sk a = Inr ik"
  shows "payload_int ik ''valid_from'' = Inr (ia_valid_from a)"
    "payload_int ik ''valid_until'' = Inr (ia_valid_until a)"
  by (simp_all add: payload_int_def issued_fields(2) [OF assms] issue_payload_def)

lemma lift_result_Inr: "r = Inr x \<Longrightarrow> lift_result r s = (Inr x, s)"
  by (simp add: lift_result_def)

text \<open>The key of a stay that has its room, and the store with its row.\<close>

definition keyed :: "IssuedKey \<Rightarrow> stay_row \<Rightarrow> int \<Rightarrow> time \<Rightarrow> db \<Rightarrow> db" where
  "keyed ik s room now d = d\<lparr>keys := keys d @ [issued_row ik s room now]\<rparr>"

lemma issued_row_simps [simp]:
  "ke_key_id (issued_row ik s room now) = ik_key_id ik" "ke_stay_id (issued_row ik s room now) = st_stay_id s"
  "ke_active (issued_row ik s room now)"
  by (simp_all add: issued_row_def effective_window_def)

lemma keyed_simps [simp]:
  "stays (keyed ik s room now d) = stays d" "rooms (keyed ik s room now d) = rooms d"
  "guests (keyed ik s room now d) = guests d" "revocations (keyed ik s room now d) = revocations d"
  "active_rows (keyed ik s room now d) = active_rows d" "revoked_ids (keyed ik s room now d) = revoked_ids d"
  "ke_key_id ` set (keys (keyed ik s room now d)) = insert (ik_key_id ik) (ke_key_id ` set (keys d))"
  "active_keys i (keyed ik s room now d) =
     active_keys i d @ (if i = st_stay_id s then [ik_key_id ik] else [])"
  by (simp_all add: keyed_def active_rows_def revoked_ids_def active_keys_def)

lemma stay_key_issued:
  assumes "db_ok d" "s \<in> set (stays d)" "st_room_id s = Some room" "fits now" "fresh_ok f"
    and "st_check_in s < min (st_check_out s) (now + KEY_TTL_SECONDS)"
    and "fresh_uuid f \<notin> ke_key_id ` set (keys d)"
  obtains ik where "issue_credential P f sk (stay_args f s room now) = Inr ik"
    "issue_for_stay P f sk (st_stay_id s) now d = (Inr ik, keyed ik s room now d)"
    "args_ok f (stay_args f s room now)" "ik_key_id ik = fresh_uuid f" "db_ok (keyed ik s room now d)"
proof -
  obtain ik where ik: "issue_credential P f sk (stay_args f s room now) = Inr ik"
    "issue_for_stay P f sk (st_stay_id s) now d = (Inr ik, d\<lparr>keys := keys d @ [issued_row ik s room now]\<rparr>)"
    by (rule issue_for_stay_ok [OF assms])
  have run: "issue_for_stay P f sk (st_stay_id s) now d = (Inr ik, keyed ik s room now d)"
    using ik(2) by (simp add: keyed_def)
  show ?thesis
    by (rule that [OF ik(1) run stay_args_ok [OF assms(1-6)] stay_key_id [OF ik(1)]
        keepsD [OF keeps_issue_for_stay_db assms(1) run]])
qed

text \<open>What a lock of the property's room \<open>r\<close> says to the key of a stay in \<open>room\<close>.\<close>

lemma stay_key_verdict:
  "st_property_id s = DEMO_PROPERTY_ID \<Longrightarrow>
     issued_decision k (stay_args f s room now) DEMO_PROPERTY_ID r t R =
       (if r \<noteq> room then Some WRONG_ROOM
        else if t < st_check_in s then Some NOT_YET_VALID
        else if t > min (st_check_out s) (now + KEY_TTL_SECONDS) then Some EXPIRED
        else if k \<in> R then Some REVOKED else None)"
  by (auto simp: issued_decision_def)

section \<open>A successful room change\<close>

lemma booked_simps [simp]:
  "keys (booked s r d) = keys d" "revocations (booked s r d) = revocations d"
  "guests (booked s r d) = guests d" "revoked_ids (booked s r d) = revoked_ids d"
  "st_stay_id ` set (stays (booked s r d)) = st_stay_id ` set (stays d)"
proof -
  have "map st_stay_id (stays (booked s r d)) = map st_stay_id (stays d)"
    by (simp add: booked_def with_room_def put_assignment_def update_where_def)
  then show "st_stay_id ` set (stays (booked s r d)) = st_stay_id ` set (stays d)"
    by (metis list.set_map)
qed (simp_all add: booked_def with_room_def put_assignment_def revoked_ids_def)

lemma room_change_run:
  assumes "db_ok d" "s \<in> set (stays d)" "st_status s \<noteq> CHECKED_OUT" "fits now" "fresh_ok f"
    and "room_choice (retire (st_stay_id s) d) s (Some r) (other_rooms d s) = Inr r"
    and "st_check_in s < min (st_check_out s) (now + KEY_TTL_SECONDS)"
    and "fresh_uuid f \<notin> ke_key_id ` set (keys d)"
  obtains ik d' where
    "lifecycle_change_room P f sk (st_stay_id s) now (Some r) d = (Inr (r, active_keys (st_stay_id s) d, ik), d')"
    "issue_credential P f sk (stay_args f (s\<lparr>st_room_id := Some r\<rparr>) r now) = Inr ik"
    "args_ok f (stay_args f (s\<lparr>st_room_id := Some r\<rparr>) r now)" "ik_key_id ik = fresh_uuid f"
    "rooms d' = rooms d" "revoked_ids d' = revoked_ids d \<union> set (active_keys (st_stay_id s) d)"
proof -
  let ?i = "st_stay_id s" and ?s' = "s\<lparr>st_room_id := Some r\<rparr>"
  have "clean ?i" using assms(1,2) by (auto simp: db_ok_defs)
  define d1 where "d1 = revoked_db ?i now (lit ''room_change'') d"
  have run1: "revoke_all ?i now (lit ''room_change'') d = (Inr (active_keys ?i d), d1)"
    unfolding d1_def by (rule revoke_all_exec [OF assms(1) \<open>clean ?i\<close>]) (use assms(4) in simp_all)
  have ok1: "db_ok d1" by (rule keepsD [OF keeps_revoke_all_db assms(1) run1])
  have d1 [simp]: "stays d1 = stays d" "rooms d1 = rooms d" "assignments d1 = assignments d"
    "revoked_ids d1 = revoked_ids d \<union> set (active_keys ?i d)"
    "ke_key_id ` set (keys d1) = ke_key_id ` set (keys d)"
    by (simp_all add: d1_def)
  have in1: "s \<in> set (stays d1)" using assms(2) by simp
  define d2 where "d2 = booked s r (retire ?i d1)"
  have others: "other_rooms d1 s = other_rooms d s" by (simp add: other_rooms_def rooms_of_def)
  have "room_choice (retire ?i d1) s (Some r) (other_rooms d1 s) = Inr r"
    using assms(6) room_choice_cong [of "retire ?i d1" "retire ?i d"] by (simp add: others retire_def)
  then have run2: "change_room ?i (Some r) d1 = (Inr r, d2)"
    using change_room_row [OF ok1 in1, of "Some r"] by (simp add: d2_def)
  have "retire_assignments ?i d1 = (Inr (), retire ?i d1)"
    using \<open>clean ?i\<close> by (simp add: retire_assignments_def)
  then have ok: "db_ok (retire ?i d1)" by (rule keepsD [OF keeps_retire_assignments_db ok1])
  have "r \<in> ro_room_id ` set (rooms d)"
    using assms(6) by (auto simp: room_choice_def list_ex_iff split: if_splits)
  then have ok2: "db_ok d2"
    unfolding d2_def by (intro db_ok_booked ok stay_known_read) (use in1 in simp_all)
  have in2: "?s' \<in> set (stays d2)" unfolding d2_def by (rule booked_stay) (use in1 in simp)
  have "fresh_uuid f \<notin> ke_key_id ` set (keys d2)" using assms(8) by (simp add: d2_def)
  then obtain ik where ik: "issue_credential P f sk (stay_args f ?s' r now) = Inr ik"
    "issue_for_stay P f sk ?i now d2 = (Inr ik, keyed ik ?s' r now d2)"
    "args_ok f (stay_args f ?s' r now)" "ik_key_id ik = fresh_uuid f"
    using stay_key_issued [OF ok2 in2, of r now f P sk] assms(4,5,7) by auto
  have "lifecycle_change_room P f sk ?i now (Some r) d =
      (Inr (r, active_keys ?i d, ik), keyed ik ?s' r now d2)"
    using get_stay_row [OF assms(1,2)] assms(3) run1 run2 ik(2) by (simp add: lifecycle_change_room_def)
  then show ?thesis by (rule that [OF _ ik(1,3,4)]) (simp_all add: d2_def)
qed

section \<open>Rooms, stays and keys of the benches\<close>

definition king_room :: "int \<Rightarrow> room_row" where
  "king_room r = \<lparr>ro_room_id = r, ro_property_id = DEMO_PROPERTY_ID, ro_number = dec_int r,
     ro_room_type = lit ''king''\<rparr>"

lemma king_room_simps [simp]:
  "ro_room_id (king_room r) = r" "ro_property_id (king_room r) = DEMO_PROPERTY_ID"
  "ro_room_type (king_room r) = lit ''king''"
  by (simp_all add: king_room_def)

lemma clean_bench_texts [simp]: "clean DEMO_PROPERTY_ID" "clean (dec_int i)"
proof -
  have "is_scalar c" if "is_digit c \<or> c = 45" for c
    using that by (auto simp: is_digit_def is_scalar_def is_high_surrogate_def is_low_surrogate_def)
  moreover have "\<forall>c \<in> set (dec_nat n). is_digit c" for n
    using dec_nat_digits [of n] by (simp add: list_all_iff)
  ultimately show "clean (dec_int i)" by (auto simp: clean_def list_all_iff dec_int_def)
qed (simp add: DEMO_PROPERTY_ID_def)

lemma clean_drawn_id: "clean u \<Longrightarrow> clean (lit p @ take n u)"
  by (auto simp: clean_def list_all_iff dest: in_set_takeD intro: clean_lits [unfolded clean_def list_all_iff, rule_format])

lemma add_king_run:
  assumes "bench_app P sk used app" "fits r" "r \<notin> ro_room_id ` set (rooms (app_db app))"
  shows "add_king r app = (Inr (), app\<lparr>app_db := app_db app\<lparr>rooms := rooms (app_db app) @ [king_room r]\<rparr>\<rparr>)"
  unfolding add_king_def
  by (rule with_db_run) (use assms in \<open>simp add: add_room_def insert_if_def bench_appD king_room_def\<close>)

text \<open>The window of the bench's stays.\<close>

lemma bench_window [simp]:
  "BENCH_START - 3600 < min (BENCH_START + 3 * DAY) (BENCH_START + KEY_TTL_SECONDS)"
  "fits BENCH_START" "fits (BENCH_START - 3600)" "fits (BENCH_START + 3 * DAY)"
  by (simp_all add: BENCH_START_def DAY_def KEY_TTL_SECONDS_def fits_def)

lemma new_stay_run:
  assumes "bench_app P sk used app" "db_ok (app_db app)" "clean gu" "clean su"
    and "lit ''g_'' @ take 8 gu \<notin> gu_guest_id ` set (guests (app_db app))"
    and "lit ''s_'' @ take 8 su \<notin> st_stay_id ` set (stays (app_db app))"
    and "king_room r \<in> set (rooms (app_db app))"
    and "room_free (app_db app) r (BENCH_START - 3600) (BENCH_START + 3 * DAY)"
  obtains s d where "new_stay gu su r app = (Inr (st_stay_id s), app\<lparr>app_db := d\<rparr>)"
    "arrived s r (app_db app) d" "st_stay_id s = lit ''s_'' @ take 8 su"
    "st_guest_id s = lit ''g_'' @ take 8 gu" "st_property_id s = DEMO_PROPERTY_ID"
    "st_check_in s = BENCH_START - 3600" "st_check_out s = BENCH_START + 3 * DAY"
proof -
  let ?gid = "lit ''g_'' @ take 8 gu" and ?sid = "lit ''s_'' @ take 8 su"
  let ?i = "BENCH_START - 3600" and ?out = "BENCH_START + 3 * DAY"
  let ?s = "arrival ?sid ?gid DEMO_PROPERTY_ID (lit ''king'') ?i ?out\<lparr>st_room_id := Some r, st_status := CHECKED_IN\<rparr>"
  have texts: "\<forall>x \<in> {?gid, lit ''Guest'', lit ''g@example.com'', ?sid, DEMO_PROPERTY_ID, lit ''king''}. clean x"
    using clean_drawn_id [OF assms(3)] clean_drawn_id [OF assms(4)] by simp
  have room: "list_ex (\<lambda>ro. ro_room_id ro = r \<and> ro_property_id ro = DEMO_PROPERTY_ID) (rooms (app_db app))"
    using assms(7) by (force simp: list_ex_iff)
  obtain d where d: "arrived ?s r (app_db app) d"
    "\<And>k :: (db, pystr) exec. thenE (add_guest ?gid (lit ''Guest'') (lit ''g@example.com''))
       (thenE (add_stay ?sid ?gid DEMO_PROPERTY_ID (lit ''king'') ?i ?out)
       (thenE (assign_room ?sid (Some r)) (thenE (set_stay_status ?sid CHECKED_IN) k))) (app_db app) = k d"
    using stay_arrives [OF assms(2,5,6) texts bench_window(3,4) room assms(8)] by blast
  have "arriving_stay gu su DEMO_PROPERTY_ID r (lit ''king'') ?i ?out (app_db app) = (Inr ?sid, d)"
    by (simp add: arriving_stay_def Let_def d(2))
  then have "new_stay gu su r app = (Inr ?sid, app\<lparr>app_db := d\<rparr>)"
    unfolding new_stay_def bench_appD(1) [OF assms(1)] by (rule with_db_run)
  then show ?thesis by (intro that [of ?s d]) (use d(1) in simp_all)
qed

text \<open>A stay of the bench with its key, and what the locks say to it.\<close>

definition bench_stay_row :: "stay_row \<Rightarrow> int \<Rightarrow> bool" where
  "bench_stay_row s r \<longleftrightarrow>
     st_property_id s = DEMO_PROPERTY_ID \<and> st_room_id s = Some r \<and> st_status s = CHECKED_IN \<and>
     st_check_in s = BENCH_START - 3600 \<and> st_check_out s = BENCH_START + 3 * DAY"

definition bench_key :: "('sk, 'pk) platform \<Rightarrow> 'sk \<Rightarrow> 'sk fresh \<Rightarrow> stay_row \<Rightarrow> int \<Rightarrow> IssuedKey \<Rightarrow> bool" where
  "bench_key P sk f s r ik \<longleftrightarrow>
     bench_stay_row s r \<and> issue_credential P f sk (stay_args f s r BENCH_START) = Inr ik \<and>
     args_ok f (stay_args f s r BENCH_START) \<and> ik_key_id ik = fresh_uuid f"

definition bench_until :: time where
  "bench_until = min (BENCH_START + 3 * DAY) (BENCH_START + KEY_TTL_SECONDS)"

lemma bench_until_late: "BENCH_START - 3600 < bench_until" "BENCH_START \<le> bench_until"
  by (simp_all add: bench_until_def DAY_def KEY_TTL_SECONDS_def)

lemma bench_issue_run:
  assumes "bench_app P sk used app" "db_ok (app_db app)" "s \<in> set (stays (app_db app))" "bench_stay_row s r"
    and "fresh_ok f" "fresh_uuid f \<notin> ke_key_id ` set (keys (app_db app))"
  obtains ik where "bench_issue P f (st_stay_id s) app = (Inr ik, app\<lparr>app_db := keyed ik s r BENCH_START (app_db app)\<rparr>)"
    "bench_key P sk f s r ik" "db_ok (keyed ik s r BENCH_START (app_db app))"
proof -
  have s: "st_room_id s = Some r" "st_check_in s < min (st_check_out s) (BENCH_START + KEY_TTL_SECONDS)"
    using assms(4) by (simp_all add: bench_stay_row_def DAY_def KEY_TTL_SECONDS_def)
  obtain ik where ik: "issue_credential P f sk (stay_args f s r BENCH_START) = Inr ik"
    "issue_for_stay P f sk (st_stay_id s) BENCH_START (app_db app) = (Inr ik, keyed ik s r BENCH_START (app_db app))"
    "args_ok f (stay_args f s r BENCH_START)" "ik_key_id ik = fresh_uuid f"
    "db_ok (keyed ik s r BENCH_START (app_db app))"
    by (rule stay_key_issued [OF assms(2,3) s(1) bench_window(2) assms(5) s(2) assms(6)])
  show ?thesis
    by (rule that [OF _ _ ik(5)])
      (use ik assms(4) in \<open>simp_all add: bench_issue_def bench_appD(2) [OF assms(1)] with_db_run bench_key_def\<close>)
qed

definition bench_verdict :: "int \<Rightarrow> int \<Rightarrow> time \<Rightarrow> bool \<Rightarrow> DenyReason option" where
  "bench_verdict r room t revoked =
     (if r \<noteq> room then Some WRONG_ROOM
      else if t < BENCH_START - 3600 then Some NOT_YET_VALID
      else if t > bench_until then Some EXPIRED
      else if revoked then Some REVOKED else None)"

lemma bench_key_unlock:
  assumes "ed25519 P" "bench_app P sk used app" "own_rooms (app_db app)" "fits r" "c \<notin> used"
    and "bench_key P sk f s room ik"
  obtains app' where "bench_unlock P c r ik t app = (Inr (verdict (fresh_uuid f)
      (bench_verdict r room t (fresh_uuid f \<in> revoked_ids (app_db app)))), app')"
    "bench_app P sk (insert c used) app'" "app_db app' = app_db app"
proof -
  note ik = assms(6) [unfolded bench_key_def bench_stay_row_def]
  have "issued_decision (ik_key_id ik) (stay_args f s room BENCH_START) DEMO_PROPERTY_ID r t (revoked_ids (app_db app)) =
      bench_verdict r room t (fresh_uuid f \<in> revoked_ids (app_db app))"
    using ik by (simp add: stay_key_verdict bench_verdict_def bench_until_def)
  then show ?thesis
    using bench_unlock_run [OF assms(1-5), of f "stay_args f s room BENCH_START" ik t] ik that by auto
qed

lemma bench_key_window:
  assumes "bench_key P sk f s r ik"
  shows "payload_int ik ''valid_from'' = Inr (BENCH_START - 3600)" "payload_int ik ''valid_until'' = Inr bench_until"
  using assms payload_int_issued [of P f sk "stay_args f s r BENCH_START" ik]
  by (simp_all add: bench_key_def bench_stay_row_def bench_until_def)

text \<open>A room without active rows is free.\<close>

lemma room_free_empty: "active_rows d = {} \<Longrightarrow> room_free d r i out"
  by (auto simp: room_free_def active_rows_def list_ex_iff)

lemma arrivedD:
  assumes "arrived s r d d'"
  shows "db_ok d'" "s \<in> set (stays d')" "st_room_id s = Some r" "st_status s = CHECKED_IN"
    "rooms d' = rooms d" "keys d' = keys d" "revocations d' = revocations d" "revoked_ids d' = revoked_ids d"
    "st_stay_id ` set (stays d') = insert (st_stay_id s) (st_stay_id ` set (stays d))"
    "gu_guest_id ` set (guests d') = insert (st_guest_id s) (gu_guest_id ` set (guests d))"
    "set (stays d) \<subseteq> set (stays d')"
  using assms by (simp_all add: arrived_def revoked_ids_def)

lemma arrived_row:
  assumes "arrived s r d d'"
  obtains n where "active_rows d' = insert \<lparr>as_id = n, as_room_id = r, as_stay_id = st_stay_id s,
    as_check_in = st_check_in s, as_check_out = st_check_out s, as_active = True\<rparr> (active_rows d)"
  using assms by (auto simp: arrived_def)

lemma active_keys_arrived: "arrived s r d d' \<Longrightarrow> active_keys i d' = active_keys i d"
  by (simp add: arrived_def active_keys_def)

lemma active_keys_unknown: "db_ok d \<Longrightarrow> i \<notin> st_stay_id ` set (stays d) \<Longrightarrow> active_keys i d = []"
  by (auto simp: active_keys_def db_ok_defs filter_empty_conv)

lemma checked_out_ids [simp]:
  "st_stay_id ` set (stays (checked_out_db i now d)) = st_stay_id ` set (stays d)"
  "guests (checked_out_db i now d) = guests d" "rooms (checked_out_db i now d) = rooms d"
  "ke_key_id ` set (keys (checked_out_db i now d)) = ke_key_id ` set (keys d)"
proof -
  have "map st_stay_id (stays (checked_out_db i now d)) = map st_stay_id (stays d)"
    by (simp add: checked_out_db_def with_status_def update_where_def)
  then show "st_stay_id ` set (stays (checked_out_db i now d)) = st_stay_id ` set (stays d)"
    by (metis list.set_map)
qed (simp_all add: checked_out_db_def with_status_def)

text \<open>One presentation between two others.\<close>

definition at_bench ::
  "('sk, 'pk) platform \<Rightarrow> 'sk \<Rightarrow> bytes set \<Rightarrow> db \<Rightarrow> ('sk, 'pk) AppState \<Rightarrow> bool" where
  "at_bench P sk used d app \<longleftrightarrow> bench_app P sk used app \<and> app_db app = d"

lemma at_bench_unlock:
  assumes "ed25519 P" "at_bench P sk used d app" "own_rooms d" "fits r" "c \<notin> used"
    and "bench_key P sk f s room ik"
  obtains app' where "bench_unlock P c r ik t app =
      (Inr (verdict (fresh_uuid f) (bench_verdict r room t (fresh_uuid f \<in> revoked_ids d))), app')"
    "at_bench P sk (insert c used) d app'"
proof -
  have "bench_app P sk used app" "own_rooms (app_db app)" "app_db app = d"
    using assms(2,3) by (simp_all add: at_bench_def)
  from bench_key_unlock [OF assms(1) this(1,2) assms(4-6), of t] this(3) that
  show ?thesis by (auto simp: at_bench_def)
qed

lemma at_bench_db:
  "at_bench P sk used d app \<Longrightarrow> m d = (r, d') \<Longrightarrow>
     with_db m app = (r, app\<lparr>app_db := d'\<rparr>) \<and> at_bench P sk used d' (app\<lparr>app_db := d'\<rparr>)"
  by (simp add: at_bench_def with_db_run)

lemma at_bench_stay:
  assumes "at_bench P sk used d app" "db_ok d" "clean gu" "clean su"
    and "lit ''g_'' @ take 8 gu \<notin> gu_guest_id ` set (guests d)"
    and "lit ''s_'' @ take 8 su \<notin> st_stay_id ` set (stays d)"
    and "king_room r \<in> set (rooms d)" "active_rows d = {}"
  obtains s d' app' where "new_stay gu su r app = (Inr (st_stay_id s), app')" "at_bench P sk used d' app'"
    "arrived s r d d'" "bench_stay_row s r" "st_stay_id s = lit ''s_'' @ take 8 su"
    "st_guest_id s = lit ''g_'' @ take 8 gu"
proof -
  have app: "bench_app P sk used app" "app_db app = d" using assms(1) by (simp_all add: at_bench_def)
  obtain s d' where s: "new_stay gu su r app = (Inr (st_stay_id s), app\<lparr>app_db := d'\<rparr>)" "arrived s r d d'"
    "st_stay_id s = lit ''s_'' @ take 8 su" "st_guest_id s = lit ''g_'' @ take 8 gu"
    "st_property_id s = DEMO_PROPERTY_ID" "st_check_in s = BENCH_START - 3600"
    "st_check_out s = BENCH_START + 3 * DAY"
    using new_stay_run [OF app(1), of gu su r] assms(2-7) room_free_empty [OF assms(8)] app(2) by metis
  show ?thesis
    by (rule that [OF s(1) _ s(2) _ s(3,4)])
      (use s app arrivedD [OF s(2)] in \<open>simp_all add: at_bench_def bench_stay_row_def\<close>)
qed

lemma at_bench_issue:
  assumes "at_bench P sk used d app" "db_ok d" "s \<in> set (stays d)" "bench_stay_row s r"
    and "fresh_ok f" "fresh_uuid f \<notin> ke_key_id ` set (keys d)"
  obtains ik app' where "bench_issue P f (st_stay_id s) app = (Inr ik, app')"
    "at_bench P sk used (keyed ik s r BENCH_START d) app'" "bench_key P sk f s r ik"
    "db_ok (keyed ik s r BENCH_START d)"
proof -
  have app: "bench_app P sk used app" "app_db app = d" using assms(1) by (simp_all add: at_bench_def)
  obtain ik where ik: "bench_issue P f (st_stay_id s) app = (Inr ik, app\<lparr>app_db := keyed ik s r BENCH_START d\<rparr>)"
    "bench_key P sk f s r ik" "db_ok (keyed ik s r BENCH_START d)"
    using bench_issue_run [OF app(1), of s r f] assms(2-6) app(2) by metis
  show ?thesis by (rule that [OF ik(1) _ ik(2,3)]) (use app(1) in \<open>simp add: at_bench_def\<close>)
qed

lemma own_rooms_cong: "rooms d = rooms d' \<Longrightarrow> own_rooms d = own_rooms d'"
  by (simp add: own_rooms_def)

section \<open>Two king rooms\<close>

lemma add_kings:
  assumes "at_bench P sk {} init_db app"
  obtains app' where "for_each add_king [101, 102] app = (Inr (), app')"
    "at_bench P sk {} (init_db\<lparr>rooms := [king_room 101, king_room 102]\<rparr>) app'"
proof -
  let ?d1 = "init_db\<lparr>rooms := [king_room 101]\<rparr>"
  have app: "bench_app P sk {} app" "app_db app = init_db" using assms by (simp_all add: at_bench_def)
  have one: "add_king 101 app = (Inr (), app\<lparr>app_db := ?d1\<rparr>)"
    using add_king_run [OF app(1), of 101] app(2) by (simp add: fits_def init_db_def)
  have app1: "bench_app P sk {} (app\<lparr>app_db := ?d1\<rparr>)" using app(1) by simp
  have two: "add_king 102 (app\<lparr>app_db := ?d1\<rparr>) =
      (Inr (), app\<lparr>app_db := init_db\<lparr>rooms := [king_room 101, king_room 102]\<rparr>\<rparr>)"
    using add_king_run [OF app1, of 102] by (simp add: fits_def init_db_def)
  show ?thesis
    by (rule that [of "app\<lparr>app_db := init_db\<lparr>rooms := [king_room 101, king_room 102]\<rparr>\<rparr>"])
      (use one two app(1) in \<open>simp_all add: at_bench_def\<close>)
qed

lemma kings_ok: "db_ok (init_db\<lparr>rooms := [king_room 101, king_room 102]\<rparr>)"
  by (simp add: db_ok_defs init_db_def fits_def)

text \<open>Checkout through the application.\<close>

lemma bench_checkout:
  assumes "at_bench P sk used d app" "db_ok d" "s \<in> set (stays d)"
  shows "with_db (checkout (st_stay_id s) BENCH_START) app =
      (Inr (active_keys (st_stay_id s) d), app\<lparr>app_db := checked_out_db (st_stay_id s) BENCH_START d\<rparr>)"
    "at_bench P sk used (checked_out_db (st_stay_id s) BENCH_START d)
       (app\<lparr>app_db := checked_out_db (st_stay_id s) BENCH_START d\<rparr>)"
    "db_ok (checked_out_db (st_stay_id s) BENCH_START d)"
proof -
  have out: "checkout (st_stay_id s) BENCH_START d =
      (Inr (active_keys (st_stay_id s) d), checked_out_db (st_stay_id s) BENCH_START d)"
    by (rule checkout_exec [OF assms(2)]) (use assms(3) in simp_all)
  show "with_db (checkout (st_stay_id s) BENCH_START) app =
      (Inr (active_keys (st_stay_id s) d), app\<lparr>app_db := checked_out_db (st_stay_id s) BENCH_START d\<rparr>)"
    "at_bench P sk used (checked_out_db (st_stay_id s) BENCH_START d)
       (app\<lparr>app_db := checked_out_db (st_stay_id s) BENCH_START d\<rparr>)"
    using at_bench_db [OF assms(1), of "checkout (st_stay_id s) BENCH_START", OF out] by simp_all
  show "db_ok (checked_out_db (st_stay_id s) BENCH_START d)" by (rule keepsD [OF keeps_checkout_db assms(2) out])
qed

end
