(* ===== verification/Lifecycle_Bench_Properties.thy ===== *)
theory Lifecycle_Bench_Properties
  imports Bench_Facts
begin

text \<open>
  The life-cycle bench as a theorem: every run of it passes all nine of its checks.
\<close>

text \<open>What the bench's ids, keys and nonces have in common with the random draws they are.\<close>

definition lifecycle_draws :: "(nat \<Rightarrow> pystr) \<Rightarrow> (nat \<Rightarrow> 'sk fresh) \<Rightarrow> (nat \<Rightarrow> bytes) \<Rightarrow> bool" where
  "lifecycle_draws uuid f nonce \<longleftrightarrow>
     (\<forall>i. clean (uuid i) \<and> fresh_ok (f i)) \<and>
     distinct [fresh_uuid (f 0), fresh_uuid (f 1), fresh_uuid (f 2)] \<and>
     take 8 (uuid 0) \<noteq> take 8 (uuid 2) \<and> take 8 (uuid 1) \<noteq> take 8 (uuid 3) \<and> inj nonce"

section \<open>The two halves of the run\<close>

definition passed :: "string list \<Rightarrow> (pystr \<times> bool) list" where
  "passed names = map (\<lambda>n. (lit n, True)) names"

text \<open>A guest arrives in room 101 and gets a key: what the bench knows of the store then.\<close>

lemma keyed_guest:
  assumes "at_bench P sk used d app" "db_ok d" "clean gu" "clean su" "fresh_ok f"
    and "lit ''g_'' @ take 8 gu \<notin> gu_guest_id ` set (guests d)"
    and "lit ''s_'' @ take 8 su \<notin> st_stay_id ` set (stays d)"
    and "fresh_uuid f \<notin> ke_key_id ` set (keys d)"
    and "king_room 101 \<in> set (rooms d)" "active_rows d = {}" "own_rooms d"
  obtains s ik d1 app1 app2 where
    "new_stay gu su 101 app = (Inr (st_stay_id s), app1)" "bench_issue P f (st_stay_id s) app1 = (Inr ik, app2)"
    "at_bench P sk used (keyed ik s 101 BENCH_START d1) app2" "db_ok (keyed ik s 101 BENCH_START d1)"
    "bench_key P sk f s 101 ik" "arrived s 101 d d1" "bench_stay_row s 101"
    "st_stay_id s = lit ''s_'' @ take 8 su" "st_guest_id s = lit ''g_'' @ take 8 gu"
    "own_rooms (keyed ik s 101 BENCH_START d1)" "revoked_ids (keyed ik s 101 BENCH_START d1) = revoked_ids d"
    "active_keys (st_stay_id s) (keyed ik s 101 BENCH_START d1) = [fresh_uuid f]"
    "active_rows (retire (st_stay_id s) (keyed ik s 101 BENCH_START d1)) = {}"
proof -
  obtain s d1 app1 where s: "new_stay gu su 101 app = (Inr (st_stay_id s), app1)" "at_bench P sk used d1 app1"
    "arrived s 101 d d1" "bench_stay_row s 101" "st_stay_id s = lit ''s_'' @ take 8 su"
    "st_guest_id s = lit ''g_'' @ take 8 gu"
    using at_bench_stay [OF assms(1-4,6,7,9,10)] by metis
  note d1 = arrivedD [OF s(3)]
  obtain ik app2 where ik: "bench_issue P f (st_stay_id s) app1 = (Inr ik, app2)"
    "at_bench P sk used (keyed ik s 101 BENCH_START d1) app2" "bench_key P sk f s 101 ik"
    "db_ok (keyed ik s 101 BENCH_START d1)"
    by (rule at_bench_issue [OF s(2) d1(1,2) s(4) assms(5)]) (use d1(6) assms(8) in auto)
  let ?d2 = "keyed ik s 101 BENCH_START d1"
  have "ik_key_id ik = fresh_uuid f" using ik(3) by (simp add: bench_key_def)
  then have "active_keys (st_stay_id s) ?d2 = [fresh_uuid f]"
    using active_keys_arrived [OF s(3)] active_keys_unknown [OF assms(2)] assms(7) s(5) by simp
  moreover obtain n where "active_rows d1 = {\<lparr>as_id = n, as_room_id = 101, as_stay_id = st_stay_id s,
      as_check_in = st_check_in s, as_check_out = st_check_out s, as_active = True\<rparr>}"
    using assms(10) by (rule_tac arrived_row [OF s(3)]) simp
  then have "active_rows (retire (st_stay_id s) ?d2) = {}" by (simp add: ledger.release_drops)
  moreover have "own_rooms ?d2" using assms(11) own_rooms_cong [of ?d2 d] d1(5) by simp
  moreover have "revoked_ids ?d2 = revoked_ids d" using d1(8) by simp
  ultimately show ?thesis using that [OF s(1) ik(1,2,4,3) s(3-6)] by blast
qed

text \<open>A room change to 102, through the application.\<close>

lemma bench_room_change:
  assumes "at_bench P sk used d app" "db_ok d" "s \<in> set (stays d)" "bench_stay_row s 101"
    and "st_status s = CHECKED_IN" "fresh_ok f" "fresh_uuid f \<notin> ke_key_id ` set (keys d)"
    and "active_rows (retire (st_stay_id s) d) = {}" "king_room 102 \<in> set (rooms d)"
  obtains ik d' where "with_db (lifecycle_change_room P f (app_property_sk app) (st_stay_id s) BENCH_START (Some 102)) app =
      (Inr (102, active_keys (st_stay_id s) d, ik), app\<lparr>app_db := d'\<rparr>)"
    "at_bench P sk used d' (app\<lparr>app_db := d'\<rparr>)" "bench_key P sk f (s\<lparr>st_room_id := Some 102\<rparr>) 102 ik"
    "rooms d' = rooms d" "revoked_ids d' = revoked_ids d \<union> set (active_keys (st_stay_id s) d)"
proof -
  have room: "fits 102" by (simp add: fits_def)
  have "eligible d s (Some 102) 102"
    using assms(4,9) by (force simp: eligible_def list_ex_iff bench_stay_row_def)
  then have choice: "room_choice (retire (st_stay_id s) d) s (Some 102) (other_rooms d s) = Inr 102"
    using room assms(8) by (simp add: room_choice_Some room_free_empty eligible_def)
  have status: "st_status s \<noteq> CHECKED_OUT" using assms(5) by (simp add: CHECKED_IN_def CHECKED_OUT_def lit_def)
  have window: "st_check_in s < min (st_check_out s) (BENCH_START + KEY_TTL_SECONDS)"
    using assms(4) by (simp add: bench_stay_row_def DAY_def KEY_TTL_SECONDS_def)
  obtain ik d' where change: "lifecycle_change_room P f sk (st_stay_id s) BENCH_START (Some 102) d =
      (Inr (102, active_keys (st_stay_id s) d, ik), d')"
    "issue_credential P f sk (stay_args f (s\<lparr>st_room_id := Some 102\<rparr>) 102 BENCH_START) = Inr ik"
    "args_ok f (stay_args f (s\<lparr>st_room_id := Some 102\<rparr>) 102 BENCH_START)"
    "ik_key_id ik = fresh_uuid f" "rooms d' = rooms d"
    "revoked_ids d' = revoked_ids d \<union> set (active_keys (st_stay_id s) d)"
    by (rule room_change_run [OF assms(2,3) status bench_window(2) assms(6) choice window assms(7)])
  have key: "bench_key P sk f (s\<lparr>st_room_id := Some 102\<rparr>) 102 ik"
    using change(2-4) assms(4) by (simp add: bench_key_def bench_stay_row_def)
  have sk: "app_property_sk app = sk" by (rule bench_appD(2) [OF conjunct1 [OF assms(1) [unfolded at_bench_def]]])
  note db = at_bench_db [OF assms(1), of "lifecycle_change_room P f sk (st_stay_id s) BENCH_START (Some 102)", OF change(1)]
  show ?thesis by (rule that [OF _ _ key change(5,6)]) (use db in \<open>simp_all add: sk\<close>)
qed

text \<open>The store after the first stay: nobody is left, and the one key of it is revoked.\<close>

lemma first_stay_run:
  assumes "ed25519 P" "lifecycle_draws uuid f nonce" "at_bench P sk {} d app" "db_ok d"
    and "guests d = []" "stays d = []" "keys d = []" "revocations d = []" "assignments d = []"
    and "own_rooms d" "king_room 101 \<in> set (rooms d)"
  obtains d' app' where "first_stay_checks P uuid f nonce app = (Inr (passed [''issued_key_unlocks_in_window'', ''before_checkin_denied'',
      ''after_checkout_window_denied'', ''revoked_after_checkout_denied'']), app')"
    "at_bench P sk (nonce ` {0, 1, 2, 3}) d' app'" "db_ok d'"
    "rooms d' = rooms d" "active_rows d' = {}" "ke_key_id ` set (keys d') = {fresh_uuid (f 0)}"
    "gu_guest_id ` set (guests d') = {lit ''g_'' @ take 8 (uuid 0)}"
    "st_stay_id ` set (stays d') = {lit ''s_'' @ take 8 (uuid 1)}"
    "revoked_ids d' = {fresh_uuid (f 0)}"
proof -
  have draws: "clean (uuid i)" "fresh_ok (f i)" "inj nonce" for i
    using assms(2) by (simp_all add: lifecycle_draws_def)
  have nonce: "nonce i = nonce j \<longleftrightarrow> i = j" for i j using draws(3) by (auto dest: injD)
  have none: "active_rows d = {}" "revoked_ids d = {}" using assms(8,9) by (simp_all add: active_rows_def revoked_ids_def)
  obtain s ik d1 app1 app2 where g: "new_stay (uuid 0) (uuid 1) 101 app = (Inr (st_stay_id s), app1)"
    "bench_issue P (f 0) (st_stay_id s) app1 = (Inr ik, app2)"
    "at_bench P sk {} (keyed ik s 101 BENCH_START d1) app2" "db_ok (keyed ik s 101 BENCH_START d1)"
    "bench_key P sk (f 0) s 101 ik" "arrived s 101 d d1"
    "st_stay_id s = lit ''s_'' @ take 8 (uuid 1)" "st_guest_id s = lit ''g_'' @ take 8 (uuid 0)"
    "own_rooms (keyed ik s 101 BENCH_START d1)" "revoked_ids (keyed ik s 101 BENCH_START d1) = {}"
    "active_keys (st_stay_id s) (keyed ik s 101 BENCH_START d1) = [fresh_uuid (f 0)]"
    "active_rows (retire (st_stay_id s) (keyed ik s 101 BENCH_START d1)) = {}"
    by (rule keyed_guest [OF assms(3,4) draws(1) draws(1) draws(2) _ _ _ assms(11) none(1) assms(10), of 0 1 0])
      (simp_all add: assms(5-7) none(2))
  let ?d2 = "keyed ik s 101 BENCH_START d1"
  have room: "fits 101" by (simp add: fits_def)
  note d1 = arrivedD [OF g(6)] and unlock = at_bench_unlock [OF assms(1) _ g(9) room _ g(5)]
  obtain app3 where u0: "bench_unlock P (nonce 0) 101 ik BENCH_START app2 = (Inr (verdict (fresh_uuid (f 0))
      (bench_verdict 101 101 BENCH_START (fresh_uuid (f 0) \<in> revoked_ids ?d2))), app3)"
    "at_bench P sk {nonce 0} ?d2 app3"
    using unlock [OF g(3), of "nonce 0" BENCH_START] by auto
  obtain app4 where u1: "bench_unlock P (nonce 1) 101 ik (BENCH_START - 3600 - 1) app3 =
      (Inr (verdict (fresh_uuid (f 0)) (bench_verdict 101 101 (BENCH_START - 3600 - 1)
        (fresh_uuid (f 0) \<in> revoked_ids ?d2))), app4)"
    "at_bench P sk {nonce 1, nonce 0} ?d2 app4"
    using unlock [OF u0(2), of "nonce 1" "BENCH_START - 3600 - 1"] by (auto simp: nonce)
  obtain app5 where u2: "bench_unlock P (nonce 2) 101 ik (bench_until + 1) app4 =
      (Inr (verdict (fresh_uuid (f 0)) (bench_verdict 101 101 (bench_until + 1)
        (fresh_uuid (f 0) \<in> revoked_ids ?d2))), app5)"
    "at_bench P sk {nonce 2, nonce 1, nonce 0} ?d2 app5"
    using unlock [OF u1(2), of "nonce 2" "bench_until + 1"] by (auto simp: nonce)
  let ?d3 = "checked_out_db (st_stay_id s) BENCH_START ?d2"
  have in2: "s \<in> set (stays ?d2)" using d1(2) by simp
  note out = bench_checkout [OF u2(2) g(4) in2]
  have revoked: "revoked_ids ?d3 = {fresh_uuid (f 0)}" using g(10,11) by simp
  have own3: "own_rooms ?d3" using g(9) own_rooms_cong [of ?d3 ?d2] by simp
  obtain app7 where u3: "bench_unlock P (nonce 3) 101 ik BENCH_START (app5\<lparr>app_db := ?d3\<rparr>) =
      (Inr (verdict (fresh_uuid (f 0)) (bench_verdict 101 101 BENCH_START
        (fresh_uuid (f 0) \<in> revoked_ids ?d3))), app7)"
    "at_bench P sk {nonce 3, nonce 2, nonce 1, nonce 0} ?d3 app7"
    using at_bench_unlock [OF assms(1) out(2) own3 room _ g(5), of "nonce 3" BENCH_START]
    by (auto simp: nonce)
  show ?thesis
  proof (rule that)
    show "first_stay_checks P uuid f nonce app = (Inr (passed [''issued_key_unlocks_in_window'', ''before_checkin_denied'',
      ''after_checkout_window_denied'', ''revoked_after_checkout_denied'']), app7)"
      unfolding first_stay_checks_def
      apply (rule bindE_to, rule g(1), rule bindE_to, rule g(2), rule bindE_to, rule u0(1))
      apply (rule bindE_to, rule lift_result_Inr [OF bench_key_window(1) [OF g(5)]], rule bindE_to, rule u1(1))
      apply (rule bindE_to, rule lift_result_Inr [OF bench_key_window(2) [OF g(5)]], rule bindE_to, rule u2(1))
      apply (rule thenE_to, rule out(1), rule bindE_to, rule u3(1))
      using bench_until_late g(10) revoked by (simp add: bench_verdict_def reason_value_def passed_def)
    show "at_bench P sk (nonce ` {0, 1, 2, 3}) ?d3 app7" using u3(2) by (simp add: insert_commute)
    show "db_ok ?d3" by (rule out(3))
    show "active_rows ?d3 = {}" using g(12) by (auto simp: ledger.release_drops)
    show "ke_key_id ` set (keys ?d3) = {fresh_uuid (f 0)}" using g(5) d1(6) assms(7) by (simp add: bench_key_def)
  qed (use d1 assms g(7,8) revoked in simp_all)
qed

lemma second_stay_run:
  assumes "ed25519 P" "lifecycle_draws uuid f nonce" "at_bench P sk (nonce ` {0, 1, 2, 3}) d app" "db_ok d"
    and "active_rows d = {}" "ke_key_id ` set (keys d) = {fresh_uuid (f 0)}"
    and "gu_guest_id ` set (guests d) = {lit ''g_'' @ take 8 (uuid 0)}"
    and "st_stay_id ` set (stays d) = {lit ''s_'' @ take 8 (uuid 1)}" "revoked_ids d = {fresh_uuid (f 0)}"
    and "own_rooms d" "king_room 101 \<in> set (rooms d)" "king_room 102 \<in> set (rooms d)"
  obtains app' where "second_stay_checks P uuid f nonce app = (Inr (passed [''pre_change_old_key_unlocks'', ''room_changed_to_expected'',
      ''old_key_denied_after_change'', ''new_key_unlocks_new_room'', ''new_key_wrong_room_denied'']), app')"
proof -
  have draws: "clean (uuid i)" "fresh_ok (f i)" "inj nonce" for i
    using assms(2) by (simp_all add: lifecycle_draws_def)
  have fresh: "fresh_uuid (f 1) \<noteq> fresh_uuid (f 0)" "fresh_uuid (f 2) \<noteq> fresh_uuid (f 0)"
    "fresh_uuid (f 2) \<noteq> fresh_uuid (f 1)"
    using assms(2) by (auto simp: lifecycle_draws_def)
  have nonce: "nonce i = nonce j \<longleftrightarrow> i = j" for i j using draws(3) by (auto dest: injD)
  have new: "lit ''g_'' @ take 8 (uuid 2) \<notin> gu_guest_id ` set (guests d)"
    "lit ''s_'' @ take 8 (uuid 3) \<notin> st_stay_id ` set (stays d)"
    unfolding assms(7,8) using assms(2) by (auto simp: lifecycle_draws_def)
  have unused1: "fresh_uuid (f 1) \<notin> ke_key_id ` set (keys d)" using assms(6) fresh(1) by simp
  obtain s ik d1 app1 app2 where g: "new_stay (uuid 2) (uuid 3) 101 app = (Inr (st_stay_id s), app1)"
    "bench_issue P (f 1) (st_stay_id s) app1 = (Inr ik, app2)"
    "at_bench P sk (nonce ` {0, 1, 2, 3}) (keyed ik s 101 BENCH_START d1) app2" "db_ok (keyed ik s 101 BENCH_START d1)"
    "bench_key P sk (f 1) s 101 ik" "arrived s 101 d d1" "bench_stay_row s 101"
    "own_rooms (keyed ik s 101 BENCH_START d1)" "revoked_ids (keyed ik s 101 BENCH_START d1) = {fresh_uuid (f 0)}"
    "active_keys (st_stay_id s) (keyed ik s 101 BENCH_START d1) = [fresh_uuid (f 1)]"
    "active_rows (retire (st_stay_id s) (keyed ik s 101 BENCH_START d1)) = {}"
    by (rule keyed_guest [OF assms(3,4) draws(1) draws(1) draws(2) new unused1 assms(11,5,10)], rule that)
      (assumption | simp add: assms(9))+
  let ?d2 = "keyed ik s 101 BENCH_START d1" and ?used = "insert (nonce 4) (nonce ` {0, 1, 2, 3})"
  note d1 = arrivedD [OF g(6)]
  have room: "fits 101" "fits 102" by (simp_all add: fits_def)
  obtain app3 where u0: "bench_unlock P (nonce 4) 101 ik BENCH_START app2 = (Inr (verdict (fresh_uuid (f 1))
      (bench_verdict 101 101 BENCH_START (fresh_uuid (f 1) \<in> revoked_ids ?d2))), app3)"
    "at_bench P sk ?used ?d2 app3"
    using at_bench_unlock [OF assms(1) g(3,8) room(1) _ g(5), of "nonce 4" BENCH_START] by (auto simp: nonce)
  have unused: "fresh_uuid (f 2) \<notin> ke_key_id ` set (keys ?d2)"
    using d1(6) assms(6) g(5) fresh by (simp add: bench_key_def)
  have in2: "s \<in> set (stays ?d2)" and king: "king_room 102 \<in> set (rooms ?d2)" using d1(2,5) assms(12) by simp_all
  obtain ik' d3 where change: "with_db (lifecycle_change_room P (f 2) (app_property_sk app3) (st_stay_id s) BENCH_START (Some 102)) app3 =
      (Inr (102, active_keys (st_stay_id s) ?d2, ik'), app3\<lparr>app_db := d3\<rparr>)"
    "at_bench P sk ?used d3 (app3\<lparr>app_db := d3\<rparr>)" "bench_key P sk (f 2) (s\<lparr>st_room_id := Some 102\<rparr>) 102 ik'"
    "rooms d3 = rooms ?d2" "revoked_ids d3 = revoked_ids ?d2 \<union> set (active_keys (st_stay_id s) ?d2)"
    by (rule bench_room_change [OF u0(2) g(4) in2 g(7) d1(4) draws(2) unused g(11) king])
  have revoked3: "revoked_ids d3 = {fresh_uuid (f 0), fresh_uuid (f 1)}" using change(5) g(9,10) by auto
  have own3: "own_rooms d3" using g(8) own_rooms_cong [OF change(4)] by simp
  obtain app5 where u1: "bench_unlock P (nonce 5) 101 ik BENCH_START (app3\<lparr>app_db := d3\<rparr>) =
      (Inr (verdict (fresh_uuid (f 1)) (bench_verdict 101 101 BENCH_START (fresh_uuid (f 1) \<in> revoked_ids d3))), app5)"
    "at_bench P sk (insert (nonce 5) ?used) d3 app5"
    using at_bench_unlock [OF assms(1) change(2) own3 room(1) _ g(5), of "nonce 5" BENCH_START]
    by (auto simp: nonce)
  obtain app6 where u2: "bench_unlock P (nonce 6) 102 ik' BENCH_START app5 =
      (Inr (verdict (fresh_uuid (f 2)) (bench_verdict 102 102 BENCH_START (fresh_uuid (f 2) \<in> revoked_ids d3))), app6)"
    "at_bench P sk (insert (nonce 6) (insert (nonce 5) ?used)) d3 app6"
    using at_bench_unlock [OF assms(1) u1(2) own3 room(2) _ change(3), of "nonce 6" BENCH_START]
    by (auto simp: nonce)
  obtain app7 where u3: "bench_unlock P (nonce 7) 101 ik' BENCH_START app6 =
      (Inr (verdict (fresh_uuid (f 2)) (bench_verdict 101 102 BENCH_START (fresh_uuid (f 2) \<in> revoked_ids d3))), app7)"
    using at_bench_unlock [OF assms(1) u2(2) own3 room(1) _ change(3), of "nonce 7" BENCH_START]
    by (auto simp: nonce)
  show ?thesis
  proof (rule that)
    show "second_stay_checks P uuid f nonce app = (Inr (passed [''pre_change_old_key_unlocks'', ''room_changed_to_expected'',
      ''old_key_denied_after_change'', ''new_key_unlocks_new_room'', ''new_key_wrong_room_denied'']), app7)"
      unfolding second_stay_checks_def
      apply (rule bindE_to, rule g(1), rule bindE_to, rule g(2), rule bindE_to, rule u0(1))
      apply (rule bindE_to, rule change(1), unfold case_prod_conv)
      apply (rule bindE_to, rule u1(1), rule bindE_to, rule u2(1), rule bindE_to, rule u3(1))
      using bench_until_late g(9) revoked3 fresh by (simp add: bench_verdict_def passed_def)
  qed
qed

section \<open>The run\<close>

text \<open>
  The life-cycle bench. Under a working signature scheme, whatever keys, ids and nonces
  are drawn, the bench runs through and all nine of its checks pass: a stay's key opens its
  door in its window and not outside of it, checkout revokes it within the window, and after
  a room change the old key is dead and the new one opens the new room only.
\<close>

theorem lifecycle_bench:
  assumes "ed25519 P" "lifecycle_draws uuid f nonce"
  shows "lifecycle_run P sk uuid f nonce = Inr \<lparr>lr_checks = map (\<lambda>n. (lit n, True))
      [''issued_key_unlocks_in_window'', ''before_checkin_denied'', ''after_checkout_window_denied'',
       ''revoked_after_checkout_denied'', ''pre_change_old_key_unlocks'', ''room_changed_to_expected'',
       ''old_key_denied_after_change'', ''new_key_unlocks_new_room'', ''new_key_wrong_room_denied''],
    all_correct = True\<rparr>"
proof -
  let ?d = "init_db\<lparr>rooms := [king_room 101, king_room 102]\<rparr>"
  obtain app where app: "new_app P DEMO_PROPERTY_ID sk init_db = Inr app" "at_bench P sk {} init_db app"
    using new_app_bench [OF assms(1)] by (metis at_bench_def)
  obtain app1 where app1: "for_each add_king [101, 102] app = (Inr (), app1)" "at_bench P sk {} ?d app1"
    by (rule add_kings [OF app(2)])
  have d: "guests ?d = []" "stays ?d = []" "keys ?d = []" "revocations ?d = []" "assignments ?d = []"
    "own_rooms ?d" "king_room 101 \<in> set (rooms ?d)" "king_room 102 \<in> set (rooms ?d)"
    by (simp_all add: init_db_def own_rooms_def)
  obtain d2 app2 where one: "first_stay_checks P uuid f nonce app1 = (Inr (passed
      [''issued_key_unlocks_in_window'', ''before_checkin_denied'', ''after_checkout_window_denied'',
       ''revoked_after_checkout_denied'']), app2)" "at_bench P sk (nonce ` {0, 1, 2, 3}) d2 app2" "db_ok d2"
    "rooms d2 = rooms ?d" "active_rows d2 = {}" "ke_key_id ` set (keys d2) = {fresh_uuid (f 0)}"
    "gu_guest_id ` set (guests d2) = {lit ''g_'' @ take 8 (uuid 0)}"
    "st_stay_id ` set (stays d2) = {lit ''s_'' @ take 8 (uuid 1)}" "revoked_ids d2 = {fresh_uuid (f 0)}"
    by (rule first_stay_run [OF assms app1(2) kings_ok d(1-7)])
  have own: "own_rooms d2" "king_room 101 \<in> set (rooms d2)" "king_room 102 \<in> set (rooms d2)"
    using own_rooms_cong [OF one(4)] one(4) d(6-8) by simp_all
  obtain app3 where two: "second_stay_checks P uuid f nonce app2 = (Inr (passed
      [''pre_change_old_key_unlocks'', ''room_changed_to_expected'', ''old_key_denied_after_change'',
       ''new_key_unlocks_new_room'', ''new_key_wrong_room_denied'']), app3)"
    by (rule second_stay_run [OF assms one(2,3,5,6,7,8,9) own])
  show ?thesis
    unfolding lifecycle_run_def app(1) sum.case
    by (subst thenE_to, rule app1(1), rule bindE_to, rule one(1), rule bindE_to, rule two,
        unfold Let_def, rule ret_simp) (simp add: passed_def)
qed

theorem lifecycle_bench_witness:
  "\<exists>rep. lifecycle_run sample_platform [1, 2] (\<lambda>i. [100 + i mod 10])
     (\<lambda>i. sample_fresh\<lparr>fresh_uuid := [100 + i mod 10]\<rparr>) (\<lambda>i. replicate i 0) = Inr rep \<and> all_correct rep"
proof -
  have "lifecycle_draws (\<lambda>i. [100 + i mod 10]) (\<lambda>i. sample_fresh\<lparr>fresh_uuid := [100 + i mod 10]\<rparr>)
      (\<lambda>i. replicate i 0)"
    by (auto simp: lifecycle_draws_def clean_def is_scalar_def is_high_surrogate_def is_low_surrogate_def
        fresh_ok_def text_ok_def sample_fresh_def clean_lits [unfolded clean_def]
        intro!: injI dest: arg_cong [where f = length])
  from lifecycle_bench [OF sample_ed25519 this, of "[1, 2]"] show ?thesis by simp
qed

end
