(* ===== verification/Scope_Bench.thy ===== *)
theory Scope_Bench
  imports Lifecycle_Bench Adversarial
begin

text \<open>
  \<open>bench/scope.py\<close>: three guests in three rooms fire room controls, their own and out of
  scope, at the authorizer. What is drawn is an argument: \<open>uuid\<close> and \<open>f\<close> for the ids
  and keys of the stays, and for the \<open>i\<close>-th control the nonce and the key an impostor
  generates.
\<close>

definition checked_in_stay ::
  "('sk, 'pk) platform \<Rightarrow> 'sk fresh \<Rightarrow> pystr \<Rightarrow> pystr \<Rightarrow> string \<Rightarrow> pystr \<Rightarrow> int \<Rightarrow>
     (('sk, 'pk) AppState, pystr \<times> IssuedKey) exec" where
  "checked_in_stay P f guest_uuid stay_uuid guest room_type room_id app =
     (let gid = lit ''g_'' @ take 8 guest_uuid; sid = lit ''s_'' @ take 8 stay_uuid
      in with_db
           (thenE (add_guest gid (lit guest) (lit guest @ lit ''@example.com''))
             (thenE (add_stay sid gid (app_property_id app) room_type (BENCH_START - 3600)
                       (BENCH_START + 3 * 24 * 3600))
               (thenE (assign_room sid (Some room_id))
                 (thenE (set_stay_status sid CHECKED_IN)
                   (bindE (issue_for_stay P f (app_property_sk app) sid BENCH_START)
                     (\<lambda>issued. ret (sid, issued))))))) app)"

definition scope_control ::
  "('sk, 'pk) platform \<Rightarrow> bytes \<times> 'sk \<Rightarrow> int \<Rightarrow> IssuedKey \<Rightarrow> pystr \<Rightarrow> bool \<Rightarrow>
     (('sk, 'pk) AppState, Decision) exec" where
  "scope_control P drawn room_id key command wrong_device =
     (case drawn of (challenge, generated) \<Rightarrow>
        thenE (modify (\<lambda>app. app\<lparr>app_connected := begin_command challenge BENCH_START (app_connected app)\<rparr>))
          (bindE (lift_result
                    (if wrong_device then Inr (sign P generated challenge)
                     else device_sign P (ik_device_sk_b64 key) challenge))
            (\<lambda>response app.
               case authorize P room_id command (ik_token key) challenge response BENCH_START
                      (app_connected app, app_db app) of
                 (r, cr, d) \<Rightarrow> (r, app\<lparr>app_connected := cr, app_db := d\<rparr>))))"

record scope_tally =
  legit_total :: nat
  legit_allowed :: nat
  cross_total :: nat
  cross_leaks :: nat
  reasons :: counter

definition tally_legit :: "Decision \<Rightarrow> scope_tally \<Rightarrow> scope_tally" where
  "tally_legit d t =
     t\<lparr>legit_total := legit_total t + 1,
       legit_allowed := (if allowed d then legit_allowed t + 1 else legit_allowed t)\<rparr>"

definition tally_cross :: "Decision \<Rightarrow> scope_tally \<Rightarrow> scope_tally" where
  "tally_cross d t0 =
     (let t = t0\<lparr>cross_total := cross_total t0 + 1\<rparr>
      in if allowed d then t\<lparr>cross_leaks := cross_leaks t + 1\<rparr>
         else
           (case reason d of
              None \<Rightarrow> t
            | Some r \<Rightarrow> t\<lparr>reasons := bump (reason_value r) (reasons t)\<rparr>))"

text \<open>One control of a loop: the room, the key, the command and whether the device is an impostor's.\<close>

type_synonym shot = "int \<times> IssuedKey \<times> pystr \<times> bool"

primrec fire ::
  "('sk, 'pk) platform \<Rightarrow> (nat \<Rightarrow> bytes \<times> 'sk) \<Rightarrow> (Decision \<Rightarrow> scope_tally \<Rightarrow> scope_tally) \<Rightarrow>
     nat \<Rightarrow> shot list \<Rightarrow> scope_tally \<Rightarrow> (('sk, 'pk) AppState, scope_tally) exec" where
  "fire P E tally i [] t = ret t"
| "fire P E tally i (s # shots) t =
     (case s of (room_id, key, command, wrong_device) \<Rightarrow>
        bindE (scope_control P (E i) room_id key command wrong_device)
          (\<lambda>d. fire P E tally (Suc i) shots (tally d t)))"

text \<open>The nested loops over a list of rooms with keys and over the commands.\<close>

definition shots :: "(int \<times> IssuedKey) list \<Rightarrow> bool \<Rightarrow> pystr list \<Rightarrow> shot list" where
  "shots targets wrong_device commands =
     concat (map (\<lambda>(room, key). map (\<lambda>cmd. (room, key, cmd, wrong_device)) commands) targets)"

record scope_report =
  legit_commands :: nat
  legit_accepted :: nat
  cross_scope_attempts :: nat
  cross_scope_leaks :: nat
  post_checkout_revoked :: "pystr list"
  scope_deny_reasons :: counter

definition scope_setup ::
  "('sk, 'pk) platform \<Rightarrow> (nat \<Rightarrow> pystr) \<Rightarrow> (nat \<Rightarrow> 'sk fresh) \<Rightarrow>
     (('sk, 'pk) AppState,
      (pystr \<times> IssuedKey) \<times> (pystr \<times> IssuedKey) \<times> (pystr \<times> IssuedKey)) exec" where
  "scope_setup P uuid f app =
     thenE
       (for_each (\<lambda>(rid, kind). with_db (add_room rid (app_property_id app) (dec_int rid) (lit kind)))
          [(101, ''king''), (102, ''king''), (103, ''queen'')])
       (bindE (checked_in_stay P (f 0) (uuid 0) (uuid 1) ''Ada'' (lit ''king'') 101) (\<lambda>A.
        bindE (checked_in_stay P (f 1) (uuid 2) (uuid 3) ''Ben'' (lit ''king'') 102) (\<lambda>B.
        bindE (checked_in_stay P (f 2) (uuid 4) (uuid 5) ''Cyd'' (lit ''queen'') 103) (\<lambda>C.
        ret (A, B, C))))) app"

definition cross_matrix :: "IssuedKey \<Rightarrow> IssuedKey \<Rightarrow> IssuedKey \<Rightarrow> (int \<times> IssuedKey) list" where
  "cross_matrix keyA keyB keyC =
     [(101, keyB), (101, keyC), (102, keyA), (102, keyC), (103, keyA), (103, keyB)]"

definition scope_attempts ::
  "('sk, 'pk) platform \<Rightarrow> (nat \<Rightarrow> bytes \<times> 'sk) \<Rightarrow>
     (pystr \<times> IssuedKey) \<times> (pystr \<times> IssuedKey) \<times> (pystr \<times> IssuedKey) \<Rightarrow>
     (('sk, 'pk) AppState, scope_report) exec" where
  "scope_attempts P E trio =
     (case trio of ((sidA, keyA), (sidB, keyB), (sidC, keyC)) \<Rightarrow>
        bindE (fire P E tally_legit 0
                 (shots [(101, keyA), (102, keyB), (103, keyC)] False ALLOWED_DEVICES)
                 \<lparr>legit_total = 0, legit_allowed = 0, cross_total = 0, cross_leaks = 0, reasons = []\<rparr>) (\<lambda>t1.
        bindE (fire P E tally_cross 9 (shots (cross_matrix keyA keyB keyC) False ALLOWED_DEVICES) t1) (\<lambda>t2.
        bindE (fire P E tally_cross 27 (shots [(101, keyA)] True ALLOWED_DEVICES) t2) (\<lambda>t3.
        bindE (fire P E tally_cross 30
                 (shots [(101, keyA)] False [lit ''open_safe'', lit ''disable_alarm'']) t3) (\<lambda>t4.
        bindE (with_db (checkout sidC BENCH_START)) (\<lambda>revoked.
        bindE (fire P E tally_cross 32 (shots [(103, keyC)] False ALLOWED_DEVICES) t4) (\<lambda>t.
        ret \<lparr>legit_commands = legit_total t, legit_accepted = legit_allowed t,
             cross_scope_attempts = cross_total t, cross_scope_leaks = cross_leaks t,
             post_checkout_revoked = revoked, scope_deny_reasons = reasons t\<rparr>)))))))"

definition scope_run ::
  "('sk, 'pk) platform \<Rightarrow> 'sk \<Rightarrow> (nat \<Rightarrow> pystr) \<Rightarrow> (nat \<Rightarrow> 'sk fresh) \<Rightarrow> (nat \<Rightarrow> bytes \<times> 'sk) \<Rightarrow>
     exn + scope_report" where
  "scope_run P property_sk uuid f E =
     (case new_app P DEMO_PROPERTY_ID property_sk init_db of
        Inl e \<Rightarrow> Inl e
      | Inr app \<Rightarrow> fst (bindE (scope_setup P uuid f) (scope_attempts P E) app))"

end
