(* ===== verification/Scope_Facts.thy ===== *)
theory Scope_Facts
  imports Scope_Bench Bench_Facts Connected_Properties
begin

text \<open>
  What the room-control scenarios share: the authorizer's decision on a control by the key
  of a checked-in stay, in closed form.
\<close>

section \<open>The authorizer between two commands\<close>

lemma bench_authorizer:
  assumes "bench_app P sk used app"
  obtains issued accepted where "cr_property_id (app_connected app) = DEMO_PROPERTY_ID"
    "cr_property_pub (app_connected app) = public_key P sk"
    "ttl (cr_challenges (app_connected app)) = CHALLENGE_TTL_SECONDS" "set issued \<subseteq> used"
    "challenges.tracks (cr_challenges (app_connected app)) issued accepted"
  using assms by (auto simp: bench_app_def)

text \<open>The authorizer with another store, whose challenges are still the bench's.\<close>

lemma bench_app_challenges:
  assumes "bench_app P sk used app" "cr = (app_connected app)\<lparr>cr_challenges := st\<rparr>" "used \<subseteq> used'"
    and "ttl st = CHALLENGE_TTL_SECONDS" "challenges.tracks st issued accepted" "set issued \<subseteq> used'"
  shows "bench_app P sk used' (app\<lparr>app_connected := cr\<rparr>)"
  using bench_app_mono [OF assms(1,3)] assms(2,4-6) by (auto simp: bench_app_def)

lemma begin_command_bench:
  assumes "bench_app P sk used app" "c \<notin> used"
  shows "bench_app P sk (insert c used) (app\<lparr>app_connected := begin_command c t (app_connected app)\<rparr>)"
    and "check (cr_challenges (begin_command c t (app_connected app))) c t = OK"
proof -
  obtain issued acc where cr: "ttl (cr_challenges (app_connected app)) = CHALLENGE_TTL_SECONDS"
    "set issued \<subseteq> used" "challenges.tracks (cr_challenges (app_connected app)) issued acc"
    using bench_authorizer [OF assms(1)] by metis
  note begun = store_begin [OF cr(3,2) assms(2) cr(1), of t]
  show "check (cr_challenges (begin_command c t (app_connected app))) c t = OK"
    using begun(2) by (simp add: begin_command_def)
  have "set (c # issued) \<subseteq> insert c used" using cr(2) by auto
  then show "bench_app P sk (insert c used) (app\<lparr>app_connected := begin_command c t (app_connected app)\<rparr>)"
    by (intro bench_app_challenges [OF assms(1) _ subset_insertI _ begun(1)])
      (simp_all add: begin_command_def cr(1))
qed

lemma consume_command_bench:
  assumes "bench_app P sk used app" "check (cr_challenges (app_connected app)) c t = OK"
  shows "bench_app P sk used (app\<lparr>app_connected := (app_connected app)\<lparr>cr_challenges :=
    consume c t (cr_challenges (app_connected app))\<rparr>\<rparr>)"
proof -
  obtain issued acc where cr: "ttl (cr_challenges (app_connected app)) = CHALLENGE_TTL_SECONDS"
    "set issued \<subseteq> used" "challenges.tracks (cr_challenges (app_connected app)) issued acc"
    using bench_authorizer [OF assms(1)] by metis
  show ?thesis
    by (rule bench_app_challenges [OF assms(1) refl subset_refl _ challenges.tracks_accept [OF cr(3) assms(2)] cr(2)])
      (simp add: cr(1))
qed

section \<open>The decision on a control\<close>

definition in_room :: "db \<Rightarrow> stay_row \<Rightarrow> int \<Rightarrow> bool" where
  "in_room d s room \<longleftrightarrow>
     s \<in> set (stays d) \<and> (\<exists>a. latest_active d room = Some a \<and> as_stay_id a = st_stay_id s)"

definition scope_verdict :: "int \<Rightarrow> int \<Rightarrow> bool \<Rightarrow> pystr \<Rightarrow> bool \<Rightarrow> DenyReason option" where
  "scope_verdict home room revoked command wrong_device =
     (if command \<notin> set ALLOWED_DEVICES then Some BAD_COMMAND
      else if room \<noteq> home then Some WRONG_ROOM
      else if revoked then Some REVOKED
      else if wrong_device then Some BAD_RESPONSE else None)"


lemma verify_response_key:
  assumes "ed25519 P" "issue_credential P f sk a = Inr ik"
  shows "verify_device_response P (field (sorted_payload (ik_payload ik)) ''device_pub'') c r =
    Inr (verify P (public_key P (device_key f a)) r c)"
  using field_issue_payload [OF map_of_sorted_payload [OF issue_payload_keys], of P f a]
  by (simp add: issued_fields(2) [OF assms(2)] verify_device_response_issued [OF assms(1)])

lemma deny_reason [simp]: "reason (deny r k) = Some r" "reason (allow k') = None"
  by (simp_all add: deny_def allow_def unlock_def)

lemma bench_key_static:
  assumes "ed25519 P" "bench_key P sk f s home ik"
  shows "evaluate_static P (ik_token ik) (public_key P sk) DEMO_PROPERTY_ID room BENCH_START R =
    (case bench_verdict room home BENCH_START (fresh_uuid f \<in> R) of
       Some r \<Rightarrow> Credential.denied r (Some (fresh_uuid f))
     | None \<Rightarrow> Inr \<lparr>static_deny = None, static_payload = Some (sorted_payload (ik_payload ik))\<rparr>)"
proof -
  note ik = assms(2) [unfolded bench_key_def bench_stay_row_def]
  have "verify P (public_key P sk) (sign P sk m) m" for m using assms(1) by (simp add: ed25519_simps)
  moreover have "issued_decision (ik_key_id ik) (stay_args f s home BENCH_START) DEMO_PROPERTY_ID room BENCH_START R =
      bench_verdict room home BENCH_START (fresh_uuid f \<in> R)"
    using ik by (simp add: stay_key_verdict bench_verdict_def bench_until_def)
  ultimately show ?thesis
    using evaluate_static_issued [of f "stay_args f s home BENCH_START" P sk ik "public_key P sk"
        DEMO_PROPERTY_ID room BENCH_START R] ik by (simp split: option.split)
qed

lemma bench_verdict_now: "bench_verdict room home BENCH_START revoked =
    (if room \<noteq> home then Some WRONG_ROOM else if revoked then Some REVOKED else None)"
  using bench_until_late by (simp add: bench_verdict_def)

lemma authorize_bench_key:
  assumes "ed25519 P" "bench_key P sk f s home ik" "db_ok d"
    and "cr_property_id cr = DEMO_PROPERTY_ID" "cr_property_pub cr = public_key P sk"
    and "check (cr_challenges cr) c BENCH_START = OK"
    and "fresh_uuid f \<notin> revoked_ids d \<Longrightarrow> in_room d s home"
  shows "authorize P room command (ik_token ik) c response BENCH_START (cr, d) =
    (case scope_verdict home room (fresh_uuid f \<in> revoked_ids d) command
            (\<not> verify P (public_key P (fresh_sk f)) response c) of
       None \<Rightarrow> (Inr (allow (fresh_uuid f)), cr\<lparr>cr_challenges := consume c BENCH_START (cr_challenges cr)\<rparr>, d)
     | Some r \<Rightarrow> (Inr (deny r (if r = BAD_COMMAND then None else Some (fresh_uuid f))), cr, d))"
proof (cases "command \<in> set ALLOWED_DEVICES")
  case False
  then show ?thesis by (simp add: authorize_def scope_verdict_def)
next
  case True
  let ?revoked = "fresh_uuid f \<in> revoked_ids d" and ?p = "sorted_payload (ik_payload ik)"
  note ik = assms(2) [unfolded bench_key_def bench_stay_row_def]
  note static = bench_key_static [OF assms(1,2), of room "revoked_ids d"]
  show ?thesis
  proof (cases "bench_verdict room home BENCH_START ?revoked")
    case (Some r)
    then have "scope_verdict home room ?revoked command w = Some r" "r \<noteq> BAD_COMMAND" for w
      using True by (auto simp: scope_verdict_def bench_verdict_now split: if_splits)
    moreover have "authorize P room command (ik_token ik) c response BENCH_START (cr, d) =
        (Inr (deny r (Some (fresh_uuid f))), cr, d)"
      using True static Some assms(4,5)
      by (simp add: authorize_def on_db_def revocation_list_def bindE_def revoked_ids_def Credential.denied_def)
    ultimately show ?thesis by simp
  next
    case None
    then have here: "room = home" "\<not> ?revoked" by (auto simp: bench_verdict_now split: if_splits)
    obtain a where a: "s \<in> set (stays d)" "latest_active d home = Some a" "as_stay_id a = st_stay_id s"
      using assms(7) here(2) by (auto simp: in_room_def)
    note fields = field_issue_payload [OF map_of_sorted_payload [OF issue_payload_keys], of P f "stay_args f s home BENCH_START"]
    have issued: "issue_credential P f sk (stay_args f s home BENCH_START) = Inr ik" using ik by simp
    have "map_of ?p (lit ''stay_id'') = Some (JStr (st_stay_id s))"
      by (simp add: issued_fields(2) [OF issued] map_of_sorted_payload issue_payload_keys) (simp add: issue_payload_def)
    then have "stay_is_active P ?p home d = (Inr True, d)"
      using holds_room_active [OF assms(3) a(1) _ _ a(2,3)] ik by simp
    moreover have "py_str P (field ?p ''key_id'') = fresh_uuid f"
      using fields by (simp add: issued_fields(2) [OF issued])
    moreover have "verify_device_response P (field ?p ''device_pub'') c response =
        Inr (verify P (public_key P (fresh_sk f)) response c)"
      using verify_response_key [OF assms(1) issued] by simp
    moreover have "scope_verdict home room ?revoked command w = (if w then Some BAD_RESPONSE else None)" for w
      using True here by (simp add: scope_verdict_def)
    ultimately show ?thesis
      using authorize_passed [OF True, of P "ik_token ik" cr room BENCH_START d ?p] static None assms(4-6) here
      by simp
  qed
qed

section \<open>Controls of the scenarios\<close>

text \<open>
  The verdict \<open>v\<close> a shot is due on the store \<open>d\<close>: its key is of a stay that is in its room,
  unless it has been revoked, and an impostor's signature (of a generated key that \<open>gen\<close>
  admits) does not verify under the device key.
\<close>

definition shot_due ::
  "('sk, 'pk) platform \<Rightarrow> 'sk \<Rightarrow> ('sk \<Rightarrow> bool) \<Rightarrow> db \<Rightarrow> shot \<Rightarrow> DenyReason option \<Rightarrow> bool" where
  "shot_due P sk gen d shot v \<longleftrightarrow>
     (case shot of (room, key, command, wrong_device) \<Rightarrow>
        \<exists>f s home. bench_key P sk f s home key \<and>
          (fresh_uuid f \<notin> revoked_ids d \<longrightarrow> in_room d s home) \<and>
          (wrong_device \<longrightarrow>
             (\<forall>g c. gen g \<longrightarrow> \<not> verify P (public_key P (fresh_sk f)) (sign P g c) c)) \<and>
          v = scope_verdict home room (fresh_uuid f \<in> revoked_ids d) command wrong_device)"

definition judges :: "Decision \<Rightarrow> DenyReason option \<Rightarrow> bool" where
  "judges dec v \<longleftrightarrow> reason dec = v \<and> (allowed dec \<longleftrightarrow> v = None)"

lemma scope_control_run:
  assumes "ed25519 P" "at_bench P sk used d app" "db_ok d" "c \<notin> used" "gen g"
    and "shot_due P sk gen d (room, key, command, wrong_device) v"
  obtains dec app' where "scope_control P (c, g) room key command wrong_device app = (Inr dec, app')"
    "at_bench P sk (insert c used) d app'" "judges dec v"
proof -
  obtain f s home where key: "bench_key P sk f s home key"
    "fresh_uuid f \<notin> revoked_ids d \<Longrightarrow> in_room d s home"
    "wrong_device \<Longrightarrow> \<not> verify P (public_key P (fresh_sk f)) (sign P g c) c"
    "v = scope_verdict home room (fresh_uuid f \<in> revoked_ids d) command wrong_device"
    using assms(5,6) unfolding shot_due_def case_prod_conv by blast
  have app: "bench_app P sk used app" "app_db app = d" using assms(2) by (simp_all add: at_bench_def)
  let ?cr = "begin_command c BENCH_START (app_connected app)" and ?resp = "if wrong_device then sign P g c
    else sign P (fresh_sk f) c"
  let ?app = "app\<lparr>app_connected := ?cr\<rparr>"
  note begun = begin_command_bench [OF app(1) assms(4), of BENCH_START]
  have cr: "cr_property_id ?cr = DEMO_PROPERTY_ID" "cr_property_pub ?cr = public_key P sk"
    using bench_authorizer [OF begun(1)] by auto
  have issued: "issue_credential P f sk (stay_args f s home BENCH_START) = Inr key"
    using key(1) by (simp add: bench_key_def)
  have dev: "device_sign P (ik_device_sk_b64 key) c = Inr (sign P (fresh_sk f) c)"
    using device_sign_issued [OF assms(1) issued] by simp
  have wrong: "(\<not> verify P (public_key P (fresh_sk f)) ?resp c) = wrong_device"
    using key(3) assms(1) by (simp add: ed25519_simps)
  note auth = authorize_bench_key [OF assms(1) key(1) assms(3) cr begun(2) key(2), of room command ?resp,
      unfolded wrong, folded key(4)]
  have run: "scope_control P (c, g) room key command wrong_device app =
      (case authorize P room command (ik_token key) c ?resp BENCH_START (?cr, d) of
         (r, cr, d') \<Rightarrow> (r, app\<lparr>app_connected := cr, app_db := d'\<rparr>))"
    using app(2) dev by (simp add: scope_control_def lift_result_def split: prod.splits)
  show ?thesis
  proof (cases v)
    case None
    have "at_bench P sk (insert c used) d (app\<lparr>app_connected := ?cr\<lparr>cr_challenges :=
        consume c BENCH_START (cr_challenges ?cr)\<rparr>, app_db := d\<rparr>)"
      using consume_command_bench [OF begun(1)] begun(2) by (simp add: at_bench_def)
    then show ?thesis
      using that [of "allow (fresh_uuid f)"] run auth None by (simp add: judges_def)
  next
    case (Some r)
    have "at_bench P sk (insert c used) d (app\<lparr>app_connected := ?cr, app_db := d\<rparr>)"
      using begun(1) by (simp add: at_bench_def)
    then show ?thesis
      using that [of "deny r (if r = BAD_COMMAND then None else Some (fresh_uuid f))"] run auth Some
      by (simp add: judges_def)
  qed
qed

text \<open>A loop of controls: each has a nonce of its own, and gets the verdict it is due.\<close>

definition fired :: "(nat \<Rightarrow> bytes \<times> 'sk) \<Rightarrow> nat \<Rightarrow> bytes set" where
  "fired E i = (\<lambda>j. fst (E j)) ` {..<i}"

lemma fired_Suc: "insert (fst (E i)) (fired E i) = fired E (Suc i)"
  by (simp add: fired_def lessThan_Suc)

lemma fire_run:
  assumes "ed25519 P" "db_ok d" "inj (\<lambda>j. fst (E j))" "\<forall>j. gen (snd (E j))"
  shows "list_all2 (shot_due P sk gen d) ss vs \<Longrightarrow> at_bench P sk (fired E i) d app \<Longrightarrow>
    \<exists>decs app'. fire P E tally i ss t app = (Inr (fold tally decs t), app') \<and>
      at_bench P sk (fired E (i + length ss)) d app' \<and> list_all2 judges decs vs"
proof (induction ss vs arbitrary: i app t rule: list_all2_induct)
  case Nil
  then show ?case by (auto intro: exI [of _ "[]"])
next
  case (Cons s ss v vs)
  obtain room key command wrong where s: "s = (room, key, command, wrong)" by (cases s)
  have new: "fst (E i) \<notin> fired E i" using assms(3) by (auto simp: fired_def dest: injD)
  obtain dec app1 where one: "scope_control P (fst (E i), snd (E i)) room key command wrong app = (Inr dec, app1)"
    "at_bench P sk (insert (fst (E i)) (fired E i)) d app1" "judges dec v"
    by (rule scope_control_run [OF assms(1) Cons.prems assms(2) new, of gen "snd (E i)" room key command wrong v])
      (use assms(4) Cons.hyps(1) s in auto)
  obtain decs app' where more: "fire P E tally (Suc i) ss (tally dec t) app1 = (Inr (fold tally decs (tally dec t)), app')"
    "at_bench P sk (fired E (Suc i + length ss)) d app'" "list_all2 judges decs vs"
    using Cons.IH [of "Suc i" app1 "tally dec t"] one(2) by (auto simp: fired_Suc)
  have "fire P E tally i (s # ss) t app = (Inr (fold tally (dec # decs) t), app')"
    using one(1) more(1) by (simp add: s)
  then show ?case using one(3) more(2,3) by (intro exI [of _ "dec # decs"] exI [of _ app']) simp
qed

text \<open>The counters after a loop.\<close>

lemma legit_counts:
  "list_all2 judges decs vs \<Longrightarrow> list_all (\<lambda>v. v = None) vs \<Longrightarrow>
     fold tally_legit decs t =
       t\<lparr>legit_total := legit_total t + length vs, legit_allowed := legit_allowed t + length vs\<rparr>"
  by (induction decs vs arbitrary: t rule: list_all2_induct) (simp_all add: judges_def tally_legit_def)

lemma cross_counts:
  "list_all2 judges decs (map Some rs) \<Longrightarrow>
     legit_total (fold tally_cross decs t) = legit_total t \<and>
     legit_allowed (fold tally_cross decs t) = legit_allowed t \<and>
     cross_total (fold tally_cross decs t) = cross_total t + length rs \<and>
     cross_leaks (fold tally_cross decs t) = cross_leaks t \<and>
     (\<forall>r. count (reason_value r) (reasons (fold tally_cross decs t)) =
        count (reason_value r) (reasons t) + count_list rs r)"
proof (induction rs arbitrary: decs t)
  case (Cons r rs)
  then obtain dec decs' where d: "decs = dec # decs'" "judges dec (Some r)" "list_all2 judges decs' (map Some rs)"
    by (auto simp: list_all2_Cons2)
  show ?case
    using Cons.IH [OF d(3), of "tally_cross dec t"] d(2)
    by (auto simp: d(1) judges_def tally_cross_def Let_def count_bump reason_value_eq)
qed simp

section \<open>Guests in their rooms\<close>

text \<open>A room whose active bookings are all the stay's.\<close>

lemma in_room_only:
  assumes "s \<in> set (stays d)" "\<exists>a \<in> active_rows d. as_room_id a = room"
    and "\<forall>a \<in> active_rows d. as_room_id a = room \<longrightarrow> as_stay_id a = st_stay_id s"
  shows "in_room d s room"
proof -
  have "latest_active d room \<noteq> None"
  proof
    assume "latest_active d room = None"
    then have "sort_key (\<lambda>a. - as_id a) (filter (\<lambda>a. as_room_id a = room \<and> as_active a) (assignments d)) = []"
      by (simp add: latest_active_def fetchone_def split: list.splits)
    then have "set (filter (\<lambda>a. as_room_id a = room \<and> as_active a) (assignments d)) = {}"
      by (metis empty_set set_sort)
    then show False using assms(2) by (auto simp: active_rows_def)
  qed
  then obtain a where a: "latest_active d room = Some a" by blast
  then have "as_stay_id a = st_stay_id s" using latest_active_Some(1,2) assms(3) by blast
  then show ?thesis using a assms(1) by (auto simp: in_room_def)
qed

lemma clean_append: "clean (s @ t) \<longleftrightarrow> clean s \<and> clean t"
  by (simp add: clean_def)

text \<open>A guest of the benches: a stay in room \<open>r\<close> from an hour ago, and its key.\<close>

lemma guest_with_key:
  assumes "db_ok d" "\<forall>x \<in> {gid, name, email, sid, kind}. clean x" "fresh_ok f"
    and "gid \<notin> gu_guest_id ` set (guests d)" "sid \<notin> st_stay_id ` set (stays d)"
    and "fresh_uuid f \<notin> ke_key_id ` set (keys d)"
    and "list_ex (\<lambda>ro. ro_room_id ro = r \<and> ro_property_id ro = DEMO_PROPERTY_ID) (rooms d)"
    and "\<forall>a \<in> active_rows d. as_room_id a \<noteq> r" and "out = BENCH_START + 3 * DAY"
  shows "\<exists>s ik d'. arrived s r d d' \<and> bench_key P sk f s r ik \<and> db_ok (keyed ik s r BENCH_START d') \<and>
    st_stay_id s = sid \<and> st_guest_id s = gid \<and>
    (\<forall>k :: int \<Rightarrow> IssuedKey \<Rightarrow> (db, 'a) exec.
       thenE (add_guest gid name email) (thenE (add_stay sid gid DEMO_PROPERTY_ID kind (BENCH_START - 3600) out)
       (bindE (assign_room sid (Some r)) (\<lambda>room. thenE (set_stay_status sid CHECKED_IN)
         (bindE (issue_for_stay P f sk sid BENCH_START) (k room))))) d = k r ik (keyed ik s r BENCH_START d'))"
proof -
  let ?i = "BENCH_START - 3600"
  let ?s = "arrival sid gid DEMO_PROPERTY_ID kind ?i out\<lparr>st_room_id := Some r, st_status := CHECKED_IN\<rparr>"
  have texts: "\<forall>x \<in> {gid, name, email, sid, DEMO_PROPERTY_ID, kind}. clean x" using assms(2) by simp
  have fits: "fits ?i" "fits out" using assms(9) by simp_all
  have free: "room_free d r ?i out" using assms(8) by (auto simp: room_free_def active_rows_def list_ex_iff)
  obtain d' where d': "arrived ?s r d d'"
    "\<forall>k :: int \<Rightarrow> (db, 'a) exec. thenE (add_guest gid name email) (thenE (add_stay sid gid DEMO_PROPERTY_ID kind ?i out)
       (bindE (assign_room sid (Some r)) (\<lambda>room. thenE (set_stay_status sid CHECKED_IN) (k room)))) d = k r d'"
    using stay_arrives_bound [OF assms(1,4,5) texts fits assms(7) free] by (elim exE conjE)
  have row: "bench_stay_row ?s r" using assms(9) by (simp add: bench_stay_row_def)
  have window: "st_check_in ?s < min (st_check_out ?s) (BENCH_START + KEY_TTL_SECONDS)" using assms(9) by (simp add: DAY_def KEY_TTL_SECONDS_def)
  have new: "fresh_uuid f \<notin> ke_key_id ` set (keys d')" using assms(6) arrivedD(6) [OF d'(1)] by simp
  obtain ik where ik: "issue_credential P f sk (stay_args f ?s r BENCH_START) = Inr ik"
    "issue_for_stay P f sk (st_stay_id ?s) BENCH_START d' = (Inr ik, keyed ik ?s r BENCH_START d')"
    "args_ok f (stay_args f ?s r BENCH_START)" "ik_key_id ik = fresh_uuid f"
    "db_ok (keyed ik ?s r BENCH_START d')"
    by (rule stay_key_issued [OF arrivedD(1-3) [OF d'(1)] bench_window(2) assms(3) window new])
  have "bench_key P sk f ?s r ik" using ik(1,3,4) row by (simp add: bench_key_def)
  moreover have "bindE (issue_for_stay P f sk sid BENCH_START) (k r) d' = k r ik (keyed ik ?s r BENCH_START d')"
    for k :: "int \<Rightarrow> IssuedKey \<Rightarrow> (db, 'a) exec"
    using ik(2) by simp
  ultimately show ?thesis
    using d' ik(5) by (intro exI [of _ ?s] exI [of _ ik] exI [of _ d']) simp
qed

end
