(* ===== verification/Scope_Properties.thy ===== *)
theory Scope_Properties
  imports Scope_Facts
begin

text \<open>
  The scope bench as a theorem: every guest's own controls are accepted, and no control out
  of scope is, each refused for its reason.
\<close>

section \<open>The guests\<close>

lemma guest_checks_in:
  assumes "at_bench P sk used d app" "db_ok d" "clean gu" "clean su" "fresh_ok f"
    and "lit ''g_'' @ take 8 gu \<notin> gu_guest_id ` set (guests d)"
    and "lit ''s_'' @ take 8 su \<notin> st_stay_id ` set (stays d)"
    and "fresh_uuid f \<notin> ke_key_id ` set (keys d)"
    and "list_ex (\<lambda>ro. ro_room_id ro = r \<and> ro_property_id ro = DEMO_PROPERTY_ID) (rooms d)"
    and "\<forall>a \<in> active_rows d. as_room_id a \<noteq> r"
  obtains s ik d' app' where
    "checked_in_stay P f gu su guest (lit kind) r app = (Inr (st_stay_id s, ik), app')"
    "at_bench P sk used (keyed ik s r BENCH_START d') app'" "db_ok (keyed ik s r BENCH_START d')"
    "arrived s r d d'" "bench_key P sk f s r ik"
    "st_stay_id s = lit ''s_'' @ take 8 su" "st_guest_id s = lit ''g_'' @ take 8 gu"
proof -
  have app: "bench_app P sk used app" "app_db app = d" using assms(1) by (simp_all add: at_bench_def)
  let ?gid = "lit ''g_'' @ take 8 gu" and ?sid = "lit ''s_'' @ take 8 su"
  let ?out = "BENCH_START + 3 * 24 * 3600"
  let ?name = "lit guest" and ?email = "lit guest @ lit ''@example.com''"
  have texts: "\<forall>x \<in> {?gid, ?name, ?email, ?sid, lit kind}. clean x"
    using clean_drawn_id [OF assms(3)] clean_drawn_id [OF assms(4)] by (simp add: clean_append)
  have out: "?out = BENCH_START + 3 * DAY" by (simp add: DAY_def)
  obtain s ik d' where g: "arrived s r d d'" "bench_key P sk f s r ik" "db_ok (keyed ik s r BENCH_START d')"
    "st_stay_id s = ?sid" "st_guest_id s = ?gid"
    "\<forall>k :: int \<Rightarrow> IssuedKey \<Rightarrow> (db, pystr \<times> IssuedKey) exec.
       thenE (add_guest ?gid ?name ?email) (thenE (add_stay ?sid ?gid DEMO_PROPERTY_ID (lit kind) (BENCH_START - 3600) ?out)
       (bindE (assign_room ?sid (Some r)) (\<lambda>room. thenE (set_stay_status ?sid CHECKED_IN)
         (bindE (issue_for_stay P f sk ?sid BENCH_START) (k room))))) d = k r ik (keyed ik s r BENCH_START d')"
    using guest_with_key [OF assms(2) texts assms(5-10) out, where 'a = "pystr \<times> IssuedKey"] by blast
  have "checked_in_stay P f gu su guest (lit kind) r app = (Inr (?sid, ik), app\<lparr>app_db := keyed ik s r BENCH_START d'\<rparr>)"
    using app g(6) [THEN spec, of "\<lambda>_ issued. ret (?sid, issued)"]
    by (simp add: checked_in_stay_def Let_def with_db_def bench_appD thenE_def [of "assign_room _ _"])
  moreover have "at_bench P sk used (keyed ik s r BENCH_START d') (app\<lparr>app_db := keyed ik s r BENCH_START d'\<rparr>)"
    using app(1) by (simp add: at_bench_def)
  ultimately show ?thesis using that [of s ik] g by simp
qed

text \<open>
  What the draws of the bench are assumed to be: Unicode text, no id or nonce twice, and no
  impostor's key signs for the first guest's device.
\<close>

definition scope_draws ::
  "('sk, 'pk) platform \<Rightarrow> (nat \<Rightarrow> pystr) \<Rightarrow> (nat \<Rightarrow> 'sk fresh) \<Rightarrow> (nat \<Rightarrow> bytes \<times> 'sk) \<Rightarrow> bool" where
  "scope_draws P uuid f E \<longleftrightarrow>
     (\<forall>i. clean (uuid i) \<and> fresh_ok (f i)) \<and>
     distinct [fresh_uuid (f 0), fresh_uuid (f 1), fresh_uuid (f 2)] \<and>
     distinct [take 8 (uuid 0), take 8 (uuid 2), take 8 (uuid 4)] \<and>
     distinct [take 8 (uuid 1), take 8 (uuid 3), take 8 (uuid 5)] \<and>
     inj (\<lambda>j. fst (E j)) \<and>
     (\<forall>j c. \<not> verify P (public_key P (fresh_sk (f 0))) (sign P (snd (E j)) c) c)"

definition scope_room :: "int \<Rightarrow> string \<Rightarrow> room_row" where
  "scope_room r kind = \<lparr>ro_room_id = r, ro_property_id = DEMO_PROPERTY_ID, ro_number = dec_int r,
     ro_room_type = lit kind\<rparr>"

lemma scope_room_simps [simp]:
  "ro_room_id (scope_room r kind) = r" "ro_property_id (scope_room r kind) = DEMO_PROPERTY_ID"
  by (simp_all add: scope_room_def)

definition scope_hotel :: db where
  "scope_hotel = init_db\<lparr>rooms := [scope_room 101 ''king'', scope_room 102 ''king'', scope_room 103 ''queen'']\<rparr>"

lemma scope_hotel_simps [simp]:
  "rooms scope_hotel = [scope_room 101 ''king'', scope_room 102 ''king'', scope_room 103 ''queen'']"
  "guests scope_hotel = []" "stays scope_hotel = []" "keys scope_hotel = []" "revocations scope_hotel = []"
  "revoked_ids scope_hotel = {}" "active_rows scope_hotel = {}" "db_ok scope_hotel"
  by (simp_all add: scope_hotel_def init_db_def revoked_ids_def active_rows_def db_ok_defs fits_def)

lemma scope_rooms_run:
  assumes "at_bench P sk used init_db app"
  shows "for_each (\<lambda>(rid, kind). with_db (add_room rid (app_property_id app) (dec_int rid) (lit kind)))
      [(101, ''king''), (102, ''king''), (103, ''queen'')] app = (Inr (), app\<lparr>app_db := scope_hotel\<rparr>)"
    "at_bench P sk used scope_hotel (app\<lparr>app_db := scope_hotel\<rparr>)"
proof -
  have "app_property_id app = DEMO_PROPERTY_ID" "app_db app = init_db"
    using assms by (auto simp: at_bench_def bench_app_def)
  then show "for_each (\<lambda>(rid, kind). with_db (add_room rid (app_property_id app) (dec_int rid) (lit kind)))
      [(101, ''king''), (102, ''king''), (103, ''queen'')] app = (Inr (), app\<lparr>app_db := scope_hotel\<rparr>)"
    by (simp add: with_db_def add_room_def insert_if_def fits_def init_db_def scope_room_def scope_hotel_def)
  show "at_bench P sk used scope_hotel (app\<lparr>app_db := scope_hotel\<rparr>)"
    using assms by (simp add: at_bench_def)
qed

text \<open>The state in which the commands are fired: three stays, each alone in its room.\<close>

definition scope_ready ::
  "('sk, 'pk) platform \<Rightarrow> 'sk \<Rightarrow> (nat \<Rightarrow> 'sk fresh) \<Rightarrow> db \<Rightarrow>
     (pystr \<times> IssuedKey) \<times> (pystr \<times> IssuedKey) \<times> (pystr \<times> IssuedKey) \<Rightarrow> bool" where
  "scope_ready P sk f d = (\<lambda>((i1, k1), (i2, k2), (i3, k3)).
     \<exists>s1 s2 s3. db_ok d \<and> revoked_ids d = {} \<and>
       bench_key P sk (f 0) s1 101 k1 \<and> bench_key P sk (f 1) s2 102 k2 \<and> bench_key P sk (f 2) s3 103 k3 \<and>
       in_room d s1 101 \<and> in_room d s2 102 \<and> in_room d s3 103 \<and>
       i3 = st_stay_id s3 \<and> active_keys i3 d = [fresh_uuid (f 2)])"

lemma scope_setup_run:
  assumes "at_bench P sk {} init_db app" "scope_draws P uuid f E"
  obtains trio d app' where "scope_setup P uuid f app = (Inr trio, app')" "at_bench P sk {} d app'"
    "scope_ready P sk f d trio"
proof -
  have draws: "clean (uuid i)" "fresh_ok (f i)" for i using assms(2) by (simp_all add: scope_draws_def)
  have "fresh_uuid (f 1) \<noteq> fresh_uuid (f 0)" "fresh_uuid (f 2) \<noteq> fresh_uuid (f 0)"
    "fresh_uuid (f 2) \<noteq> fresh_uuid (f 1)" "take 8 (uuid 2) \<noteq> take 8 (uuid 0)" "take 8 (uuid 4) \<noteq> take 8 (uuid 0)"
    "take 8 (uuid 4) \<noteq> take 8 (uuid 2)" "take 8 (uuid 3) \<noteq> take 8 (uuid 1)" "take 8 (uuid 5) \<noteq> take 8 (uuid 1)"
    "take 8 (uuid 5) \<noteq> take 8 (uuid 3)"
    using assms(2) by (auto simp: scope_draws_def)
  note diff = this [simplified]
  note rooms = scope_rooms_run [OF assms(1)]
  obtain s1 k1 d1 app1 where A:
    "checked_in_stay P (f 0) (uuid 0) (uuid 1) ''Ada'' (lit ''king'') 101 (app\<lparr>app_db := scope_hotel\<rparr>) =
       (Inr (st_stay_id s1, k1), app1)"
    "at_bench P sk {} (keyed k1 s1 101 BENCH_START d1) app1" "db_ok (keyed k1 s1 101 BENCH_START d1)"
    "arrived s1 101 scope_hotel d1" "bench_key P sk (f 0) s1 101 k1"
    "st_stay_id s1 = lit ''s_'' @ take 8 (uuid 1)" "st_guest_id s1 = lit ''g_'' @ take 8 (uuid 0)"
    by (rule guest_checks_in [OF rooms(2) scope_hotel_simps(8) draws(1) draws(1) draws(2), of 0 1 0 101]) simp_all
  note a = arrivedD [OF A(4)]
  have idA: "ik_key_id k1 = fresh_uuid (f 0)" using A(5) by (simp add: bench_key_def)
  obtain n1 where rowA: "active_rows d1 = {\<lparr>as_id = n1, as_room_id = 101, as_stay_id = st_stay_id s1,
      as_check_in = st_check_in s1, as_check_out = st_check_out s1, as_active = True\<rparr>}"
    by (rule arrived_row [OF A(4)]) simp
  obtain s2 k2 d2 app2 where B:
    "checked_in_stay P (f 1) (uuid 2) (uuid 3) ''Ben'' (lit ''king'') 102 app1 = (Inr (st_stay_id s2, k2), app2)"
    "at_bench P sk {} (keyed k2 s2 102 BENCH_START d2) app2" "db_ok (keyed k2 s2 102 BENCH_START d2)"
    "arrived s2 102 (keyed k1 s1 101 BENCH_START d1) d2" "bench_key P sk (f 1) s2 102 k2"
    "st_stay_id s2 = lit ''s_'' @ take 8 (uuid 3)" "st_guest_id s2 = lit ''g_'' @ take 8 (uuid 2)"
    by (rule guest_checks_in [OF A(2,3) draws(1) draws(1) draws(2), of 2 3 1 102])
      (simp_all add: a idA rowA diff A(6,7))
  note b = arrivedD [OF B(4)]
  have idB: "ik_key_id k2 = fresh_uuid (f 1)" using B(5) by (simp add: bench_key_def)
  obtain n2 where rowB: "active_rows d2 = {\<lparr>as_id = n2, as_room_id = 102, as_stay_id = st_stay_id s2,
      as_check_in = st_check_in s2, as_check_out = st_check_out s2, as_active = True\<rparr>,
      \<lparr>as_id = n1, as_room_id = 101, as_stay_id = st_stay_id s1,
      as_check_in = st_check_in s1, as_check_out = st_check_out s1, as_active = True\<rparr>}"
    by (rule arrived_row [OF B(4)]) (simp add: rowA)
  obtain s3 k3 d3 app3 where C:
    "checked_in_stay P (f 2) (uuid 4) (uuid 5) ''Cyd'' (lit ''queen'') 103 app2 = (Inr (st_stay_id s3, k3), app3)"
    "at_bench P sk {} (keyed k3 s3 103 BENCH_START d3) app3" "db_ok (keyed k3 s3 103 BENCH_START d3)"
    "arrived s3 103 (keyed k2 s2 102 BENCH_START d2) d3" "bench_key P sk (f 2) s3 103 k3"
    "st_stay_id s3 = lit ''s_'' @ take 8 (uuid 5)" "st_guest_id s3 = lit ''g_'' @ take 8 (uuid 4)"
    by (rule guest_checks_in [OF B(2,3) draws(1) draws(1) draws(2), of 4 5 2 103])
      (simp_all add: a b idA idB rowB diff A(6,7) B(6,7))
  note c = arrivedD [OF C(4)]
  have idC: "ik_key_id k3 = fresh_uuid (f 2)" using C(5) by (simp add: bench_key_def)
  obtain n3 where rowC: "active_rows d3 = {\<lparr>as_id = n3, as_room_id = 103, as_stay_id = st_stay_id s3,
      as_check_in = st_check_in s3, as_check_out = st_check_out s3, as_active = True\<rparr>,
      \<lparr>as_id = n2, as_room_id = 102, as_stay_id = st_stay_id s2,
      as_check_in = st_check_in s2, as_check_out = st_check_out s2, as_active = True\<rparr>,
      \<lparr>as_id = n1, as_room_id = 101, as_stay_id = st_stay_id s1,
      as_check_in = st_check_in s1, as_check_out = st_check_out s1, as_active = True\<rparr>}"
    by (rule arrived_row [OF C(4)]) (simp add: rowB)
  let ?d = "keyed k3 s3 103 BENCH_START d3"
  have known: "s1 \<in> set (stays ?d)" "s2 \<in> set (stays ?d)" "s3 \<in> set (stays ?d)"
    using a(2) b(2,11) c(2,11) by auto
  have "in_room ?d s1 101" "in_room ?d s2 102" "in_room ?d s3 103"
    by (rule in_room_only [OF known(1)], simp_all add: rowC)
      (rule in_room_only [OF known(2)], simp_all add: rowC, rule in_room_only [OF known(3)], simp_all add: rowC)
  moreover have "revoked_ids ?d = {}" by (simp add: a b c)
  moreover have "active_keys (st_stay_id s3) ?d = [fresh_uuid (f 2)]"
  proof -
    have "st_stay_id s3 \<notin> st_stay_id ` set (stays (keyed k2 s2 102 BENCH_START d2))"
      by (simp add: a b A(6) B(6) C(6) diff)
    then show ?thesis
      using active_keys_arrived [OF C(4)] active_keys_unknown [OF B(3)] idC by simp
  qed
  ultimately have "scope_ready P sk f ?d ((st_stay_id s1, k1), (st_stay_id s2, k2), (st_stay_id s3, k3))"
    using A(5) B(5) C(3,5) by (auto simp: scope_ready_def)
  moreover have "scope_setup P uuid f app =
      (Inr ((st_stay_id s1, k1), (st_stay_id s2, k2), (st_stay_id s3, k3)), app3)"
    unfolding scope_setup_def
    by (rule thenE_to, rule rooms(1), rule bindE_to, rule A(1), rule bindE_to, rule B(1), rule bindE_to,
        rule C(1), rule ret_simp)
  ultimately show ?thesis using that C(2) by blast
qed

section \<open>The run\<close>

lemma shots_due:
  assumes "\<forall>(room, key) \<in> set targets. \<forall>cmd \<in> set commands. shot_due P sk gen d (room, key, cmd, wrong) v"
  shows "list_all2 (shot_due P sk gen d) (shots targets wrong commands)
    (replicate (length targets * length commands) v)"
proof -
  have "length (shots targets wrong commands) = length targets * length commands"
    by (induction targets) (auto simp: shots_def)
  moreover have "\<forall>s \<in> set (shots targets wrong commands). shot_due P sk gen d s v"
    using assms by (auto simp: shots_def)
  ultimately show ?thesis by (simp add: list_all2_conv_all_nth)
qed

lemma length_shots: "length (shots targets wrong commands) = length targets * length commands"
  by (induction targets) (auto simp: shots_def)

text \<open>The verdict on a control by a guest who is in the room, or whose key is revoked.\<close>

lemma shot_dueI:
  assumes "bench_key P sk f s home key" "fresh_uuid f \<notin> revoked_ids d \<Longrightarrow> in_room d s home"
    and "wrong \<Longrightarrow> \<forall>g c. gen g \<longrightarrow> \<not> verify P (public_key P (fresh_sk f)) (sign P g c) c"
    and "scope_verdict home room (fresh_uuid f \<in> revoked_ids d) command wrong = v"
  shows "shot_due P sk gen d (room, key, command, wrong) v"
  using assms unfolding shot_due_def by blast

lemma devices [simp]: "length ALLOWED_DEVICES = 3"
  "lit ''open_safe'' \<notin> set ALLOWED_DEVICES" "lit ''disable_alarm'' \<notin> set ALLOWED_DEVICES"
  by (simp_all add: ALLOWED_DEVICES_def lit_def)

text \<open>A tally of allowed controls only, and of the reasons of refused ones.\<close>

definition tallied :: "nat \<Rightarrow> DenyReason list \<Rightarrow> scope_tally \<Rightarrow> bool" where
  "tallied n rs t \<longleftrightarrow> legit_total t = n \<and> legit_allowed t = n \<and> cross_total t = length rs \<and> cross_leaks t = 0 \<and>
     (\<forall>r. count (reason_value r) (reasons t) = count_list rs r)"

text \<open>A loop of controls that are all allowed, and one of controls that are all refused.\<close>

lemma legit_series:
  assumes "ed25519 P" "db_ok d" "inj (\<lambda>j. fst (E j))" "\<forall>j. gen (snd (E j))" "at_bench P sk (fired E i) d app"
    and "\<forall>(room, key) \<in> set targets. \<forall>cmd \<in> set commands. shot_due P sk gen d (room, key, cmd, wrong) None"
    and "n = length targets * length commands" "tallied m rs t"
  obtains t' app' where "fire P E tally_legit i (shots targets wrong commands) t app = (Inr t', app')"
    "at_bench P sk (fired E (i + n)) d app'" "tallied (m + n) rs t'"
proof -
  obtain decs app' where f: "fire P E tally_legit i (shots targets wrong commands) t app =
      (Inr (fold tally_legit decs t), app')" "at_bench P sk (fired E (i + n)) d app'"
      "list_all2 judges decs (replicate n None)"
    using fire_run [OF assms(1-4) shots_due [OF assms(6)] assms(5), of tally_legit t] assms(7)
    by (auto simp: length_shots)
  show ?thesis
    by (rule that [OF f(1,2)]) (use assms(8) legit_counts [OF f(3), of t] in \<open>simp add: list_all_iff tallied_def\<close>)
qed

lemma cross_series:
  assumes "ed25519 P" "db_ok d" "inj (\<lambda>j. fst (E j))" "\<forall>j. gen (snd (E j))" "at_bench P sk (fired E i) d app"
    and "\<forall>(room, key) \<in> set targets. \<forall>cmd \<in> set commands. shot_due P sk gen d (room, key, cmd, wrong) (Some r)"
    and "n = length targets * length commands" "tallied m rs t"
  obtains t' app' where "fire P E tally_cross i (shots targets wrong commands) t app = (Inr t', app')"
    "at_bench P sk (fired E (i + n)) d app'" "tallied m (rs @ replicate n r) t'"
proof -
  obtain decs app' where f: "fire P E tally_cross i (shots targets wrong commands) t app =
      (Inr (fold tally_cross decs t), app')" "at_bench P sk (fired E (i + n)) d app'"
      "list_all2 judges decs (map Some (replicate n r))"
    using fire_run [OF assms(1-4) shots_due [OF assms(6)] assms(5), of tally_cross t] assms(7)
    by (auto simp: length_shots)
  show ?thesis
    by (rule that [OF f(1,2)]) (use assms(8) cross_counts [OF f(3), of t] in \<open>simp add: tallied_def\<close>)
qed

lemma scope_attempts_run:
  assumes "ed25519 P" "scope_draws P uuid f E" "at_bench P sk {} d app"
    and "scope_ready P sk f d ((i1, k1), (i2, k2), (i3, k3))"
  obtains rep app' where "scope_attempts P E ((i1, k1), (i2, k2), (i3, k3)) app = (Inr rep, app')"
    "legit_commands rep = 9" "legit_accepted rep = 9" "cross_scope_attempts rep = 26" "cross_scope_leaks rep = 0"
    "post_checkout_revoked rep = [fresh_uuid (f 2)]"
    "\<forall>r. count (reason_value r) (scope_deny_reasons rep) =
       count_list (replicate 18 WRONG_ROOM @ replicate 3 BAD_RESPONSE @ replicate 2 BAD_COMMAND @ replicate 3 REVOKED) r"
proof -
  obtain s1 s2 s3 where ready: "db_ok d" "revoked_ids d = {}"
    "bench_key P sk (f 0) s1 101 k1" "bench_key P sk (f 1) s2 102 k2" "bench_key P sk (f 2) s3 103 k3"
    "in_room d s1 101" "in_room d s2 102" "in_room d s3 103"
    "i3 = st_stay_id s3" "active_keys i3 d = [fresh_uuid (f 2)]" "s3 \<in> set (stays d)"
    using assms(4) by (auto simp: scope_ready_def in_room_def)
  let ?gen = "\<lambda>g. g \<in> range (\<lambda>j. snd (E j))"
  have inj: "inj (\<lambda>j. fst (E j))" and gen: "\<forall>j. ?gen (snd (E j))"
    and apart: "\<forall>g c. ?gen g \<longrightarrow> \<not> verify P (public_key P (fresh_sk (f 0))) (sign P g c) c"
    using assms(2) by (auto simp: scope_draws_def)
  have key: "\<And>room cmd v. scope_verdict 101 room False cmd wrong = v \<Longrightarrow> shot_due P sk ?gen d (room, k1, cmd, wrong) v"
    "\<And>room cmd v. scope_verdict 102 room False cmd False = v \<Longrightarrow> shot_due P sk ?gen d (room, k2, cmd, False) v"
    "\<And>room cmd v. scope_verdict 103 room False cmd False = v \<Longrightarrow> shot_due P sk ?gen d (room, k3, cmd, False) v" for wrong
    using shot_dueI [OF ready(3)] shot_dueI [OF ready(4)] shot_dueI [OF ready(5)] ready(2,6-8) apart by simp_all
  have start: "at_bench P sk (fired E 0) d app" using assms(3) by (simp add: fired_def)
  note legit = legit_series [OF assms(1) ready(1) inj gen] and cross = cross_series [OF assms(1) ready(1) inj gen]
  let ?t0 = "\<lparr>legit_total = 0, legit_allowed = 0, cross_total = 0, cross_leaks = 0, reasons = []\<rparr>"
    and ?own = "[(101, k1), (102, k2), (103, k3)]" and ?odd = "[lit ''open_safe'', lit ''disable_alarm'']"
  have none: "tallied 0 [] ?t0" by (simp add: tallied_def count_def)
  obtain t1 app1 where f1: "fire P E tally_legit 0 (shots ?own False ALLOWED_DEVICES) ?t0 app = (Inr t1, app1)"
    "at_bench P sk (fired E (0 + 9)) d app1" "tallied (0 + 9) [] t1"
    by (rule legit [OF start _ _ none, of ?own ALLOWED_DEVICES False 9]) (simp_all add: key scope_verdict_def)
  obtain t2 app2 where f2: "fire P E tally_cross (0 + 9) (shots (cross_matrix k1 k2 k3) False ALLOWED_DEVICES) t1 app1 = (Inr t2, app2)"
    "at_bench P sk (fired E (0 + 9 + 18)) d app2" "tallied (0 + 9) ([] @ replicate 18 WRONG_ROOM) t2"
    by (rule cross [OF f1(2) _ _ f1(3), of "cross_matrix k1 k2 k3" ALLOWED_DEVICES False WRONG_ROOM 18])
      (simp_all add: key scope_verdict_def cross_matrix_def)
  obtain t3 app3 where f3: "fire P E tally_cross (0 + 9 + 18) (shots [(101, k1)] True ALLOWED_DEVICES) t2 app2 = (Inr t3, app3)"
    "at_bench P sk (fired E (0 + 9 + 18 + 3)) d app3" "tallied (0 + 9) (([] @ replicate 18 WRONG_ROOM) @ replicate 3 BAD_RESPONSE) t3"
    by (rule cross [OF f2(2) _ _ f2(3), of "[(101, k1)]" ALLOWED_DEVICES True BAD_RESPONSE 3]) (simp_all add: key scope_verdict_def)
  obtain t4 app4 where f4: "fire P E tally_cross (0 + 9 + 18 + 3) (shots [(101, k1)] False ?odd) t3 app3 = (Inr t4, app4)"
    "at_bench P sk (fired E (0 + 9 + 18 + 3 + 2)) d app4"
    "tallied (0 + 9) ((([] @ replicate 18 WRONG_ROOM) @ replicate 3 BAD_RESPONSE) @ replicate 2 BAD_COMMAND) t4"
    by (rule cross [OF f3(2) _ _ f3(3), of "[(101, k1)]" ?odd False BAD_COMMAND 2]) (simp_all add: key scope_verdict_def)
  note out = bench_checkout [OF f4(2) ready(1,11), folded ready(9), unfolded ready(10)]
  have gone: "shot_due P sk ?gen (checked_out_db i3 BENCH_START d) (103, k3, cmd, False) (Some REVOKED)"
    if "cmd \<in> set ALLOWED_DEVICES" for cmd
    by (rule shot_dueI [OF ready(5)]) (use that ready(10) in \<open>simp_all add: scope_verdict_def\<close>)
  obtain t6 app6 where f6: "fire P E tally_cross (0 + 9 + 18 + 3 + 2) (shots [(103, k3)] False ALLOWED_DEVICES) t4
      (app4\<lparr>app_db := checked_out_db i3 BENCH_START d\<rparr>) = (Inr t6, app6)"
    "tallied (0 + 9) (((([] @ replicate 18 WRONG_ROOM) @ replicate 3 BAD_RESPONSE) @ replicate 2 BAD_COMMAND) @ replicate 3 REVOKED) t6"
    by (rule cross_series [OF assms(1) out(3) inj gen out(2) _ _ f4(3), of "[(103, k3)]" ALLOWED_DEVICES False REVOKED 3])
      (simp_all add: gone)
  have "scope_attempts P E ((i1, k1), (i2, k2), (i3, k3)) app =
      (Inr \<lparr>legit_commands = legit_total t6, legit_accepted = legit_allowed t6,
        cross_scope_attempts = cross_total t6, cross_scope_leaks = cross_leaks t6,
        post_checkout_revoked = [fresh_uuid (f 2)], scope_deny_reasons = reasons t6\<rparr>, app6)"
    unfolding scope_attempts_def prod.case
    by (rule bindE_to, rule f1(1), rule bindE_to, rule f2(1) [simplified], rule bindE_to, rule f3(1) [simplified],
        rule bindE_to, rule f4(1) [simplified], rule bindE_to, rule out(1), rule bindE_to,
        rule f6(1) [simplified], rule ret_simp)
  then show ?thesis by (rule that) (use f6(2) in \<open>simp_all add: tallied_def\<close>)
qed

lemma scope_run_result:
  assumes "ed25519 P" "scope_draws P uuid f E"
  shows "\<exists>rep. scope_run P sk uuid f E = Inr rep \<and>
    legit_commands rep = 9 \<and> legit_accepted rep = 9 \<and>
    cross_scope_attempts rep = 26 \<and> cross_scope_leaks rep = 0 \<and>
    post_checkout_revoked rep = [fresh_uuid (f 2)] \<and>
    (\<forall>r. count (reason_value r) (scope_deny_reasons rep) =
       (if r = WRONG_ROOM then 18 else if r = BAD_RESPONSE then 3 else if r = BAD_COMMAND then 2
        else if r = REVOKED then 3 else 0))"
proof -
  obtain app where app: "new_app P DEMO_PROPERTY_ID sk init_db = Inr app" "at_bench P sk {} init_db app"
    using new_app_bench [OF assms(1)] by (metis at_bench_def)
  obtain i1 k1 i2 k2 i3 k3 d app1 where begun:
    "scope_setup P uuid f app = (Inr ((i1, k1), (i2, k2), (i3, k3)), app1)" "at_bench P sk {} d app1"
    "scope_ready P sk f d ((i1, k1), (i2, k2), (i3, k3))"
    using scope_setup_run [OF app(2) assms(2)] by (metis prod.collapse)
  obtain rep app2 where rep: "scope_attempts P E ((i1, k1), (i2, k2), (i3, k3)) app1 = (Inr rep, app2)"
    "legit_commands rep = 9" "legit_accepted rep = 9" "cross_scope_attempts rep = 26" "cross_scope_leaks rep = 0"
    "post_checkout_revoked rep = [fresh_uuid (f 2)]"
    "\<forall>r. count (reason_value r) (scope_deny_reasons rep) =
       count_list (replicate 18 WRONG_ROOM @ replicate 3 BAD_RESPONSE @ replicate 2 BAD_COMMAND @ replicate 3 REVOKED) r"
    by (rule scope_attempts_run [OF assms begun(2,3)])
  have counted: "count_list (replicate n a) r = (if r = a then n else 0)" for n and a r :: DenyReason
    by (induction n) auto
  have "scope_run P sk uuid f E = Inr rep"
    using app(1) begun(1) rep(1) by (simp add: scope_run_def)
  then show ?thesis using rep(2-6) rep(7) [unfolded count_list_append counted] by auto
qed



end
