(* ===== verification/Demo.thy ===== *)
theory Demo
  imports Scope_Bench
begin

text \<open>
  \<open>scripts/demo_offline_unlock.py\<close>: the scripted life of a key before an offline lock,
  from issue to checkout, and two room controls. What is drawn is an argument: \<open>f\<close> for the
  issued keys, \<open>attacker\<close> for the forger's key pair, and for the \<open>i\<close>-th presentation or
  command the nonce and the key an impostor generates. The result is the printed text,
  one string for each \<open>print\<close>.
\<close>

section \<open>Printing\<close>

text \<open>The terminal's escape sequences.\<close>

definition ansi_G :: pystr where "ansi_G = 27 # lit ''[32m''"
definition ansi_R :: pystr where "ansi_R = 27 # lit ''[31m''"
definition ansi_B :: pystr where "ansi_B = 27 # lit ''[1m''"
definition ansi_X :: pystr where "ansi_X = 27 # lit ''[0m''"

definition pad_right :: "nat \<Rightarrow> pystr \<Rightarrow> pystr" where
  "pad_right n s = s @ replicate (n - length s) 32"

text \<open>A decision without a reason has no \<open>reason.value\<close>.\<close>

definition reason_text :: "Decision \<Rightarrow> exn + pystr" where
  "reason_text d = (case reason d of None \<Rightarrow> Inl AttributeError | Some r \<Rightarrow> Inr (reason_value r))"

definition demo_line :: "pystr \<Rightarrow> bool \<Rightarrow> Decision \<Rightarrow> exn + pystr" where
  "demo_line label expect_unlock decision =
     (let mark = (if unlocked decision = expect_unlock then ansi_G @ lit ''OK'' @ ansi_X else ansi_R @ lit ''WRONG'' @ ansi_X);
          text = (\<lambda>verdict. lit ''  ['' @ mark @ lit ''] '' @ pad_right 42 label @ lit '' -> '' @ verdict)
      in if unlocked decision then Inr (text (ansi_G @ lit ''UNLOCK'' @ ansi_X))
         else (case reason_text decision of
                 Inl e \<Rightarrow> Inl e
               | Inr r \<Rightarrow> Inr (text (ansi_R @ lit ''DENY ('' @ r @ lit '')'' @ ansi_X))))"

section \<open>At the lock\<close>

definition demo_present ::
  "('sk, 'pk) platform \<Rightarrow> bytes \<times> 'sk \<Rightarrow> pystr \<Rightarrow> pystr \<Rightarrow> bool \<Rightarrow> ('pk LockVerifier, Decision) exec" where
  "demo_present P drawn token device_sk_b64 wrong_device =
     (case drawn of (challenge, generated) \<Rightarrow>
        thenE (modify (begin_unlock challenge BENCH_START))
          (bindE (lift_result (if wrong_device then Inr (sign P generated challenge)
                               else device_sign P device_sk_b64 challenge))
            (\<lambda>response. finish_unlock P token challenge response BENCH_START)))"

text \<open>A presentation whose decision is printed.\<close>

definition show_present ::
  "('sk, 'pk) platform \<Rightarrow> bytes \<times> 'sk \<Rightarrow> string \<Rightarrow> pystr \<Rightarrow> pystr \<Rightarrow> bool \<Rightarrow> bool \<Rightarrow>
     ('pk LockVerifier, pystr) exec" where
  "show_present P drawn label token device_sk_b64 wrong_device expect =
     bindE (demo_present P drawn token device_sk_b64 wrong_device)
       (\<lambda>d. lift_result (demo_line (lit label) expect d))"

text \<open>The four further credentials of Ada's stay.\<close>

definition spare_args :: "int list \<Rightarrow> time \<Rightarrow> time \<Rightarrow> time \<Rightarrow> 'sk issue_args" where
  "spare_args room_ids valid_from valid_until issued_at =
     \<lparr>ia_guest_id = lit ''g_ada'', ia_stay_id = lit ''s_ada'', ia_property_id = DEMO_PROPERTY_ID,
      ia_room_ids = room_ids, ia_valid_from = valid_from, ia_valid_until = valid_until,
      ia_issued_at = issued_at, ia_device_sk = None, ia_key_id = None, ia_nonce = None\<rparr>"

definition show_spare ::
  "('sk, 'pk) platform \<Rightarrow> 'sk fresh \<Rightarrow> 'sk \<Rightarrow> 'sk issue_args \<Rightarrow> bytes \<times> 'sk \<Rightarrow> string \<Rightarrow>
     ('pk LockVerifier, pystr) exec" where
  "show_spare P f signer args drawn label =
     bindE (lift_result (issue_credential P f signer args))
       (\<lambda>spare. show_present P drawn label (ik_token spare) (ik_device_sk_b64 spare) False False)"

definition show_replay ::
  "('sk, 'pk) platform \<Rightarrow> bytes \<times> 'sk \<Rightarrow> IssuedKey \<Rightarrow> ('pk LockVerifier, pystr) exec" where
  "show_replay P drawn key =
     (let ch = fst drawn
      in thenE (modify (begin_unlock ch BENCH_START))
           (bindE (lift_result (device_sign P (ik_device_sk_b64 key) ch)) (\<lambda>resp.
            bindE (finish_unlock P (ik_token key) ch resp BENCH_START) (\<lambda>first.
            bindE (finish_unlock P (ik_token key) ch resp BENCH_START) (\<lambda>replay.
            lift_result (demo_line
              (lit ''replayed presentation (1st='' @ outcome_value (outcome first) @ lit '')'') False replay))))))"

definition adversarial_lines ::
  "('sk, 'pk) platform \<Rightarrow> 'sk \<Rightarrow> 'sk \<Rightarrow> (nat \<Rightarrow> 'sk fresh) \<Rightarrow> (nat \<Rightarrow> bytes \<times> 'sk) \<Rightarrow> IssuedKey \<Rightarrow>
     ('pk LockVerifier, pystr list) exec" where
  "adversarial_lines P property_sk attacker f E key =
     for_collect (\<lambda>show. show)
       [show_spare P (f 1) property_sk
          (spare_args [102] (BENCH_START - 10) (BENCH_START + 10) (BENCH_START - 10)) (E 1) ''wrong-room key'',
        show_spare P (f 2) property_sk
          (spare_args [101] (BENCH_START - 100) (BENCH_START - 50) (BENCH_START - 100)) (E 2) ''expired key'',
        show_spare P (f 3) property_sk
          (spare_args [101] (BENCH_START + 100) (BENCH_START + 200) BENCH_START) (E 3)
          ''not-yet-valid key (before check-in)'',
        show_spare P (f 4) attacker
          (spare_args [101] (BENCH_START - 10) (BENCH_START + 10) (BENCH_START - 10)) (E 4)
          ''forged signature (attacker key)'',
        bindE (lift_result (tampered_token P ''valid_until'' (JInt (BENCH_START + 10000000)) key))
          (\<lambda>tampered. show_present P (E 5) ''tampered payload (extended window)'' tampered
                        (ik_device_sk_b64 key) False False),
        show_present P (E 6) ''stolen token, no device key'' (ik_token key) (ik_device_sk_b64 key) True False,
        show_replay P (E 7) key]"

section \<open>The script\<close>

text \<open>
  A guest whose ids are literals, checked in to room 101 with a key; \<open>room\<close> is what
  \<open>assign_room\<close> returned.
\<close>

definition demo_guest ::
  "('sk, 'pk) platform \<Rightarrow> 'sk fresh \<Rightarrow> string \<Rightarrow> string \<Rightarrow> string \<Rightarrow> string \<Rightarrow>
     (('sk, 'pk) AppState, int \<times> IssuedKey) exec" where
  "demo_guest P f gid name email sid app =
     with_db
       (thenE (add_guest (lit gid) (lit name) (lit email))
         (thenE (add_stay (lit sid) (lit gid) (app_property_id app) (lit ''king'')
                   (BENCH_START - 3600) (BENCH_START + 3 * DAY))
           (bindE (assign_room (lit sid) (Some 101)) (\<lambda>room.
              thenE (set_stay_status (lit sid) CHECKED_IN)
                (bindE (issue_for_stay P f (app_property_sk app) (lit sid) BENCH_START)
                  (\<lambda>key. ret (room, key))))))) app"

definition payload_text :: "('sk, 'pk) platform \<Rightarrow> IssuedKey \<Rightarrow> string \<Rightarrow> exn + pystr" where
  "payload_text P key k =
     (case map_of (ik_payload key) (lit k) of
        None \<Rightarrow> Inl KeyError
      | Some v \<Rightarrow> Inr (py_str P v))"

definition bold :: "pystr \<Rightarrow> pystr" where
  "bold s = ansi_B @ s @ ansi_X"

text \<open>The application and the stand-alone lock, and an operation on one of them.\<close>

definition on_app :: "('a, 'r) exec \<Rightarrow> ('a \<times> 'l, 'r) exec" where
  "on_app m = (\<lambda>(app, lk). case m app of (r, app') \<Rightarrow> (r, (app', lk)))"

definition on_lock :: "('l, 'r) exec \<Rightarrow> ('a \<times> 'l, 'r) exec" where
  "on_lock m = (\<lambda>(app, lk). case m lk of (r, lk') \<Rightarrow> (r, (app, lk')))"

definition demo_control ::
  "('sk, 'pk) platform \<Rightarrow> bytes \<times> 'sk \<Rightarrow> int \<Rightarrow> IssuedKey \<Rightarrow> pystr \<Rightarrow> bool \<Rightarrow>
     (('sk, 'pk) AppState, Decision) exec" where
  "demo_control P drawn room_id k cmd wrong_device =
     (case drawn of (challenge, generated) \<Rightarrow>
        thenE (modify (\<lambda>app. app\<lparr>app_connected := begin_command challenge BENCH_START (app_connected app)\<rparr>))
          (bindE (lift_result
                    (if wrong_device then Inr (sign P generated challenge)
                     else device_sign P (ik_device_sk_b64 k) challenge))
            (\<lambda>response app.
               case authorize P room_id cmd (ik_token k) challenge response BENCH_START
                      (app_connected app, app_db app) of
                 (r, cr, d) \<Rightarrow> (r, app\<lparr>app_connected := cr, app_db := d\<rparr>))))"

definition own_room_line :: "Decision \<Rightarrow> pystr" where
  "own_room_line d =
     lit ''  ['' @ (if allowed d then lit ''OK'' else lit ''WRONG'') @
     lit ''] guest controls own room 101 thermostat -> '' @ (if allowed d then lit ''ALLOW'' else lit ''DENY'')"

definition other_room_line :: "Decision \<Rightarrow> exn + pystr" where
  "other_room_line d =
     (let text = (\<lambda>verdict. lit ''  ['' @ (if \<not> allowed d then lit ''OK'' else lit ''WRONG'') @
        lit ''] guest tries room 102 TV (cross-room) -> '' @ verdict)
      in if allowed d then Inr (text (lit ''ALLOW''))
         else (case reason_text d of
                 Inl e \<Rightarrow> Inl e
               | Inr r \<Rightarrow> Inr (text (lit ''DENY ('' @ r @ lit '')''))))"

text \<open>Sections 1 and 2, up to the lock: what was printed, and the key.\<close>

definition demo_begin ::
  "('sk, 'pk) platform \<Rightarrow> 'sk fresh \<Rightarrow> (('sk, 'pk) AppState, pystr list \<times> IssuedKey) exec" where
  "demo_begin P f =
     thenE (for_each add_king [101, 102])
       (bindE (query app_property_id) (\<lambda>property_id.
        bindE (demo_guest P f ''g_ada'' ''Ada Lovelace'' ''ada@example.com'' ''s_ada'') (\<lambda>(room, key).
        bindE (lift_result (payload_text P key ''valid_from'')) (\<lambda>valid_from.
        bindE (lift_result (payload_text P key ''valid_until'')) (\<lambda>valid_until.
        ret ([10 # bold (lit ''StayKey '' @ [8212] @ lit '' offline Digital Key demo'') @
                lit ''  (property '' @ property_id @ lit '')'',
              bold (lit ''1) Reserve + check-in + issue signed key''),
              lit ''  assigned room '' @ dec_int room @ lit ''; key_id='' @ take 12 (ik_key_id key) @
                lit ''...  window=['' @ valid_from @ lit '', '' @ valid_until @ lit '']'',
              10 # bold (lit ''2) OFFLINE lock (holds only property public key + revocation list)'')],
             key))))))"

text \<open>Sections 4 and 5.\<close>

definition demo_end ::
  "('sk, 'pk) platform \<Rightarrow> (nat \<Rightarrow> 'sk fresh) \<Rightarrow> (nat \<Rightarrow> bytes \<times> 'sk) \<Rightarrow> IssuedKey \<Rightarrow>
     (('sk, 'pk) AppState \<times> 'pk LockVerifier, pystr list) exec" where
  "demo_end P f E key =
     bindE (on_app (with_db (checkout (lit ''s_ada'') BENCH_START))) (\<lambda>revoked.
     bindE (on_app (with_db revocation_list)) (\<lambda>listed.
     thenE (on_lock (modify (sync_revocations listed)))
       (bindE (on_lock (show_present P (E 8) ''revoked key within its original window'' (ik_token key)
                  (ik_device_sk_b64 key) False False)) (\<lambda>revoked_line.
        bindE (on_app (demo_guest P (f 5) ''g_ben'' ''Ben'' ''ben@example.com'' ''s_ben'')) (\<lambda>(room, key2).
        bindE (on_app (demo_control P (E 9) 101 key2 (lit ''thermostat'') False)) (\<lambda>d.
        bindE (on_app (demo_control P (E 10) 102 key2 (lit ''tv'') False)) (\<lambda>d2.
        bindE (lift_result (other_room_line d2)) (\<lambda>other_line. ret
          [10 # bold (lit ''4) Checkout revokes the key (synced to the lock)''),
           lit ''  revoked key_ids: '' @ py_str P (JArr (map (\<lambda>k. JStr (take 12 k @ lit ''...'')) revoked)),
           revoked_line,
           10 # bold (lit ''5) Connected-Room control scoped to the active stay''),
           own_room_line d, other_line,
           10 # ansi_G @ ansi_B @ lit ''Demo complete '' @ [8212] @
             lit '' every adversarial presentation was denied, offline.'' @ ansi_X @ [10]]))))))))"

definition demo_main ::
  "('sk, 'pk) platform \<Rightarrow> 'sk \<Rightarrow> 'sk \<Rightarrow> (nat \<Rightarrow> 'sk fresh) \<Rightarrow> (nat \<Rightarrow> bytes \<times> 'sk) \<Rightarrow> exn + pystr list" where
  "demo_main P property_sk attacker f E =
     (case new_app P DEMO_PROPERTY_ID property_sk init_db of
        Inl e \<Rightarrow> Inl e
      | Inr app \<Rightarrow>
          (case demo_begin P (f 0) app of
             (Inl e, _) \<Rightarrow> Inl e
           | (Inr (opening, key), app') \<Rightarrow>
               (case new_lock P (app_property_id app') 101 (app_property_pub_raw app')
                       (map re_key_id (revocations (app_db app'))) of
                  Inl e \<Rightarrow> Inl e
                | Inr lk \<Rightarrow>
                    fst (bindE (on_lock (show_present P (E 0) ''legitimate in-window key'' (ik_token key)
                                  (ik_device_sk_b64 key) False True)) (\<lambda>legit_line.
                         bindE (on_lock (adversarial_lines P property_sk attacker f E key)) (\<lambda>denials.
                         bindE (demo_end P f E key) (\<lambda>closing. ret
                           (opening @ [legit_line, 10 # bold (lit ''3) Adversarial presentations (all must DENY)'')] @
                            denials @ closing)))) (app', lk)))))"

end
