(* ===== verification/Demo_Properties.thy ===== *)
theory Demo_Properties
  imports Demo Scope_Facts Security_Properties
begin

text \<open>
  The demo as a theorem: what each line of the script prints, so that its closing claim, every
  adversarial presentation denied, holds of every run.
\<close>

section \<open>A line of the demo\<close>

text \<open>The line for a decision whose reason is \<open>v\<close>, and a decision that has it.\<close>

definition shown :: "pystr \<Rightarrow> bool \<Rightarrow> DenyReason option \<Rightarrow> pystr" where
  "shown label expect v =
     lit ''  ['' @ (if (v = None) = expect then ansi_G @ lit ''OK'' @ ansi_X else ansi_R @ lit ''WRONG'' @ ansi_X) @
     lit ''] '' @ pad_right 42 label @ lit '' -> '' @
     (case v of None \<Rightarrow> ansi_G @ lit ''UNLOCK'' @ ansi_X
      | Some r \<Rightarrow> ansi_R @ lit ''DENY ('' @ reason_value r @ lit '')'' @ ansi_X)"

definition decides :: "Decision \<Rightarrow> DenyReason option \<Rightarrow> bool" where
  "decides d v \<longleftrightarrow> reason d = v \<and> (unlocked d \<longleftrightarrow> v = None)"

lemma demo_line_shown: "decides d v \<Longrightarrow> demo_line label expect d = Inr (shown label expect v)"
  by (cases v) (simp_all add: decides_def demo_line_def shown_def reason_text_def Let_def)

lemma decides_simps [simp]: "decides (verdict k v) v" "decides (deny r k') (Some r)"
  by (simp_all add: decides_def)

section \<open>At the door\<close>

text \<open>
  The lock of room 101 once \<open>i\<close> nonces are drawn, and a part of the script that prints \<open>t\<close>
  with the next one.
\<close>

definition at_door ::
  "('sk, 'pk) platform \<Rightarrow> 'sk \<Rightarrow> pystr set \<Rightarrow> (nat \<Rightarrow> bytes \<times> 'sk) \<Rightarrow> nat \<Rightarrow> 'pk LockVerifier \<Rightarrow> bool" where
  "at_door P sk R E i lk \<longleftrightarrow> guards DEMO_PROPERTY_ID 101 (public_key P sk) R (fired E i) lk"

definition prints ::
  "('sk, 'pk) platform \<Rightarrow> 'sk \<Rightarrow> pystr set \<Rightarrow> (nat \<Rightarrow> bytes \<times> 'sk) \<Rightarrow> nat \<Rightarrow>
     ('pk LockVerifier, pystr) exec \<Rightarrow> pystr \<Rightarrow> bool" where
  "prints P sk R E i m t \<longleftrightarrow>
     (\<forall>lk. at_door P sk R E i lk \<longrightarrow> (\<exists>lk'. m lk = (Inr t, lk') \<and> at_door P sk R E (Suc i) lk'))"

lemma prints_run:
  assumes "prints P sk R E i m t" "at_door P sk R E i lk"
  obtains lk' where "m lk = (Inr t, lk')" "at_door P sk R E (Suc i) lk'"
  using assms by (auto simp: prints_def)

lemma at_door_begin:
  assumes "inj (\<lambda>j. fst (E j))" "at_door P sk R E i lk"
  shows "at_door P sk R E (Suc i) (begin_unlock (fst (E i)) t lk)"
    and "check (lock_challenges (begin_unlock (fst (E i)) t lk)) (fst (E i)) t = OK"
proof -
  have "fst (E i) \<notin> fired E i" using assms(1) by (auto simp: fired_def dest: injD)
  note begun = guards_begin [OF assms(2) [unfolded at_door_def] this, of t]
  show "at_door P sk R E (Suc i) (begin_unlock (fst (E i)) t lk)"
    using begun(1) by (simp add: at_door_def fired_Suc)
  show "check (lock_challenges (begin_unlock (fst (E i)) t lk)) (fst (E i)) t = OK" by (rule begun(2))
qed

text \<open>A presentation prints its verdict, once the lock's answer to the response is known.\<close>

lemma prints_present:
  assumes "inj (\<lambda>j. fst (E j))"
    and "(if wrong then Inr (sign P (snd (E i)) (fst (E i))) else device_sign P dsk (fst (E i))) = Inr resp"
    and "\<And>lk. at_door P sk R E (Suc i) lk \<Longrightarrow> check (lock_challenges lk) (fst (E i)) BENCH_START = OK \<Longrightarrow>
      \<exists>d lk'. finish_unlock P token (fst (E i)) resp BENCH_START lk = (Inr d, lk') \<and>
        at_door P sk R E (Suc i) lk' \<and> decides d v"
  shows "prints P sk R E i (show_present P (E i) label token dsk wrong expect) (shown (lit label) expect v)"
  unfolding prints_def
proof (intro allI impI)
  fix lk
  assume "at_door P sk R E i lk"
  note begun = at_door_begin [OF assms(1) this, of BENCH_START]
  obtain d lk' where d: "finish_unlock P token (fst (E i)) resp BENCH_START (begin_unlock (fst (E i)) BENCH_START lk) = (Inr d, lk')"
    "at_door P sk R E (Suc i) lk'" "decides d v"
    using assms(3) [OF begun] by blast
  have "show_present P (E i) label token dsk wrong expect lk = (Inr (shown (lit label) expect v), lk')"
    using d(1) assms(2) demo_line_shown [OF d(3)]
    by (cases "E i"; cases wrong) (simp_all add: show_present_def demo_present_def lift_result_def)
  then show "\<exists>lk'. show_present P (E i) label token dsk wrong expect lk = (Inr (shown (lit label) expect v), lk') \<and>
      at_door P sk R E (Suc i) lk'" using d(2) by blast
qed

text \<open>A key the property issued, to its own device.\<close>

lemma prints_key:
  assumes "ed25519 P" "inj (\<lambda>j. fst (E j))" "args_ok f a" "issue_credential P f sk a = Inr ik"
    and "issued_decision (ik_key_id ik) a DEMO_PROPERTY_ID 101 BENCH_START R = v"
  shows "prints P sk R E i (show_present P (E i) label (ik_token ik) (ik_device_sk_b64 ik) False expect)
    (shown (lit label) expect v)"
proof (rule prints_present [OF assms(2)])
  show "(if False then Inr (sign P (snd (E i)) (fst (E i))) else device_sign P (ik_device_sk_b64 ik) (fst (E i))) =
      Inr (sign P (device_key f a) (fst (E i)))"
    using device_sign_issued [OF assms(1,4)] by simp
  fix lk
  assume lk: "at_door P sk R E (Suc i) lk" "check (lock_challenges lk) (fst (E i)) BENCH_START = OK"
  from guards_present [where t = BENCH_START, OF assms(1,3,4) lk(1) [unfolded at_door_def] lk(2)]
  show "\<exists>d lk'. finish_unlock P (ik_token ik) (fst (E i)) (sign P (device_key f a) (fst (E i))) BENCH_START lk = (Inr d, lk') \<and>
      at_door P sk R E (Suc i) lk' \<and> decides d v"
    unfolding assms(5) at_door_def by (metis decides_simps(1))
qed

text \<open>A token the property did not sign, and a token without its device.\<close>

lemma prints_unsigned:
  assumes "inj (\<lambda>j. fst (E j))" "parse_token P token = Inr (Some t)"
    and "\<not> signature_ok P (public_key P sk) (pt_payload_bytes t) (pt_signature t)"
    and "device_sign P dsk (fst (E i)) = Inr resp"
  shows "prints P sk R E i (show_present P (E i) label token dsk False expect)
    (shown (lit label) expect (Some FORGED_SIGNATURE))"
proof (rule prints_present [OF assms(1), where resp = resp])
  fix lk
  assume lk: "at_door P sk R E (Suc i) lk"
  have "finish_unlock P token (fst (E i)) resp BENCH_START lk = (Inr (deny FORGED_SIGNATURE None), lk)"
    using finish_unlock_unsigned [of P token lk] assms(2,3) guardsD(3) [OF lk [unfolded at_door_def]] by simp
  then show "\<exists>d lk'. finish_unlock P token (fst (E i)) resp BENCH_START lk = (Inr d, lk') \<and>
      at_door P sk R E (Suc i) lk' \<and> decides d (Some FORGED_SIGNATURE)"
    using lk by simp
qed (use assms(4) in simp)

lemma prints_stolen:
  assumes "ed25519 P" "inj (\<lambda>j. fst (E j))" "args_ok f a" "issue_credential P f sk a = Inr ik"
    and "issued_decision (ik_key_id ik) a DEMO_PROPERTY_ID 101 BENCH_START R = None"
    and "keys_apart P (device_key f a) (snd (E i))"
  shows "prints P sk R E i (show_present P (E i) label (ik_token ik) (ik_device_sk_b64 ik) True expect)
    (shown (lit label) expect (Some BAD_RESPONSE))"
proof (rule prints_present [OF assms(2), where resp = "sign P (snd (E i)) (fst (E i))"])
  fix lk
  assume lk: "at_door P sk R E (Suc i) lk" "check (lock_challenges lk) (fst (E i)) BENCH_START = OK"
  note lk' = guardsD [OF lk(1) [unfolded at_door_def]]
  have "finish_unlock P (ik_token ik) (fst (E i)) (sign P (snd (E i)) (fst (E i))) BENCH_START lk =
      (Inr (deny BAD_RESPONSE (Some (ik_key_id ik))), lk)"
    by (rule finish_unlock_wrong_device [OF assms(1,3,4) lk'(3) _ lk(2)])
      (use assms(5,6) in \<open>simp_all add: lk' keys_apart_def\<close>)
  then show "\<exists>d lk'. finish_unlock P (ik_token ik) (fst (E i)) (sign P (snd (E i)) (fst (E i))) BENCH_START lk = (Inr d, lk') \<and>
      at_door P sk R E (Suc i) lk' \<and> decides d (Some BAD_RESPONSE)"
    using lk(1) by simp
qed simp

lemma prints_replay:
  assumes "ed25519 P" "inj (\<lambda>j. fst (E j))" "args_ok f a" "issue_credential P f sk a = Inr ik"
    and "issued_decision (ik_key_id ik) a DEMO_PROPERTY_ID 101 BENCH_START R = None"
  shows "prints P sk R E i (show_replay P (E i) ik)
    (shown (lit ''replayed presentation (1st=unlock)'') False (Some REPLAYED))"
  unfolding prints_def
proof (intro allI impI)
  fix lk
  assume lk: "at_door P sk R E i lk"
  let ?c = "fst (E i)" and ?lk = "begin_unlock (fst (E i)) BENCH_START lk"
  note begun = at_door_begin [OF assms(2) lk, of BENCH_START]
  note lk' = guardsD [OF begun(1) [unfolded at_door_def]]
  have opens: "opens P ?lk (ik_token ik) ?c (sign P (device_key f a) ?c) BENCH_START (sorted_payload (ik_payload ik))"
    by (rule opens_issued [OF assms(1,3,4) lk'(3) _ begun(2)])
      (use assms(1,5) in \<open>simp_all add: lk' ed25519_simps\<close>)
  have dev: "device_sign P (ik_device_sk_b64 ik) ?c = Inr (sign P (device_key f a) ?c)"
    by (rule device_sign_issued [OF assms(1,4)])
  have label: "lit ''replayed presentation (1st='' @ outcome_value (outcome (unlock k)) @ lit '')'' =
      lit ''replayed presentation (1st=unlock)''" for k
    by (simp add: unlock_def outcome_value_def lit_def)
  have "show_replay P (E i) ik lk =
      (Inr (shown (lit ''replayed presentation (1st=unlock)'') False (Some REPLAYED)), after_unlock ?c BENCH_START ?lk)"
    using dev finish_unlock_opens [OF opens] finish_unlock_again [OF opens, of BENCH_START]
      demo_line_shown [OF decides_simps(2)]
    by (simp add: show_replay_def Let_def lift_result_def label del: append.simps)
  moreover have "at_door P sk R E (Suc i) (after_unlock ?c BENCH_START ?lk)"
    using guards_after [OF begun(1) [unfolded at_door_def] begun(2)] by (simp add: at_door_def)
  ultimately show "\<exists>lk'. show_replay P (E i) ik lk =
      (Inr (shown (lit ''replayed presentation (1st=unlock)'') False (Some REPLAYED)), lk') \<and>
      at_door P sk R E (Suc i) lk'" by blast
qed

section \<open>The adversarial presentations\<close>

text \<open>Parts of the script that print one line each, one after the other.\<close>

definition collects ::
  "('sk, 'pk) platform \<Rightarrow> 'sk \<Rightarrow> pystr set \<Rightarrow> (nat \<Rightarrow> bytes \<times> 'sk) \<Rightarrow> nat \<Rightarrow>
     ('pk LockVerifier, pystr) exec list \<Rightarrow> pystr list \<Rightarrow> bool" where
  "collects P sk R E i ms ts \<longleftrightarrow>
     (\<forall>lk. at_door P sk R E i lk \<longrightarrow>
        (\<exists>lk'. for_collect (\<lambda>m. m) ms lk = (Inr ts, lk') \<and> at_door P sk R E (i + length ms) lk'))"

lemma collects_Nil: "collects P sk R E i [] []"
  by (simp add: collects_def)

lemma collectsD:
  "collects P sk R E i ms ts \<Longrightarrow> at_door P sk R E i lk \<Longrightarrow> i + length ms = j \<Longrightarrow>
     \<exists>lk'. for_collect (\<lambda>m. m) ms lk = (Inr ts, lk') \<and> at_door P sk R E j lk'"
  by (auto simp: collects_def)

lemma collects_Cons:
  assumes "prints P sk R E i m t" "j = Suc i" "collects P sk R E j ms ts"
  shows "collects P sk R E i (m # ms) (t # ts)"
  unfolding collects_def
proof (intro allI impI)
  fix lk
  assume "at_door P sk R E i lk"
  from prints_run [OF assms(1) this] obtain lk1 where one: "m lk = (Inr t, lk1)" "at_door P sk R E j lk1"
    unfolding assms(2) by blast
  obtain lk2 where more: "for_collect (\<lambda>m. m) ms lk1 = (Inr ts, lk2)" "at_door P sk R E (j + length ms) lk2"
    using assms(3) one(2) by (auto simp: collects_def)
  show "\<exists>lk'. for_collect (\<lambda>m. m) (m # ms) lk = (Inr (t # ts), lk') \<and> at_door P sk R E (i + length (m # ms)) lk'"
    using one(1) more assms(2) by simp
qed

text \<open>The credentials that are issued beside the stay's key.\<close>

lemma spare_args_simps [simp]:
  "ia_property_id (spare_args rs i u n) = DEMO_PROPERTY_ID" "ia_room_ids (spare_args rs i u n) = rs"
  "ia_valid_from (spare_args rs i u n) = i" "ia_valid_until (spare_args rs i u n) = u"
  "ia_key_id (spare_args rs i u n) = None" "device_key f (spare_args rs i u n) = fresh_sk f"
  by (simp_all add: spare_args_def device_key_def)

lemma spare_args_ok:
  assumes "fresh_ok f" "\<bar>i\<bar> \<le> 2 ^ 63" "\<bar>u\<bar> \<le> 2 ^ 63" "\<bar>n\<bar> \<le> 2 ^ 63" "\<forall>r \<in> set rs. \<bar>r\<bar> \<le> 2 ^ 63"
  shows "args_ok f (spare_args rs i u n)"
proof -
  have "text_ok DEMO_PROPERTY_ID" by (simp add: DEMO_PROPERTY_ID_def)
  then show ?thesis
    using assms by (simp add: args_ok_def fresh_ok_def list_all_iff short_int_64)
      (simp add: spare_args_def short_int_64)
qed

lemma prints_spare:
  assumes "issue_credential P f signer a = Inr ik"
    and "prints P sk R E i (show_present P (E i) label (ik_token ik) (ik_device_sk_b64 ik) False False) t"
  shows "prints P sk R E i (show_spare P f signer a (E i) label) t"
  using assms(2) by (simp add: prints_def show_spare_def assms(1) lift_result_def)

lemma prints_spare_key:
  assumes "ed25519 P" "inj (\<lambda>j. fst (E j))" "fresh_ok (f :: 'sk fresh)"
    and "\<bar>i\<bar> \<le> 2 ^ 63" "\<bar>u\<bar> \<le> 2 ^ 63" "\<bar>n\<bar> \<le> 2 ^ 63" "\<forall>r \<in> set rs. \<bar>r\<bar> \<le> 2 ^ 63" "i < u"
    and "issued_decision (fresh_uuid f) (spare_args rs i u n :: 'sk issue_args) DEMO_PROPERTY_ID 101 BENCH_START R = v"
  shows "prints P sk R E k (show_spare P f sk (spare_args rs i u n) (E k) label) (shown (lit label) False v)"
proof -
  note ok = spare_args_ok [OF assms(3-7)]
  obtain ik where ik: "issue_credential P f sk (spare_args rs i u n) = Inr ik"
    by (rule issue_credential_Inr [OF ok, of P sk]) (use assms(8) in simp_all)
  show ?thesis
    by (rule prints_spare [OF ik prints_key [OF assms(1,2) ok ik]])
      (use assms(9) issued_fields(1) [OF ik] in simp)
qed

lemma prints_forged:
  assumes "ed25519 P" "inj (\<lambda>j. fst (E j))" "fresh_ok f" "keys_apart P sk attacker"
    and "\<bar>i\<bar> \<le> 2 ^ 63" "\<bar>u\<bar> \<le> 2 ^ 63" "\<bar>n\<bar> \<le> 2 ^ 63" "\<forall>r \<in> set rs. \<bar>r\<bar> \<le> 2 ^ 63" "i < u"
  shows "prints P sk R E k (show_spare P f attacker (spare_args rs i u n) (E k) label)
    (shown (lit label) False (Some FORGED_SIGNATURE))"
proof -
  note ok = spare_args_ok [OF assms(3,5-8)]
  obtain ik where ik: "issue_credential P f attacker (spare_args rs i u n) = Inr ik"
    by (rule issue_credential_Inr [OF ok, of P attacker]) (use assms(9) in simp_all)
  obtain t where "parse_token P (ik_token ik) = Inr (Some t)"
    "\<not> signature_ok P (public_key P sk) (pt_payload_bytes t) (pt_signature t)"
    by (rule forged_unsigned [OF ok ik assms(4)])
  then show ?thesis
    by (rule prints_spare [OF ik prints_unsigned [OF assms(2) _ _ device_sign_issued [OF assms(1) ik]]])
qed

lemma prints_tampered:
  assumes "ed25519 P" "inj (\<lambda>j. fst (E j))" "args_ok f a" "issue_credential P f sk a = Inr ik"
    and "signs_one P sk" "u \<noteq> ia_valid_until a" "short_int u"
  shows "prints P sk R E i
    (bindE (lift_result (tampered_token P ''valid_until'' (JInt u) ik))
       (\<lambda>tampered. show_present P (E i) label tampered (ik_device_sk_b64 ik) False False))
    (shown (lit label) False (Some FORGED_SIGNATURE))"
proof -
  obtain token t where token: "tampered_token P ''valid_until'' (JInt u) ik = Inr token"
    "parse_token P token = Inr (Some t)" "\<not> signature_ok P (public_key P sk) (pt_payload_bytes t) (pt_signature t)"
    by (rule tampered_unsigned [OF assms(3-7)])
  show ?thesis
    using prints_unsigned [OF assms(2) token(2,3) device_sign_issued [OF assms(1,4)],
      where i = i and R = R and label = label and expect = False]
    by (simp add: prints_def token(1) lift_result_def)
qed

text \<open>The lines of section 3, for the key of the guest in room 101.\<close>

definition demo_denials :: "pystr list" where
  "demo_denials =
     [shown (lit ''wrong-room key'') False (Some WRONG_ROOM),
      shown (lit ''expired key'') False (Some EXPIRED),
      shown (lit ''not-yet-valid key (before check-in)'') False (Some NOT_YET_VALID),
      shown (lit ''forged signature (attacker key)'') False (Some FORGED_SIGNATURE),
      shown (lit ''tampered payload (extended window)'') False (Some FORGED_SIGNATURE),
      shown (lit ''stolen token, no device key'') False (Some BAD_RESPONSE),
      shown (lit ''replayed presentation (1st=unlock)'') False (Some REPLAYED)]"

text \<open>
  What the draws of the script are assumed to be: Unicode ids, those of the two keys distinct,
  a nonce of its own for each presentation, and keys whose signatures are told apart.
\<close>

definition demo_draws ::
  "('sk, 'pk) platform \<Rightarrow> 'sk \<Rightarrow> 'sk \<Rightarrow> (nat \<Rightarrow> 'sk fresh) \<Rightarrow> (nat \<Rightarrow> bytes \<times> 'sk) \<Rightarrow> bool" where
  "demo_draws P sk attacker f E \<longleftrightarrow>
     (\<forall>i. fresh_ok (f i)) \<and> fresh_uuid (f 5) \<noteq> fresh_uuid (f 0) \<and> inj (\<lambda>j. fst (E j)) \<and>
     signs_one P sk \<and> keys_apart P sk attacker \<and> keys_apart P (fresh_sk (f 0)) (snd (E 6))"

lemma bench_key_decision:
  assumes "bench_key P sk f s 101 ik"
  shows "issued_decision (ik_key_id ik) (stay_args f s 101 BENCH_START) DEMO_PROPERTY_ID 101 BENCH_START R =
    (if fresh_uuid f \<in> R then Some REVOKED else None)"
proof -
  note ik = assms [unfolded bench_key_def bench_stay_row_def]
  have "bench_verdict 101 101 BENCH_START r = (if r then Some REVOKED else None)" for r
    by (simp add: bench_verdict_now)
  then show ?thesis using ik by (simp add: stay_key_verdict bench_verdict_def bench_until_def)
qed

lemma adversarial_run:
  assumes "ed25519 P" "demo_draws P sk attacker f E" "bench_key P sk (f 0) s 101 key" "at_door P sk {} E 1 lk"
  obtains lk' where "adversarial_lines P sk attacker f E key lk = (Inr demo_denials, lk')" "at_door P sk {} E 8 lk'"
proof -
  have draws: "\<And>i. fresh_ok (f i)" "inj (\<lambda>j. fst (E j))" "signs_one P sk" "keys_apart P sk attacker"
    "keys_apart P (fresh_sk (f 0)) (snd (E 6))"
    using assms(2) by (simp_all add: demo_draws_def)
  have key: "args_ok (f 0) (stay_args (f 0) s 101 BENCH_START)"
    "issue_credential P (f 0) sk (stay_args (f 0) s 101 BENCH_START) = Inr key"
    using assms(3) by (simp_all add: bench_key_def)
  have fine: "issued_decision (ik_key_id key) (stay_args (f 0) s 101 BENCH_START) DEMO_PROPERTY_ID 101 BENCH_START {} = None"
    using bench_key_decision [OF assms(3)] by simp
  have apart: "keys_apart P (device_key (f 0) (stay_args (f 0) s 101 BENCH_START)) (snd (E 6))"
    using draws(5) by simp
  have late: "BENCH_START + 10000000 \<noteq> ia_valid_until (stay_args (f 0) s 101 BENCH_START)"
    "short_int (BENCH_START + 10000000)"
    by (simp_all add: short_int_64 BENCH_START_def KEY_TTL_SECONDS_def)
  note spare = prints_spare_key [OF assms(1) draws(2,1), where R = "{}" and sk = sk]
  have wrong_room: "prints P sk {} E 1 (show_spare P (f 1) sk
      (spare_args [102] (BENCH_START - 10) (BENCH_START + 10) (BENCH_START - 10)) (E 1) ''wrong-room key'')
      (shown (lit ''wrong-room key'') False (Some WRONG_ROOM))"
    by (rule spare) (simp_all add: issued_decision_def BENCH_START_def)
  have expired: "prints P sk {} E 2 (show_spare P (f 2) sk
      (spare_args [101] (BENCH_START - 100) (BENCH_START - 50) (BENCH_START - 100)) (E 2) ''expired key'')
      (shown (lit ''expired key'') False (Some EXPIRED))"
    by (rule spare) (simp_all add: issued_decision_def BENCH_START_def)
  have early: "prints P sk {} E 3 (show_spare P (f 3) sk
      (spare_args [101] (BENCH_START + 100) (BENCH_START + 200) BENCH_START) (E 3)
        ''not-yet-valid key (before check-in)'')
      (shown (lit ''not-yet-valid key (before check-in)'') False (Some NOT_YET_VALID))"
    by (rule spare) (simp_all add: issued_decision_def BENCH_START_def)
  have forged: "prints P sk {} E 4 (show_spare P (f 4) attacker
      (spare_args [101] (BENCH_START - 10) (BENCH_START + 10) (BENCH_START - 10)) (E 4)
        ''forged signature (attacker key)'')
      (shown (lit ''forged signature (attacker key)'') False (Some FORGED_SIGNATURE))"
    by (rule prints_forged [OF assms(1) draws(2,1,4)]) (simp_all add: BENCH_START_def)
  note tampered = prints_tampered [where R = "{}" and i = 5 and label = "''tampered payload (extended window)''",
      OF assms(1) draws(2) key draws(3) late]
  note stolen = prints_stolen [where i = 6 and label = "''stolen token, no device key''" and expect = False,
      OF assms(1) draws(2) key fine apart]
  note replay = prints_replay [where i = 7, OF assms(1) draws(2) key fine]
  have "\<exists>lk'. adversarial_lines P sk attacker f E key lk = (Inr demo_denials, lk') \<and> at_door P sk {} E 8 lk'"
    unfolding adversarial_lines_def demo_denials_def
    by (rule collectsD [OF collects_Cons [OF wrong_room _ collects_Cons [OF expired _ collects_Cons [OF early _
      collects_Cons [OF forged _ collects_Cons [OF tampered _ collects_Cons [OF stolen _
      collects_Cons [OF replay refl collects_Nil]]]]]]] assms(4)]) simp_all
  then show ?thesis using that by blast
qed

section \<open>Guests and controls\<close>

lemma demo_guest_run:
  assumes "at_bench P sk used d app" "db_ok d" "fresh_ok f"
    and "lit gid \<notin> gu_guest_id ` set (guests d)" "lit sid \<notin> st_stay_id ` set (stays d)"
    and "fresh_uuid f \<notin> ke_key_id ` set (keys d)" "king_room 101 \<in> set (rooms d)"
    and "\<forall>a \<in> active_rows d. as_room_id a \<noteq> 101"
  obtains s ik d' app' where "demo_guest P f gid name email sid app = (Inr (101, ik), app')"
    "at_bench P sk used (keyed ik s 101 BENCH_START d') app'" "db_ok (keyed ik s 101 BENCH_START d')"
    "arrived s 101 d d'" "bench_key P sk f s 101 ik" "st_stay_id s = lit sid" "st_guest_id s = lit gid"
proof -
  have app: "bench_app P sk used app" "app_db app = d" using assms(1) by (simp_all add: at_bench_def)
  have texts: "\<forall>x \<in> {lit gid, lit name, lit email, lit sid, lit ''king''}. clean x" by simp
  have room: "list_ex (\<lambda>ro. ro_room_id ro = 101 \<and> ro_property_id ro = DEMO_PROPERTY_ID) (rooms d)"
    using assms(7) by (force simp: list_ex_iff)
  obtain s ik d' where g: "arrived s 101 d d'" "bench_key P sk f s 101 ik" "db_ok (keyed ik s 101 BENCH_START d')"
    "st_stay_id s = lit sid" "st_guest_id s = lit gid"
    "\<forall>k :: int \<Rightarrow> IssuedKey \<Rightarrow> (db, int \<times> IssuedKey) exec.
       thenE (add_guest (lit gid) (lit name) (lit email))
         (thenE (add_stay (lit sid) (lit gid) DEMO_PROPERTY_ID (lit ''king'') (BENCH_START - 3600) (BENCH_START + 3 * DAY))
           (bindE (assign_room (lit sid) (Some 101)) (\<lambda>room. thenE (set_stay_status (lit sid) CHECKED_IN)
             (bindE (issue_for_stay P f sk (lit sid) BENCH_START) (k room))))) d =
       k 101 ik (keyed ik s 101 BENCH_START d')"
    using guest_with_key [OF assms(2) texts assms(3-6) room assms(8) refl, where 'a = "int \<times> IssuedKey"] by blast
  have "demo_guest P f gid name email sid app = (Inr (101, ik), app\<lparr>app_db := keyed ik s 101 BENCH_START d'\<rparr>)"
    using app g(6) [THEN spec, of "\<lambda>room key. ret (room, key)"]
    by (simp add: demo_guest_def with_db_def bench_appD)
  moreover have "at_bench P sk used (keyed ik s 101 BENCH_START d') (app\<lparr>app_db := keyed ik s 101 BENCH_START d'\<rparr>)"
    using app(1) by (simp add: at_bench_def)
  ultimately show ?thesis using that g(1-5) by blast
qed

lemma demo_control_scope: "demo_control = scope_control"
  by (intro ext) (simp add: demo_control_def scope_control_def)

section \<open>The run\<close>

text \<open>What the script prints, for the id \<open>k\<close> of the guest's key.\<close>

definition demo_opening :: "pystr \<Rightarrow> pystr list" where
  "demo_opening k =
     [10 # bold (lit ''StayKey '' @ [8212] @ lit '' offline Digital Key demo'') @
        lit ''  (property HILTON-DEMO-001)'',
      bold (lit ''1) Reserve + check-in + issue signed key''),
      lit ''  assigned room 101; key_id='' @ take 12 k @
        lit ''...  window=['' @ dec_int (BENCH_START - 3600) @ lit '', '' @ dec_int bench_until @ lit '']'',
      10 # bold (lit ''2) OFFLINE lock (holds only property public key + revocation list)'')]"

definition demo_closing :: "('sk, 'pk) platform \<Rightarrow> pystr \<Rightarrow> pystr list" where
  "demo_closing P k =
     [10 # bold (lit ''4) Checkout revokes the key (synced to the lock)''),
      lit ''  revoked key_ids: '' @ py_str P (JArr [JStr (take 12 k @ lit ''...'')]),
      shown (lit ''revoked key within its original window'') False (Some REVOKED),
      10 # bold (lit ''5) Connected-Room control scoped to the active stay''),
      lit ''  [OK] guest controls own room 101 thermostat -> ALLOW'',
      lit ''  [OK] guest tries room 102 TV (cross-room) -> DENY (wrong_room)'',
      10 # ansi_G @ ansi_B @ lit ''Demo complete '' @ [8212] @
        lit '' every adversarial presentation was denied, offline.'' @ ansi_X @ [10]]"

definition demo_transcript :: "('sk, 'pk) platform \<Rightarrow> pystr \<Rightarrow> pystr list" where
  "demo_transcript P k =
     demo_opening k @ [shown (lit ''legitimate in-window key'') True None,
       10 # bold (lit ''3) Adversarial presentations (all must DENY)'')] @ demo_denials @ demo_closing P k"

lemma demo_begin_run:
  assumes "at_bench P sk {} init_db app" "fresh_ok f"
  obtains s key d app' where "demo_begin P f app = (Inr (demo_opening (fresh_uuid f), key), app')"
    "at_bench P sk {} (keyed key s 101 BENCH_START d) app'" "db_ok (keyed key s 101 BENCH_START d)"
    "arrived s 101 (init_db\<lparr>rooms := [king_room 101, king_room 102]\<rparr>) d" "bench_key P sk f s 101 key"
    "st_stay_id s = lit ''s_ada''" "st_guest_id s = lit ''g_ada''"
proof -
  let ?d = "init_db\<lparr>rooms := [king_room 101, king_room 102]\<rparr>"
  obtain app1 where app1: "for_each add_king [101, 102] app = (Inr (), app1)" "at_bench P sk {} ?d app1"
    by (rule add_kings [OF assms(1)])
  have owner: "query app_property_id app1 = (Inr DEMO_PROPERTY_ID, app1)"
    using app1(2) bench_appD(1) by (auto simp: at_bench_def)
  obtain s key d app2 where g: "demo_guest P f ''g_ada'' ''Ada Lovelace'' ''ada@example.com'' ''s_ada'' app1 =
      (Inr (101, key), app2)"
    "at_bench P sk {} (keyed key s 101 BENCH_START d) app2" "db_ok (keyed key s 101 BENCH_START d)"
    "arrived s 101 ?d d" "bench_key P sk f s 101 key" "st_stay_id s = lit ''s_ada''" "st_guest_id s = lit ''g_ada''"
    by (rule demo_guest_run [OF app1(2) kings_ok assms(2)]) (simp_all add: init_db_def active_rows_def)
  note issued = g(5) [unfolded bench_key_def bench_stay_row_def]
  have "issue_credential P f sk (stay_args f s 101 BENCH_START) = Inr key" using issued by simp
  note fields = issued_fields(2) [OF this]
  have window: "payload_text P key ''valid_from'' = Inr (dec_int (BENCH_START - 3600))"
    "payload_text P key ''valid_until'' = Inr (dec_int bench_until)"
    using issued by (simp_all add: payload_text_def fields issue_payload_def py_str_def bench_until_def)
  have number: "dec_int 101 = [49, 48, 49]" by code_simp
  have "demo_begin P f app = (Inr (demo_opening (fresh_uuid f), key), app2)"
    unfolding demo_begin_def
    apply (rule thenE_to, rule app1(1), rule bindE_to, rule owner, rule bindE_to, rule g(1), unfold prod.case)
    apply (rule bindE_to, rule lift_result_Inr [OF window(1)], rule bindE_to, rule lift_result_Inr [OF window(2)])
    using issued number by (simp add: demo_opening_def bold_def DEMO_PROPERTY_ID_def lit_def)
  then show ?thesis by (rule that [OF _ g(2-7)])
qed

text \<open>A guest's control, and the line for it.\<close>

lemma demo_control_run:
  assumes "ed25519 P" "at_bench P sk used d app" "db_ok d" "fst drawn \<notin> used"
    and "bench_key P sk f s home key" "fresh_uuid f \<notin> revoked_ids d" "in_room d s home"
  obtains dec app' where "demo_control P drawn room key command False app = (Inr dec, app')"
    "at_bench P sk (insert (fst drawn) used) d app'" "judges dec (scope_verdict home room False command False)"
proof -
  obtain c g where drawn: "drawn = (c, g)" by (cases drawn)
  have due: "shot_due P sk (\<lambda>_. True) d (room, key, command, False) (scope_verdict home room False command False)"
    using assms(5-7) unfolding shot_due_def by fastforce
  have new: "c \<notin> used" using assms(4) drawn by simp
  show ?thesis
    using scope_control_run [OF assms(1-3) new _ due, of g] that by (auto simp: drawn demo_control_scope)
qed

lemma own_room_allowed:
  "judges d None \<Longrightarrow> own_room_line d = lit ''  [OK] guest controls own room 101 thermostat -> ALLOW''"
  by (simp add: judges_def own_room_line_def lit_def)

lemma other_room_denied:
  "judges d (Some WRONG_ROOM) \<Longrightarrow>
     other_room_line d = Inr (lit ''  [OK] guest tries room 102 TV (cross-room) -> DENY (wrong_room)'')"
  by (simp add: judges_def other_room_line_def reason_text_def reason_value_def lit_def)

lemma on_app_to: "m app = (r, app') \<Longrightarrow> on_app m (app, lk) = (r, (app', lk))"
  by (simp add: on_app_def)

lemma on_lock_to: "m lk = (r, lk') \<Longrightarrow> on_lock m (app, lk) = (r, (app, lk'))"
  by (simp add: on_lock_def)

text \<open>Section 4, on the store: the checkout revokes the key, and leaves room 101 free.\<close>

lemma demo_checkout:
  assumes "arrived s 101 (init_db\<lparr>rooms := rs\<rparr>) d" "bench_key P sk f s 101 key" "db_ok (init_db\<lparr>rooms := rs\<rparr>)"
    and "db_ok (keyed key s 101 BENCH_START d)" and "d' = checked_out_db (st_stay_id s) BENCH_START (keyed key s 101 BENCH_START d)"
  shows "checkout (st_stay_id s) BENCH_START (keyed key s 101 BENCH_START d) = (Inr [fresh_uuid f], d')"
    and "db_ok d'" "revoked_ids d' = {fresh_uuid f}" "active_rows d' = {}" "rooms d' = rs"
    "ke_key_id ` set (keys d') = {fresh_uuid f}" "gu_guest_id ` set (guests d') = {st_guest_id s}"
    "st_stay_id ` set (stays d') = {st_stay_id s}"
proof -
  note d = arrivedD [OF assms(1)]
  have id: "ik_key_id key = fresh_uuid f" using assms(2) by (simp add: bench_key_def)
  have none: "active_keys (st_stay_id s) d = []"
    using active_keys_arrived [OF assms(1)] by (simp add: active_keys_def init_db_def)
  have active: "active_keys (st_stay_id s) (keyed key s 101 BENCH_START d) = [fresh_uuid f]" by (simp add: id none)
  show out: "checkout (st_stay_id s) BENCH_START (keyed key s 101 BENCH_START d) = (Inr [fresh_uuid f], d')"
    using checkout_exec [OF assms(4), of s BENCH_START] d(2) active assms(5) by simp
  show "db_ok d'" by (rule keepsD [OF keeps_checkout_db assms(4) out])
  have "revocations (init_db\<lparr>rooms := rs\<rparr>) = []" by (simp add: init_db_def)
  then show "revoked_ids d' = {fresh_uuid f}"
    using d(8) by (simp add: assms(5) none id revoked_ids_def [of "init_db\<lparr>rooms := rs\<rparr>"])
  obtain n where "active_rows d = {\<lparr>as_id = n, as_room_id = 101, as_stay_id = st_stay_id s,
      as_check_in = st_check_in s, as_check_out = st_check_out s, as_active = True\<rparr>}"
    by (rule arrived_row [OF assms(1)]) (simp add: active_rows_def init_db_def)
  then show "active_rows d' = {}" by (simp add: assms(5))
  show "rooms d' = rs" "ke_key_id ` set (keys d') = {fresh_uuid f}" "gu_guest_id ` set (guests d') = {st_guest_id s}"
    "st_stay_id ` set (stays d') = {st_stay_id s}"
    using d(5,6,9,10) by (simp_all add: assms(5) id init_db_def)
qed

lemma demo_end_run:
  assumes "ed25519 P" "demo_draws P sk attacker f E" "at_door P sk {} E 8 lk"
    and "at_bench P sk {} (keyed key s 101 BENCH_START d) app" "db_ok (keyed key s 101 BENCH_START d)"
    and "arrived s 101 (init_db\<lparr>rooms := [king_room 101, king_room 102]\<rparr>) d" "bench_key P sk (f 0) s 101 key"
    and "st_stay_id s = lit ''s_ada''" "st_guest_id s = lit ''g_ada''"
  shows "fst (demo_end P f E key (app, lk)) = Inr (demo_closing P (fresh_uuid (f 0)))"
proof -
  have draws: "\<And>i. fresh_ok (f i)" "fresh_uuid (f 5) \<noteq> fresh_uuid (f 0)" "inj (\<lambda>j. fst (E j))"
    using assms(2) by (simp_all add: demo_draws_def)
  define d2 where "d2 = checked_out_db (st_stay_id s) BENCH_START (keyed key s 101 BENCH_START d)"
  note out = demo_checkout [OF assms(6,7) kings_ok assms(5) d2_def]
  have app2: "with_db (checkout (lit ''s_ada'') BENCH_START) app = (Inr [fresh_uuid (f 0)], app\<lparr>app_db := d2\<rparr>)"
    "at_bench P sk {} d2 (app\<lparr>app_db := d2\<rparr>)"
    using at_bench_db [OF assms(4), of "checkout (st_stay_id s) BENCH_START", OF out(1)] assms(8) by simp_all
  let ?rs = "map re_key_id (revocations d2)"
  have listed: "with_db revocation_list (app\<lparr>app_db := d2\<rparr>) = (Inr ?rs, app\<lparr>app_db := d2\<rparr>)"
    by (simp add: with_db_revocations)
  have "set ?rs = {fresh_uuid (f 0)}" using out(3) by (simp add: revoked_ids_def)
  then have synced: "at_door P sk {fresh_uuid (f 0)} E 8 (sync_revocations ?rs lk)"
    using guards_sync [OF assms(3) [unfolded at_door_def], of ?rs] by (simp add: at_door_def)
  have key: "args_ok (f 0) (stay_args (f 0) s 101 BENCH_START)"
    "issue_credential P (f 0) sk (stay_args (f 0) s 101 BENCH_START) = Inr key"
    using assms(7) by (simp_all add: bench_key_def)
  have revoked: "issued_decision (ik_key_id key) (stay_args (f 0) s 101 BENCH_START) DEMO_PROPERTY_ID 101 BENCH_START
      {fresh_uuid (f 0)} = Some REVOKED"
    using bench_key_decision [OF assms(7)] by simp
  obtain lk2 where shown: "show_present P (E 8) ''revoked key within its original window'' (ik_token key)
      (ik_device_sk_b64 key) False False (sync_revocations ?rs lk) =
      (Inr (shown (lit ''revoked key within its original window'') False (Some REVOKED)), lk2)"
    by (rule prints_run [OF prints_key [OF assms(1) draws(3) key revoked] synced])
  obtain s2 key2 d3 app3 where ben: "demo_guest P (f 5) ''g_ben'' ''Ben'' ''ben@example.com'' ''s_ben'' (app\<lparr>app_db := d2\<rparr>) =
      (Inr (101, key2), app3)"
    "at_bench P sk {} (keyed key2 s2 101 BENCH_START d3) app3" "db_ok (keyed key2 s2 101 BENCH_START d3)"
    "arrived s2 101 d2 d3" "bench_key P sk (f 5) s2 101 key2"
    by (rule demo_guest_run [OF app2(2) out(2) draws(1), of "''g_ben''" "''s_ben''" 5])
      (use out draws(2) assms(8,9) in \<open>simp_all add: lit_def\<close>)
  let ?d = "keyed key2 s2 101 BENCH_START d3"
  obtain n where "active_rows d3 = {\<lparr>as_id = n, as_room_id = 101, as_stay_id = st_stay_id s2,
      as_check_in = st_check_in s2, as_check_out = st_check_out s2, as_active = True\<rparr>}"
    by (rule arrived_row [OF ben(4)]) (simp add: out(4))
  then have home: "in_room ?d s2 101" by (intro in_room_only) (use arrivedD(2) [OF ben(4)] in simp_all)
  have live: "fresh_uuid (f 5) \<notin> revoked_ids ?d" using arrivedD(8) [OF ben(4)] out(3) draws(2) by simp
  have due: "scope_verdict 101 101 False (lit ''thermostat'') False = None"
    "scope_verdict 101 102 False (lit ''tv'') False = Some WRONG_ROOM" "fst (E 9) \<notin> {}" "fst (E 10) \<notin> {fst (E 9)}"
    using draws(3) by (auto simp: scope_verdict_def ALLOWED_DEVICES_def dest: injD)
  obtain own app4 where own: "demo_control P (E 9) 101 key2 (lit ''thermostat'') False app3 = (Inr own, app4)"
    "at_bench P sk {fst (E 9)} ?d app4" "judges own None"
    by (rule demo_control_run [OF assms(1) ben(2,3) due(3) ben(5) live home, of 101 "lit ''thermostat''", unfolded due(1)])
  obtain other app5 where other: "demo_control P (E 10) 102 key2 (lit ''tv'') False app4 = (Inr other, app5)"
    "at_bench P sk {fst (E 10), fst (E 9)} ?d app5" "judges other (Some WRONG_ROOM)"
    by (rule demo_control_run [OF assms(1) own(2) ben(3) due(4) ben(5) live home, of 102 "lit ''tv''", unfolded due(2)])
  have sync: "modify (sync_revocations ?rs) lk = (Inr (), sync_revocations ?rs lk)" by simp
  have "demo_end P f E key (app, lk) = (Inr (demo_closing P (fresh_uuid (f 0))), (app5, lk2))"
    unfolding demo_end_def
    apply (rule bindE_to, rule on_app_to, rule app2(1), rule bindE_to, rule on_app_to, rule listed)
    apply (rule thenE_to, rule on_lock_to, rule sync, rule bindE_to, rule on_lock_to, rule shown)
    apply (rule bindE_to, rule on_app_to, rule ben(1), unfold prod.case)
    apply (rule bindE_to, rule on_app_to, rule own(1), rule bindE_to, rule on_app_to, rule other(1))
    apply (rule bindE_to, rule lift_result_Inr, rule other_room_denied [OF other(3)])
    by (simp add: demo_closing_def own_room_allowed [OF own(3)])
  then show ?thesis by simp
qed

text \<open>
  C39: The demo. Under a working signature scheme, whatever keys, ids and nonces are drawn,
  the script runs through and prints exactly this transcript: the guest's key unlocks the
  offline lock; the seven adversarial presentations are denied, each for its reason (another
  room's key, an expired one, one not valid yet, a forged one, a tampered one, a stolen one, a
  replay); after the checkout, which revoked this one key, it is denied in its window; and the
  next guest controls the own room and not the other one.
\<close>

theorem demo_prints:
  assumes "ed25519 P" "demo_draws P sk attacker f E"
  shows "demo_main P sk attacker f E = Inr (demo_transcript P (fresh_uuid (f 0)))"
proof -
  have draws: "fresh_ok (f 0)" "inj (\<lambda>j. fst (E j))" using assms(2) by (simp_all add: demo_draws_def)
  obtain app where app: "new_app P DEMO_PROPERTY_ID sk init_db = Inr app" "at_bench P sk {} init_db app"
    using new_app_bench [OF assms(1)] by (metis at_bench_def)
  obtain s key d app1 where begun: "demo_begin P (f 0) app = (Inr (demo_opening (fresh_uuid (f 0)), key), app1)"
    "at_bench P sk {} (keyed key s 101 BENCH_START d) app1" "db_ok (keyed key s 101 BENCH_START d)"
    "arrived s 101 (init_db\<lparr>rooms := [king_room 101, king_room 102]\<rparr>) d" "bench_key P sk (f 0) s 101 key"
    "st_stay_id s = lit ''s_ada''" "st_guest_id s = lit ''g_ada''"
    by (rule demo_begin_run [OF app(2) draws(1)])
  have none: "map re_key_id (revocations (app_db app1)) = []"
    using begun(2) arrivedD(7) [OF begun(4)] by (simp add: at_bench_def init_db_def)
  have lock: "app_property_id app1 = DEMO_PROPERTY_ID" "app_property_pub_raw app1 = public_bytes P (public_key P sk)"
    using begun(2) bench_appD(1,3) by (auto simp: at_bench_def)
  obtain lk where lk: "new_lock P DEMO_PROPERTY_ID 101 (public_bytes P (public_key P sk)) [] = Inr lk"
    "at_door P sk {} E 0 lk"
    using new_lock_guards [OF assms(1), of DEMO_PROPERTY_ID 101 "public_key P sk" "[]" "fired E 0"]
    by (auto simp: at_door_def)
  have key: "args_ok (f 0) (stay_args (f 0) s 101 BENCH_START)"
    "issue_credential P (f 0) sk (stay_args (f 0) s 101 BENCH_START) = Inr key"
    using begun(5) by (simp_all add: bench_key_def)
  have fine: "issued_decision (ik_key_id key) (stay_args (f 0) s 101 BENCH_START) DEMO_PROPERTY_ID 101 BENCH_START {} = None"
    using bench_key_decision [OF begun(5)] by simp
  obtain lk1 where legit: "show_present P (E 0) ''legitimate in-window key'' (ik_token key) (ik_device_sk_b64 key) False True lk =
      (Inr (shown (lit ''legitimate in-window key'') True None), lk1)" "at_door P sk {} E 1 lk1"
    using prints_run [OF prints_key [OF assms(1) draws(2) key fine, where i = 0 and expect = True] lk(2)] by auto
  obtain lk2 where denials: "adversarial_lines P sk attacker f E key lk1 = (Inr demo_denials, lk2)"
    "at_door P sk {} E 8 lk2"
    by (rule adversarial_run [OF assms begun(5) legit(2)])
  from demo_end_run [OF assms denials(2) begun(2-7)]
  obtain st where ending: "demo_end P f E key (app1, lk2) = (Inr (demo_closing P (fresh_uuid (f 0))), st)"
    by (metis prod.collapse)
  show ?thesis
    using app(1) begun(1) none lock lk(1) legit(1) denials(1) ending
    by (simp add: demo_main_def on_lock_to demo_transcript_def)
qed

theorem demo_prints_witness:
  "demo_main strict_platform 1 2 (\<lambda>i. \<lparr>fresh_sk = 3, fresh_uuid = [100 + i mod 10], fresh_hex = lit ''00''\<rparr>)
     (\<lambda>i. (replicate i 0, 4)) = Inr (demo_transcript strict_platform [100])"
proof -
  let ?f = "\<lambda>i. \<lparr>fresh_sk = 3, fresh_uuid = [100 + i mod 10], fresh_hex = lit ''00''\<rparr> :: byte fresh"
    and ?E = "\<lambda>i. (replicate i 0, 4) :: bytes \<times> byte"
  have scheme: "ed25519 strict_platform" by (auto simp: ed25519_def strict_platform_def)
  have scalar: "is_scalar (100 + i mod 10)" for i by (rule ascii_scalar) presburger
  have "demo_draws strict_platform 1 2 ?f ?E"
    by (auto simp: demo_draws_def fresh_ok_def text_ok_def scalar lit_def ascii_scalar signs_one_def keys_apart_def strict_platform_def
        intro!: injI dest: arg_cong [where f = length])
  from demo_prints [OF scheme this] show ?thesis by simp
qed

end
