(* ===== verification/Serial.thy ===== *)
theory Serial
  imports Concurrency_Properties
begin

text \<open>
  Concurrent calls of \<open>reservation.py\<close>, each for a stay of its own, against a run of the
  functions one after the other: reading the stay before the transaction makes no difference
  as long as no two calls are for the same stay.
\<close>

section \<open>The serial run\<close>

definition requested :: "call \<Rightarrow> bool" where
  "requested c = (case c of Assign i w \<Rightarrow> True | Change i w \<Rightarrow> True | _ \<Rightarrow> False)"

text \<open>What is left of a call, without interruption.\<close>

definition call_alone :: "call \<Rightarrow> (db, int) exec" where
  "call_alone c =
     (case c of
        Assign i wanted \<Rightarrow> assign_room i wanted
      | Assigning s wanted \<Rightarrow> assign_txn s wanted
      | Change i wanted \<Rightarrow> change_room i wanted
      | Changing s wanted \<Rightarrow> change_txn s wanted
      | Done r \<Rightarrow> (\<lambda>d. (r, d)))"

definition call_stay :: "call \<Rightarrow> pystr" where
  "call_stay c = (case c of Assign i w \<Rightarrow> i | Change i w \<Rightarrow> i | Assigning s w \<Rightarrow> st_stay_id s
     | Changing s w \<Rightarrow> st_stay_id s | Done r \<Rightarrow> [])"

lemma call_simps [simp]:
  "requested (Assign i w)" "requested (Change i w)" "\<not> requested (Assigning s w)"
  "\<not> requested (Changing s w)" "\<not> requested (Done r)"
  "call_alone (Assign i w) = assign_room i w" "call_alone (Change i w) = change_room i w"
  "call_stay (Assign i w) = i" "call_stay (Change i w) = i"
  by (simp_all add: requested_def call_alone_def call_stay_def)

definition turn :: "nat \<Rightarrow> db \<times> call list \<Rightarrow> db \<times> call list" where
  "turn k = (\<lambda>(d, cs). case call_alone (cs ! k) d of (r, d') \<Rightarrow> (d', cs[k := Done r]))"

definition one_by_one :: "nat list \<Rightarrow> db \<times> call list \<Rightarrow> db \<times> call list" where
  "one_by_one ks st = fold turn ks st"

section \<open>Calls that have only read\<close>

definition pending :: "db \<Rightarrow> call \<Rightarrow> call \<Rightarrow> bool" where
  "pending d c0 c \<longleftrightarrow>
     requested c0 \<and>
     (c = c0 \<or>
      (\<exists>s w. s \<in> set (stays d) \<and>
         (c0 = Assign (st_stay_id s) w \<and> st_room_id s = None \<and> c = Assigning s w \<or>
          c0 = Change (st_stay_id s) w \<and> c = Changing s w)))"

lemma read_step:
  assumes "call_step d c = (d', c')" "requested c"
  shows "d' = d \<and> pending d c c' \<or> (\<exists>r. c' = Done r \<and> call_alone c d = (r, d'))"
proof -
  obtain i w where c: "c = Assign i w \<or> c = Change i w" using assms(2) by (cases c) auto
  obtain r d1 where g: "get_stay i d = (r, d1)" by force
  then show ?thesis
  proof (cases rule: get_stay_cases)
    case (found s)
    then show ?thesis using c g assms(1)
      by (auto simp: call_step_def pending_def assign_room_def change_room_def split: option.splits)
  qed (use c g assms(1) in \<open>auto simp: call_step_def assign_room_def change_room_def bindE_def raise_def\<close>)
qed

lemma pending_step:
  assumes "db_ok d" "pending d c0 c" "call_step d c = (d', c')"
  shows "d' = d \<and> pending d c0 c' \<or> (\<exists>r. c' = Done r \<and> call_alone c0 d = (r, d'))"
proof (cases "c = c0")
  case True
  then show ?thesis using read_step assms(2,3) by (auto simp: pending_def)
next
  case False
  then obtain s w where s: "s \<in> set (stays d)"
    "c0 = Assign (st_stay_id s) w \<and> st_room_id s = None \<and> c = Assigning s w \<or>
     c0 = Change (st_stay_id s) w \<and> c = Changing s w"
    using assms(2) by (auto simp: pending_def)
  then show ?thesis
    using get_stay_row [OF assms(1) s(1)] assms(3)
    by (auto simp: call_step_def assign_room_def change_room_def split: prod.splits)
qed

text \<open>A call changes no row of another stay.\<close>

lemma booked_others:
  assumes "x \<in> set (stays d)" "st_stay_id x \<noteq> st_stay_id s"
  shows "x \<in> set (stays (booked s r d))"
  using assms by (simp add: booked_def with_room_def put_assignment_def in_update_where)

lemma call_alone_others:
  assumes "db_ok d" "requested c" "call_alone c d = (r, d')"
  shows "db_ok d'" "x \<in> set (stays d) \<Longrightarrow> st_stay_id x \<noteq> call_stay c \<Longrightarrow> x \<in> set (stays d')"
proof -
  obtain i w where c: "c = Assign i w \<or> c = Change i w" using assms(2) by (cases c) auto
  obtain res d1 where g: "get_stay i d = (res, d1)" by force
  have "db_ok d' \<and> (x \<in> set (stays d) \<longrightarrow> st_stay_id x \<noteq> call_stay c \<longrightarrow> x \<in> set (stays d'))"
    using g
  proof (cases rule: get_stay_cases)
    case (found s)
    note known = stay_known_read [OF assms(1) found(3)]
    have fit: "\<forall>r \<in> set (other_rooms d s). fits r \<and> r \<in> ro_room_id ` set (rooms (retire i d))"
      using rooms_of_fits [OF assms(1), of s] by (simp add: other_rooms_def)
    have books: "db_ok (booked s r d)" if "room_choice d s w (rooms_of d s) = Inr r" for r
      using chosen_in_rooms(2) [OF assms(1) that rooms_of_fits [OF assms(1)]]
      by (rule db_ok_booked [OF assms(1) known])
    have moves: "db_ok (booked s r (retire i d))" if "room_choice (retire i d) s w (other_rooms d s) = Inr r" for r
      using chosen_in_rooms(2) [OF db_ok_retire [OF assms(1)] that fit]
      by (intro db_ok_booked db_ok_retire assms(1)) (use known in simp_all)
    from c assign_room_row [OF assms(1) found(3), of w, unfolded found(4)]
      change_room_row [OF assms(1) found(3), of w, unfolded found(4)] assms(1,3) books moves
      booked_others [of x d s, unfolded found(4)] booked_others [of x "retire i d" s, unfolded found(4)]
    show ?thesis by (auto split: option.splits sum.splits)
  qed (use c assms g in \<open>auto simp: assign_room_def change_room_def bindE_def raise_def\<close>)
  then show "db_ok d'" "x \<in> set (stays d) \<Longrightarrow> st_stay_id x \<noteq> call_stay c \<Longrightarrow> x \<in> set (stays d')"
    by simp_all
qed

lemma pending_others:
  assumes "pending d c0 c" "db_ok d" "requested c1" "call_alone c1 d = (r, d')" "call_stay c0 \<noteq> call_stay c1"
  shows "pending d' c0 c"
proof -
  have "s \<in> set (stays d')" if "s \<in> set (stays d)" "st_stay_id s = call_stay c0" for s
    using call_alone_others(2) [OF assms(2-4) that(1)] that(2) assms(5) by simp
  then show ?thesis using assms(1) by (fastforce simp: pending_def)
qed

section \<open>Every schedule is serial\<close>

text \<open>
  The state of a schedule, and the calls that are over, in the order of their transactions:
  run one after the other they give the same store and the same results.
\<close>

definition serial_state :: "db \<Rightarrow> call list \<Rightarrow> nat list \<Rightarrow> db \<times> call list \<Rightarrow> bool" where
  "serial_state d0 cs0 order = (\<lambda>(d, cs).
     db_ok d \<and> distinct order \<and> set order \<subseteq> {..<length cs0} \<and> length cs = length cs0 \<and>
     (\<exists>cs1. one_by_one order (d0, cs0) = (d, cs1) \<and> length cs1 = length cs0 \<and>
        (\<forall>k < length cs0. if k \<in> set order then cs ! k = cs1 ! k \<and> (\<exists>r. cs1 ! k = Done r)
           else cs1 ! k = cs0 ! k \<and> pending d (cs0 ! k) (cs ! k))))"

lemma one_by_one_snoc: "one_by_one (ks @ [k]) st = turn k (one_by_one ks st)"
  by (simp add: one_by_one_def)

lemma serial_start:
  assumes "db_ok d" "list_all requested cs"
  shows "serial_state d cs [] (d, cs)"
  using assms by (auto simp: serial_state_def one_by_one_def pending_def list_all_length)

lemma serial_tick:
  assumes "serial_state d0 cs0 order (d, cs)" "distinct (map call_stay cs0)" "list_all requested cs0"
  shows "\<exists>order'. serial_state d0 cs0 order' (tick n (d, cs))"
proof -
  obtain cs1 where st: "db_ok d" "distinct order" "set order \<subseteq> {..<length cs0}" "length cs = length cs0"
    "one_by_one order (d0, cs0) = (d, cs1)" "length cs1 = length cs0"
    "\<And>k. k < length cs0 \<Longrightarrow> if k \<in> set order then cs ! k = cs1 ! k \<and> (\<exists>r. cs1 ! k = Done r)
       else cs1 ! k = cs0 ! k \<and> pending d (cs0 ! k) (cs ! k)"
    using assms(1) by (auto simp: serial_state_def)
  consider "n \<ge> length cs" | "n < length cs" "n \<in> set order" | "n < length cs0" "n \<notin> set order"
    using st(4) by linarith
  then show ?thesis
  proof cases
    case 1
    then show ?thesis using assms(1) by (auto simp: tick_def)
  next
    case 2
    then obtain r where "cs ! n = Done r" using st(4) st(7) [of n] by metis
    then have "tick n (d, cs) = (d, cs)"
      using 2 by (simp add: tick_def call_step_def) (metis list_update_id)
    then show ?thesis using assms(1) by auto
  next
    case 3
    then have n: "n < length cs" "cs1 ! n = cs0 ! n" "pending d (cs0 ! n) (cs ! n)" using st(4) st(7) [of n] by auto
    obtain d' c' where step: "call_step d (cs ! n) = (d', c')" by force
    then have tick: "tick n (d, cs) = (d', cs[n := c'])" using n(1) by (simp add: tick_def)
    from pending_step [OF st(1) n(3) step] show ?thesis
    proof (elim disjE exE conjE)
      assume c': "d' = d" "pending d (cs0 ! n) c'"
      have "if k \<in> set order then cs[n := c'] ! k = cs1 ! k \<and> (\<exists>r. cs1 ! k = Done r)
          else cs1 ! k = cs0 ! k \<and> pending d (cs0 ! k) (cs[n := c'] ! k)" if "k < length cs0" for k
        using st(7) [OF that] c'(2) n(1,2) 3 by (cases "k = n") (simp, metis nth_list_update_neq)
      then have "serial_state d0 cs0 order (d', cs[n := c'])"
        using st(1-6) by (simp add: serial_state_def c'(1))
      then show ?thesis using tick by auto
    next
      fix r
      assume r: "c' = Done r" "call_alone (cs0 ! n) d = (r, d')"
      have call: "requested (cs0 ! n)" using assms(3) 3(1) by (simp add: list_all_length)
      have "one_by_one (order @ [n]) (d0, cs0) = (d', cs1[n := Done r])"
        using st(5) n(2) r(2) by (simp add: one_by_one_snoc turn_def)
      moreover have "pending d' (cs0 ! k) (cs ! k)" if "k < length cs0" "k \<notin> set order" "k \<noteq> n" for k
      proof -
        have "call_stay (cs0 ! k) \<noteq> call_stay (cs0 ! n)"
          using assms(2) that(1,3) 3(1) by (simp add: distinct_conv_nth)
        then show ?thesis using pending_others [OF _ st(1) call r(2)] st(7) [OF that(1)] that(2) by simp
      qed
      ultimately have "serial_state d0 cs0 (order @ [n]) (d', cs[n := c'])"
        using st(2-4,6,7) 3 r(1) call_alone_others(1) [OF st(1) call r(2)]
        by (auto simp: serial_state_def nth_list_update)
      then show ?thesis using tick by auto
    qed
  qed
qed

lemma serial_schedule:
  assumes "serial_state d0 cs0 order st" "distinct (map call_stay cs0)" "list_all requested cs0"
  shows "\<exists>order'. serial_state d0 cs0 order' (run_schedule ns st)"
  using assms(1)
proof (induction ns arbitrary: st order)
  case (Cons n ns)
  obtain d cs where "st = (d, cs)" by force
  then show ?case using serial_tick [OF _ assms(2,3)] Cons by (fastforce simp: run_schedule_def)
qed (auto simp: run_schedule_def)

lemma not_pending_done: "\<not> pending d c (Done r)" if "requested c"
  using that by (auto simp: pending_def)

text \<open>
  C14: Schedules are serial. However the steps of concurrent calls are interleaved, each call
  for a stay of its own and each given its two steps, the store and every caller's result are
  those of \<open>assign_room\<close> and \<open>change_room\<close> run one call after the other, in some order.
\<close>

theorem schedules_are_serial:
  assumes "db_ok d" "list_all requested cs" "distinct (map call_stay cs)" "fair (length cs) ns"
  shows "\<exists>order. distinct order \<and> set order = {..<length cs} \<and>
    run_schedule ns (d, cs) = one_by_one order (d, cs)"
proof -
  obtain d' cs' where run: "run_schedule ns (d, cs) = (d', cs')" by force
  obtain order where "serial_state d cs order (d', cs')"
    using serial_schedule [OF serial_start [OF assms(1,2)] assms(3,2), of ns] run by auto
  then obtain cs1 where st: "distinct order" "set order \<subseteq> {..<length cs}" "length cs' = length cs"
    "one_by_one order (d, cs) = (d', cs1)" "length cs1 = length cs"
    "\<And>k. k < length cs \<Longrightarrow> if k \<in> set order then cs' ! k = cs1 ! k \<and> (\<exists>r. cs1 ! k = Done r)
       else cs1 ! k = cs ! k \<and> pending d' (cs ! k) (cs' ! k)"
    by (auto simp: serial_state_def)
  have over: "k \<in> set order" if k: "k < length cs" for k
  proof (rule ccontr)
    assume "k \<notin> set order"
    then have "pending d' (cs ! k) (cs' ! k)" using st(6) [OF k] by simp
    moreover obtain r where "cs' ! k = Done r" using fair_finishes [OF run assms(4) k] by blast
    moreover have "requested (cs ! k)" using assms(2) k by (simp add: list_all_length)
    ultimately show False using not_pending_done by metis
  qed
  have "cs' = cs1" using st(3,5,6) over by (intro nth_equalityI) auto
  then show ?thesis using st(1,2,4) over run by (intro exI [of _ order]) auto
qed

text \<open>Three callers for two rooms, who all read before the first one books.\<close>

theorem schedules_are_serial_witness:
  "\<exists>order. set order = {..<3} \<and>
     run_schedule ([0..<3] @ [0..<3])
       (contested 2 (\<lambda>k. [100 + k mod 1000]) 3,
        map (\<lambda>k. Assign (bench_sid (\<lambda>k. [100 + k mod 1000]) k) None) [0..<3]) =
     one_by_one order
       (contested 2 (\<lambda>k. [100 + k mod 1000]) 3,
        map (\<lambda>k. Assign (bench_sid (\<lambda>k. [100 + k mod 1000]) k) None) [0..<3])"
proof -
  let ?u = "\<lambda>k. [100 + k mod 1000 :: nat]"
  let ?cs = "map (\<lambda>k. Assign (bench_sid ?u k) None) [0..<3]"
  have u: "uuids_ok ?u 3" by (rule sample_uuids) simp
  note made = create_stays_run [OF u, of 2]
  have "distinct (map call_stay ?cs)" using made(2) by (simp add: comp_def)
  from schedules_are_serial [OF made(3) _ this] fair_rounds [of 3]
  show ?thesis by (auto simp: list_all_iff)
qed

end
