(* ===== verification/Row_History.thy ===== *)
theory Row_History
  imports Api_Properties
begin

text \<open>
  What every history of requests keeps. \<open>row_invariant\<close> states what the single statements
  must keep of the store, with the stay rows a call has read and goes on with; inside it the
  operations, the handlers and whole histories of requests keep it. The row types and the
  keys that are asleep are its interpretations.
\<close>

lemma keeps_room_reads [keeps_intros]:
  "keeps P (has_overlap r i out)" "keeps P (candidate_rooms p t)" "keeps P (first_free rs i out)"
  "keeps P (asked_room r p)"
proof -
  show "keeps P (has_overlap r i out)" for r unfolding has_overlap_def by (intro keeps_intros)
  then show "keeps P (first_free rs i out)"
    by (induction rs) (auto intro!: keeps_intros)
  show "keeps P (candidate_rooms p t)" unfolding candidate_rooms_def by (intro keeps_intros)
  show "keeps P (asked_room r p)" unfolding asked_room_def by (intro keeps_intros)
qed

locale row_invariant =
  fixes I :: "stay_row set \<Rightarrow> db \<Rightarrow> bool"
  assumes inv_reads_row: "I S d \<Longrightarrow> s \<in> set (stays d) \<Longrightarrow> I (insert s S) d"
    and inv_forgets_row: "I (insert s S) d \<Longrightarrow> I S d"
    and inv_add_guest: "keeps (I S) (add_guest g n e)"
    and inv_add_room: "keeps (I S) (add_room r p n t)"
    and inv_add_stay: "i < out \<Longrightarrow> keeps (I S) (add_stay sid g p t i out)"
    and inv_set_stay_status:
      "x \<in> {RESERVED, CHECKED_IN, CHECKED_OUT} \<Longrightarrow> keeps (I S) (set_stay_status sid x)"
    and inv_set_stay_room: "keeps (I S) (set_stay_room sid r)"
    and inv_add_assignment: "s \<in> S \<Longrightarrow>
      keeps (I S) (add_assignment r (st_stay_id s) (st_check_in s) (st_check_out s))"
    and inv_retire: "keeps (I S) (retire_assignments sid)"
    and inv_restore: "keeps (I S) (restore_assignments sid room)"
    and inv_deactivate: "keeps (I S) (deactivate_keys sid)"
    and inv_revoke_all:
      "why \<in> {lit ''checkout'', lit ''room_change''} \<Longrightarrow> keeps (I S) (revoke_all sid now why)"
    and inv_add_key: "s \<in> S \<Longrightarrow> effective_window (st_check_in s) (st_check_out s) now = (i, out) \<Longrightarrow>
      i < out \<Longrightarrow> keeps (I S) (add_key (issued_row issued s room_id now))"
begin

lemmas inv_statements = inv_add_guest inv_add_room inv_add_stay inv_set_stay_status
  inv_set_stay_room inv_add_assignment inv_retire inv_restore inv_deactivate inv_add_key

text \<open>A call goes on with the row it reads.\<close>

lemma inv_get_stay:
  assumes "\<And>s. keeps (I (insert s S)) (k s)"
  shows "keeps (I S) (bindE (get_stay i) (\<lambda>stay. case stay of None \<Rightarrow> raise e | Some s \<Rightarrow> k s))"
proof (rule keepsI)
  fix d r d'
  assume d: "I S d"
    and run: "bindE (get_stay i) (\<lambda>stay. case stay of None \<Rightarrow> raise e | Some s \<Rightarrow> k s) d = (r, d')"
  obtain res d1 where g: "get_stay i d = (res, d1)" by force
  then show "I S d'"
  proof (cases rule: get_stay_cases)
    case (found s)
    have "I (insert s S) d" by (rule inv_reads_row [OF d found(3)])
    then have "I (insert s S) d'" using keepsD [OF assms] run g found(1,2) by simp
    then show ?thesis by (rule inv_forgets_row)
  qed (use d run g in \<open>auto simp: raise_def bindE_def\<close>)
qed

text \<open>Operations\<close>

lemma inv_assign_room: "keeps (I S) (assign_room i w)"
  unfolding assign_room_def assign_txn_def
  by (intro inv_get_stay keeps_intros inv_statements insertI1)

lemma inv_change_room: "keeps (I S) (change_room i w)"
  unfolding change_room_def change_txn_def
  by (intro inv_get_stay keeps_intros inv_statements insertI1)

lemma inv_issue_for_stay: "keeps (I S) (issue_for_stay P f sk i now)"
  unfolding issue_for_stay_def
  by (intro inv_get_stay keeps_intros inv_add_key insertI1) (simp_all add: not_le)

lemma inv_refresh_key: "keeps (I S) (refresh_key P f sk i now)"
  unfolding refresh_key_def
  by (intro inv_get_stay keeps_intros inv_statements inv_issue_for_stay)

lemma inv_checkout: "keeps (I S) (checkout i now)"
  unfolding checkout_def
  by (intro inv_get_stay keeps_intros inv_statements inv_revoke_all) simp_all

lemma inv_lifecycle_change_room: "keeps (I S) (lifecycle_change_room P f sk i now r)"
  unfolding lifecycle_change_room_def
  by (intro inv_get_stay keeps_intros inv_change_room inv_issue_for_stay inv_revoke_all) simp

text \<open>Requests\<close>

definition app_inv :: "('sk, 'pk) AppState \<Rightarrow> bool" where
  "app_inv app \<longleftrightarrow> I {} (app_db app)"

lemma inv_with_db: "keeps (I {}) m \<Longrightarrow> keeps app_inv (with_db m)"
  by (auto simp: keeps_def app_inv_def with_db_def split: prod.split)

lemma inv_registry:
  "keeps app_inv (modify (set_lock r lk))" "keeps app_inv (create_lock P r)"
proof -
  show "keeps app_inv (modify (set_lock r lk))"
    by (intro keeps_modify) (simp add: app_inv_def set_lock_def)
  show "keeps app_inv (create_lock P r)"
    unfolding create_lock_def
    by (intro keeps_bindE inv_with_db keeps_any_reads)
      (auto simp: keeps_def app_inv_def split: sum.split)
qed

lemma inv_locks:
  "keeps app_inv (lock_for P r)" "keeps app_inv (sync_lock P r)" "keeps app_inv (sync_if P room)"
proof -
  show lock: "keeps app_inv (lock_for P r)" for r
    using inv_registry(2) [of P r] by (auto simp: keeps_def lock_for_def split: option.split)
  show sync: "keeps app_inv (sync_lock P r)" for r
    unfolding sync_lock_def by (intro keeps_intros lock inv_with_db inv_registry)
  show "keeps app_inv (sync_if P room)"
    unfolding sync_if_def by (intro keeps_intros sync)
qed

lemmas inv_operations = inv_with_db inv_registry inv_locks inv_add_guest inv_add_room
  inv_set_stay_status inv_assign_room inv_issue_for_stay inv_refresh_key inv_checkout
  inv_lifecycle_change_room

lemma inv_reserve:
  assumes "valid_reservation b"
  shows "keeps app_inv (reserve u v b)"
proof -
  have "rv_check_in b < rv_check_out b" using assms by (simp add: valid_reservation_def)
  moreover have "keeps (I {}) (reserving_guest u b)"
    unfolding reserving_guest_def guest_exists_def Let_def by (intro keeps_intros inv_statements)
  ultimately show ?thesis
    by (intro keeps_reader [OF reserve_def]) (unfold Let_def, intro keeps_intros inv_operations inv_add_stay)
qed

lemma inv_stay_handlers:
  "keeps app_inv (checkin P f i clock)" "keeps app_inv (refresh P f i clock)"
  "keeps app_inv (api_checkout P i clock)" "keeps app_inv (room_change P f i rc clock)"
proof -
  show "keeps app_inv (checkin P f i clock)"
    by (rule keeps_reader [OF checkin_def]) (intro keeps_intros inv_operations; simp)
  show "keeps app_inv (refresh P f i clock)"
    by (rule keeps_reader [OF refresh_def]) (intro keeps_intros inv_operations)
  show "keeps app_inv (api_checkout P i clock)"
    unfolding api_checkout_def by (intro keeps_intros inv_operations)
  show "keeps app_inv (room_change P f i rc clock)"
    by (rule keeps_reader [OF room_change_def]) (intro keeps_intros inv_operations)
qed

lemma inv_other_handlers:
  "keeps app_inv health" "keeps app_inv (create_guest u g)" "keeps app_inv (create_room b)"
  "keeps app_inv api_revocations" "keeps app_inv (lock_challenge P n r clock)"
  unfolding health_def create_guest_def api_revocations_def lock_challenge_def Let_def
  by (intro keeps_intros inv_operations
      | (rule keeps_reader [OF create_room_def], intro keeps_intros inv_operations))+

lemma inv_door_handlers:
  "keeps app_inv (lock_unlock P r ub clock)" "keeps app_inv (room_challenge n clock)"
  "keeps app_inv (room_control P r cb clock)"
proof -
  have "keeps app_inv (unlock_step P r t c resp now lk)" for t c resp now lk
    by (auto simp: keeps_def unlock_step_def app_inv_def set_lock_def split: prod.split sum.split)
  then show "keeps app_inv (lock_unlock P r ub clock)"
    unfolding lock_unlock_def by (intro keeps_intros inv_operations)
  show "keeps app_inv (room_challenge n clock)"
    unfolding room_challenge_def by (intro keeps_intros keeps_modify) (simp add: app_inv_def)
  have "keeps app_inv (control_step P r cmd t c resp now)" for cmd t c resp now
    by (auto simp: keeps_def control_step_def app_inv_def Let_def split: prod.split sum.split dest: authorize_db)
  then show "keeps app_inv (room_control P r cb clock)"
    unfolding room_control_def by (intro keeps_intros)
qed

lemma handle_inv:
  assumes "app_inv app"
  shows "app_inv (snd (handle P f clock rq app))"
proof -
  have step: "keeps app_inv m \<Longrightarrow> app_inv (snd (respond m app))" for m
    using assms by (rule respond_keeps [rotated])
  show ?thesis
  proof (cases rq)
    case (PostReservation u v b)
    then show ?thesis
      using step [OF inv_reserve] assms by (simp add: handle_def validated_def)
  qed (simp_all add: handle_def validated_keeps step assms inv_stay_handlers inv_other_handlers inv_door_handlers)
qed

lemma serve_inv: "app_inv app \<Longrightarrow> app_inv (serve P rqs app)"
  unfolding serve_def
  by (induction rqs arbitrary: app) (auto simp: handle_inv)

end

end
