(* ===== verification/Row_Types.thy ===== *)
theory Row_Types
  imports Row_History
begin

text \<open>
  The types of the rows: which values the columns of the store hold, over every history of
  requests. SQLite checks none of it; it follows from what the program writes.
\<close>

section \<open>Well-typed stores\<close>

text \<open>The stays with their windows; a row of a stay is only ever changed in its room and status.\<close>

definition stay_span :: "stay_row \<Rightarrow> pystr \<times> time \<times> time" where
  "stay_span s = (st_stay_id s, st_check_in s, st_check_out s)"

definition stay_typed :: "stay_row \<Rightarrow> bool" where
  "stay_typed s \<longleftrightarrow> st_status s \<in> {RESERVED, CHECKED_IN, CHECKED_OUT} \<and> st_check_in s < st_check_out s"

definition assignment_typed :: "(pystr \<times> time \<times> time) set \<Rightarrow> assignment_row \<Rightarrow> bool" where
  "assignment_typed spans a \<longleftrightarrow> (as_stay_id a, as_check_in a, as_check_out a) \<in> spans"

definition key_typed :: "(pystr \<times> time \<times> time) set \<Rightarrow> key_row \<Rightarrow> bool" where
  "key_typed spans k \<longleftrightarrow>
     ke_valid_from k < ke_valid_until k \<and> ke_valid_until k \<le> ke_issued_at k + KEY_TTL_SECONDS \<and>
     (\<exists>out. (ke_stay_id k, ke_valid_from k, out) \<in> spans \<and> ke_valid_until k \<le> out)"

definition revocation_typed :: "revocation_row \<Rightarrow> bool" where
  "revocation_typed r \<longleftrightarrow> re_reason r \<in> {lit ''checkout'', lit ''room_change''}"

definition db_typed :: "db \<Rightarrow> bool" where
  "db_typed d \<longleftrightarrow>
     (\<forall>s \<in> set (stays d). stay_typed s) \<and>
     (\<forall>a \<in> set (assignments d). assignment_typed (stay_span ` set (stays d)) a) \<and>
     (\<forall>k \<in> set (keys d). key_typed (stay_span ` set (stays d)) k) \<and>
     (\<forall>r \<in> set (revocations d). revocation_typed r)"

text \<open>A well-typed store in which the rows \<open>S\<close> have been read: their windows are still there.\<close>

definition typed_for :: "stay_row set \<Rightarrow> db \<Rightarrow> bool" where
  "typed_for S d \<longleftrightarrow> db_typed d \<and> stay_span ` S \<subseteq> stay_span ` set (stays d)"

lemmas typed_defs = typed_for_def db_typed_def

lemma typed_for_empty [simp]: "typed_for {} d = db_typed d"
  by (simp add: typed_for_def)

lemma span_updates [simp]:
  "stay_span (s\<lparr>st_status := x\<rparr>) = stay_span s" "stay_span (s\<lparr>st_room_id := r\<rparr>) = stay_span s"
  "stay_typed (s\<lparr>st_room_id := r\<rparr>) = stay_typed s"
  by (simp_all add: stay_span_def stay_typed_def)

lemma row_updates [simp]:
  "assignment_typed spans (a\<lparr>as_active := b\<rparr>) = assignment_typed spans a"
  "key_typed spans (k\<lparr>ke_active := b\<rparr>) = key_typed spans k"
  by (simp_all add: assignment_typed_def key_typed_def)

lemma typed_mono:
  "assignment_typed spans a \<Longrightarrow> spans \<subseteq> spans' \<Longrightarrow> assignment_typed spans' a"
  "key_typed spans k \<Longrightarrow> spans \<subseteq> spans' \<Longrightarrow> key_typed spans' k"
  by (auto simp: assignment_typed_def key_typed_def)

section \<open>Statements\<close>

lemma typed_add_guest: "keeps (typed_for S) (add_guest g n e)"
  unfolding add_guest_def by (intro keeps_intros keeps_insert_if) (simp add: typed_defs)

lemma typed_add_room: "keeps (typed_for S) (add_room r p n t)"
  unfolding add_room_def by (intro keeps_intros keeps_insert_if) (simp add: typed_defs)

lemma typed_more_stays:
  assumes "typed_for S d" "stay_typed s"
  shows "typed_for S (d\<lparr>stays := stays d @ [s]\<rparr>)"
  using assms
  by (auto simp: typed_defs intro: typed_mono(1) [OF _ subset_insertI] typed_mono(2) [OF _ subset_insertI])

lemma typed_add_stay: "i < out \<Longrightarrow> keeps (typed_for S) (add_stay s g p t i out)"
  unfolding add_stay_def
  by (intro keeps_intros keeps_insert_if typed_more_stays) (simp_all add: stay_typed_def RESERVED_def)

lemma typed_set_stay_status:
  "x \<in> {RESERVED, CHECKED_IN, CHECKED_OUT} \<Longrightarrow> keeps (typed_for S) (set_stay_status s x)"
  unfolding set_stay_status_def
  by (intro keeps_intros keeps_modify) (auto simp: typed_defs stay_typed_def)

lemma typed_set_stay_room: "keeps (typed_for S) (set_stay_room s r)"
  unfolding set_stay_room_def
  by (intro keeps_intros keeps_insert_if) (simp add: typed_defs)

lemma typed_add_assignment:
  assumes "s \<in> S"
  shows "keeps (typed_for S) (add_assignment r (st_stay_id s) (st_check_in s) (st_check_out s))"
  unfolding add_assignment_def
  by (intro keeps_intros keeps_insert_if)
    (use assms in \<open>auto simp: typed_defs put_assignment_def assignment_typed_def simp flip: stay_span_def\<close>)

lemma typed_activity:
  "keeps (typed_for S) (retire_assignments i)" "keeps (typed_for S) (restore_assignments i room)"
  "keeps (typed_for S) (deactivate_keys i)"
  unfolding retire_assignments_def restore_assignments_def deactivate_keys_def
  by (intro keeps_intros keeps_modify; simp add: typed_defs retire_def)+

lemma typed_revoke_key:
  "why \<in> {lit ''checkout'', lit ''room_change''} \<Longrightarrow> keeps (typed_for S) (revoke_key k now why)"
  unfolding revoke_key_def
  by (intro keeps_intros keeps_modify) (auto simp: typed_defs revocation_typed_def)

lemma typed_add_key:
  assumes "s \<in> S" "effective_window (st_check_in s) (st_check_out s) now = (i, out)" "i < out"
  shows "keeps (typed_for S) (add_key (issued_row issued s room now))"
proof -
  have "key_typed A (issued_row issued s room now)" if "stay_span s \<in> A" for A
    using assms(2,3) that unfolding stay_span_def
    by (auto simp: key_typed_def issued_row_def effective_window_def)
  then show ?thesis unfolding add_key_def
    by (intro keeps_intros keeps_insert_if) (use assms(1) in \<open>auto simp: typed_defs\<close>)
qed

lemma typed_revoke_all:
  "why \<in> {lit ''checkout'', lit ''room_change''} \<Longrightarrow> keeps (typed_for S) (revoke_all i now why)"
  unfolding revoke_all_def deactivate_keys_for_stay_def
  by (intro keeps_intros typed_activity typed_revoke_key)

interpretation typed_rows: row_invariant typed_for
proof unfold_locales
  show "typed_for S d \<Longrightarrow> s \<in> set (stays d) \<Longrightarrow> typed_for (insert s S) d" for S s d
    by (auto simp: typed_for_def)
  show "typed_for (insert s S) d \<Longrightarrow> typed_for S d" for S s d by (simp add: typed_for_def)
qed (rule typed_add_guest typed_add_room typed_add_stay typed_set_stay_status typed_set_stay_room
    typed_add_assignment typed_activity typed_revoke_all typed_add_key; assumption?)+

section \<open>Histories\<close>

lemma typed_init: "new_app P prop sk init_db = Inr app \<Longrightarrow> typed_rows.app_inv app"
  by (auto simp: typed_rows.app_inv_def new_app_def db_typed_def init_db_def split: sum.splits)

text \<open>
  C16: Row types. After any history of requests, valid or not, on a fresh application: a stay has
  one of the three statuses and a window that is not empty; every assignment, also a retired
  one, has the window of its stay; a key starts with its stay, ends no later, and within its
  lifetime from issuance; and keys are revoked for a checkout or a room change only.
\<close>

theorem rows_well_typed:
  assumes "new_app P prop sk init_db = Inr app" "app_db (serve P rqs app) = d"
  shows "(\<forall>s \<in> set (stays d). st_status s \<in> {RESERVED, CHECKED_IN, CHECKED_OUT} \<and> st_check_in s < st_check_out s) \<and>
    (\<forall>a \<in> set (assignments d). \<exists>s \<in> set (stays d). st_stay_id s = as_stay_id a \<and>
       st_check_in s = as_check_in a \<and> st_check_out s = as_check_out a) \<and>
    (\<forall>k \<in> set (keys d). ke_valid_from k < ke_valid_until k \<and>
       ke_valid_until k \<le> ke_issued_at k + KEY_TTL_SECONDS \<and>
       (\<exists>s \<in> set (stays d). st_stay_id s = ke_stay_id k \<and> st_check_in s = ke_valid_from k \<and>
          ke_valid_until k \<le> st_check_out s)) \<and>
    (\<forall>r \<in> set (revocations d). re_reason r \<in> {lit ''checkout'', lit ''room_change''})"
proof -
  have "db_typed d" using typed_rows.serve_inv [OF typed_init [OF assms(1)], of P rqs] assms(2) by (simp add: typed_rows.app_inv_def)
  then show ?thesis
    by (fastforce simp: db_typed_def stay_typed_def assignment_typed_def key_typed_def revocation_typed_def stay_span_def)
qed

text \<open>A stay that is reserved, checked in and checked out.\<close>

definition sample_history :: "(bytes fresh \<times> time \<times> request) list" where
  "sample_history =
     [(sample_fresh, 900, PostRoom \<lparr>ri_room_id = 101, ri_number = lit ''101'', ri_room_type = lit ''king'', ri_property_id = None\<rparr>),
      (sample_fresh, 900, PostReservation (lit ''ada'') (lit ''s1'')
        \<lparr>rv_guest_id = None, rv_guest = Some \<lparr>gi_name = lit ''Ada'', gi_email = lit ''a@x''\<rparr>,
         rv_room_type = lit ''king'', rv_check_in = 1000, rv_check_out = 2000, rv_preferred_room_id = None\<rparr>),
      (sample_fresh, 1500, PostCheckin (lit ''s_s1'')), (sample_fresh, 1600, PostCheckout (lit ''s_s1''))]"

theorem rows_well_typed_witness:
  "list_all stay_typed (stays (app_db (serve sample_platform sample_history sample_app)))"
  using rows_well_typed [OF sample_app refl, of sample_history]
  by (simp add: list_all_iff stay_typed_def)

end
