(* ===== verification/Dormant_Keys.thy ===== *)
theory Dormant_Keys
  imports Row_History
begin

text \<open>
  Keys that fell asleep: set inactive without being revoked. Checkout and room change revoke
  the active keys of a stay, so nothing revokes such a key any more, over every history of
  requests. A room change with a time beyond 64 bits puts keys to sleep.
\<close>

section \<open>Asleep for good\<close>

definition asleep :: "pystr set \<Rightarrow> db \<Rightarrow> bool" where
  "asleep K d \<longleftrightarrow> K \<subseteq> ke_key_id ` set (keys d) \<and>
     (\<forall>k \<in> set (keys d). ke_key_id k \<in> K \<longrightarrow> \<not> ke_active k) \<and> K \<inter> revoked_ids d = {}"

lemma asleep_cong:
  "keys d' = keys d \<Longrightarrow> revocations d' = revocations d \<Longrightarrow> asleep K d' = asleep K d"
  unfolding asleep_def revoked_ids_def by presburger

lemma asleep_other_tables:
  "keeps (asleep K) (add_guest g n e)" "keeps (asleep K) (add_room r p n t)"
  "keeps (asleep K) (add_stay s g p t i out)" "keeps (asleep K) (set_stay_status s x)"
  "keeps (asleep K) (set_stay_room s r)" "keeps (asleep K) (add_assignment r s i out)"
  "keeps (asleep K) (retire_assignments s)" "keeps (asleep K) (restore_assignments s room)"
  unfolding add_guest_def add_room_def add_stay_def set_stay_status_def set_stay_room_def
    add_assignment_def retire_assignments_def restore_assignments_def
  by (intro keeps_intros keeps_insert_if keeps_modify;
      simp add: asleep_def revoked_ids_def put_assignment_def)+

lemma asleep_deactivate: "keeps (asleep K) (deactivate_keys i)"
  unfolding deactivate_keys_def
  by (intro keeps_intros keeps_modify) (auto simp: asleep_def revoked_ids_def set_update_where)

lemma asleep_add_key: "keeps (asleep K) (add_key row)"
  unfolding add_key_def
  by (intro keeps_intros keeps_insert_if) (auto simp: asleep_def revoked_ids_def)

lemma asleep_revoke_key: "k \<notin> K \<Longrightarrow> keeps (asleep K) (revoke_key k now why)"
  unfolding revoke_key_def
  by (intro keeps_intros keeps_modify) (auto simp: asleep_def revoked_ids_def)

text \<open>The keys to revoke are read among the active ones.\<close>

lemma deactivated_awake:
  assumes "asleep K d" "deactivate_keys_for_stay i d = (Inr ks, d')"
  shows "set ks \<inter> K = {}"
proof (cases "clean i")
  case True
  then have "ks = active_keys i d" using assms(2) by (simp add: deactivate_exec)
  then show ?thesis using assms(1) by (auto simp: asleep_def active_keys_def)
next
  case False
  then show ?thesis
    using assms(2) by (simp add: deactivate_keys_for_stay_def execute_def bind_error_def clean_def)
qed

lemma asleep_revoke_all: "keeps (asleep K) (revoke_all i now why)"
  unfolding revoke_all_def
proof (rule keeps_bindE_post)
  show "keeps (asleep K) (deactivate_keys_for_stay i)"
    unfolding deactivate_keys_for_stay_def by (intro keeps_intros asleep_deactivate)
  show "set ks \<inter> K = {}" if "asleep K d" "deactivate_keys_for_stay i d = (Inr ks, d')" for d ks d'
    using that by (rule deactivated_awake)
  show "keeps (asleep K) (thenE (for_each (\<lambda>k. revoke_key k now why) ks) (ret ks))"
    if "set ks \<inter> K = {}" for ks
  proof -
    have "keeps (asleep K) (for_each (\<lambda>k. revoke_key k now why) ks)"
      using that by (induction ks) (auto intro!: keeps_intros asleep_revoke_key)
    then show ?thesis by (intro keeps_thenE keeps_ret)
  qed
qed

interpretation dormant: row_invariant "\<lambda>S. asleep K"
proof unfold_locales
qed (assumption | rule asleep_other_tables asleep_deactivate asleep_add_key asleep_revoke_all)+

section \<open>A time that cannot be stored\<close>

lemma lapsed_asleep:
  assumes "db_ok d"
  shows "asleep (set (active_keys i d) - revoked_ids d) (lapse_keys i d)"
proof -
  have one: "k = k'" if "k \<in> set (keys d)" "k' \<in> set (keys d)" "ke_key_id k = ke_key_id k'" for k k'
    using same_key [of ke_key_id "keys d" k k'] assms that by (simp add: db_ok_defs)
  then have "\<not> ke_active k" if "k \<in> set (keys (lapse_keys i d))" "ke_key_id k \<in> set (active_keys i d)" for k
    using that by (auto simp: lapse_keys_def set_update_where active_keys_def split: if_splits)
  moreover have "set (active_keys i d) \<subseteq> ke_key_id ` set (keys (lapse_keys i d))"
    by (auto simp: active_keys_def)
  ultimately show ?thesis by (auto simp: asleep_def revoked_ids_def)
qed

text \<open>
  C29: A time too large to store disarms revocation. A room change whose body sets a
  \<open>now\<close> beyond 64 bits raises after the stay's keys are set inactive and before any of
  them is revoked, and is answered 500. As checkout and room change revoke active keys
  only, no key of the stay that was active then is revoked in any later history of
  requests, the checkout of the stay included.
\<close>

theorem overflowing_room_change_unrevokes:
  assumes "db_ok (app_db app)" "s \<in> set (stays (app_db app))" "st_status s \<noteq> CHECKED_OUT"
    and "rc_now rc = Some now" "\<not> fits now"
    and "k \<in> set (active_keys (st_stay_id s) (app_db app))" "k \<notin> re_key_id ` set (revocations (app_db app))"
    and "handle P f clock (PostRoomChange (st_stay_id s) rc) app = (answer, app')"
  shows "answer = \<lparr>http_status = 500, http_data = None\<rparr> \<and>
    k \<notin> re_key_id ` set (revocations (app_db (serve P later app')))"
proof -
  let ?i = "st_stay_id s" and ?d = "app_db app"
  have c: "clean ?i" using assms(1,2) by (simp add: db_ok_defs)
  have "active_keys ?i ?d \<noteq> []" using assms(6) by auto
  then have "lifecycle_change_room P f (app_property_sk app) ?i now (rc_new_room_id rc) ?d =
      (Inl OverflowError, lapse_keys ?i ?d)"
    using get_stay_row [OF assms(1,2)] assms(3) revoke_all_overflow [OF assms(1) c assms(5)]
    by (simp add: lifecycle_change_room_def)
  moreover have "with_db (get_stay ?i) app = (Inr (Some s), app)"
    by (rule with_db_read, rule get_stay_row [OF assms(1,2)])
  ultimately have run: "answer = \<lparr>http_status = 500, http_data = None\<rparr>" "app_db app' = lapse_keys ?i ?d"
    using assms(4,8)
    by (auto simp: handle_def respond_def room_change_def now_of_def with_db_def status_of_def)
  have "dormant.app_inv (set (active_keys ?i ?d) - revoked_ids ?d) app'"
    by (simp add: dormant.app_inv_def run(2) lapsed_asleep [OF assms(1)])
  from dormant.serve_inv [OF this, of P later] show ?thesis
    using run(1) assms(6,7) by (auto simp: dormant.app_inv_def asleep_def revoked_ids_def)
qed

text \<open>Ada's key, a room change at \<open>2 ^ 63\<close>, and then her checkout.\<close>

theorem overflowing_room_change_unrevokes_witness:
  "\<exists>app'. handle sample_platform other_fresh 1500
      (PostRoomChange (lit ''s_ada'') \<lparr>rc_now = Some (2 ^ 63), rc_new_room_id = None\<rparr>)
      (sample_app\<lparr>app_db := ada_keyed\<rparr>) = (\<lparr>http_status = 500, http_data = None\<rparr>, app') \<and>
    lit ''5f1e'' \<notin> re_key_id ` set (revocations (app_db
      (serve sample_platform [(other_fresh, 1600, PostCheckout (lit ''s_ada''))] app')))"
proof -
  let ?rc = "\<lparr>rc_now = Some (2 ^ 63), rc_new_room_id = None\<rparr>"
  obtain answer app' where run: "handle sample_platform other_fresh 1500 (PostRoomChange (st_stay_id ada_in) ?rc)
      (sample_app\<lparr>app_db := ada_keyed\<rparr>) = (answer, app')"
    by (metis prod.collapse)
  have "answer = \<lparr>http_status = 500, http_data = None\<rparr> \<and> lit ''5f1e'' \<notin> re_key_id ` set (revocations (app_db
      (serve sample_platform [(other_fresh, 1600, PostCheckout (lit ''s_ada''))] app')))"
    by (rule overflowing_room_change_unrevokes [OF _ _ _ _ _ _ _ run, of "2 ^ 63"])
      (simp_all add: fits_def CHECKED_OUT_def)
  then show ?thesis using run by auto
qed

end
