(* ===== verification/Latency_Bench.thy ===== *)
theory Latency_Bench
  imports Adversarial Api
begin

text \<open>
  \<open>bench/latency.py\<close>: how long the lock takes to decide and the property to issue. The
  readings of the clock are arguments, as are the keys and nonces drawn: \<open>ns i\<close> are the two
  \<open>perf_counter_ns\<close> readings around the \<open>i\<close>-th timed call, \<open>wall\<close> the two of
  \<open>perf_counter\<close>. Every quotient, product and sum of floats is rounded as the code's is.
\<close>

section \<open>Statistics\<close>

definition pct :: "rat list \<Rightarrow> rat \<Rightarrow> rat" where
  "pct sorted_ms p =
     (if sorted_ms = [] then 0
      else
        let last = int (length sorted_ms) - 1;
            k = max 0 (min last (py_round (fl (p * fl (of_int last)))))
        in sorted_ms ! nat k)"

record latency_summary =
  sample_count :: nat
  p50_ms :: rat
  p95_ms :: rat
  p99_ms :: rat
  mean_ms :: rat
  min_ms :: rat
  max_ms :: rat

definition summ :: "rat list \<Rightarrow> exn + latency_summary" where
  "summ samples_ms =
     (let s = sort samples_ms
      in if s = [] then Inl ZeroDivisionError
         else Inr
           \<lparr>sample_count = length s,
            p50_ms = round_to 4 (pct s (fl (50 / 100))),
            p95_ms = round_to 4 (pct s (fl (95 / 100))),
            p99_ms = round_to 4 (pct s (fl (99 / 100))),
            mean_ms = round_to 4 (fl (py_sum s / fl (of_nat (length s)))),
            min_ms = round_to 4 (s ! 0),
            max_ms = round_to 4 (last s)\<rparr>)"

section \<open>Offline verification\<close>

definition VERIFY_N :: nat where "VERIFY_N = 5000"
definition VERIFY_WARMUP :: nat where "VERIFY_WARMUP = 300"
definition ISSUE_N :: nat where "ISSUE_N = 2000"
definition ISSUE_WARMUP :: nat where "ISSUE_WARMUP = 200"

definition latency_args :: "time \<Rightarrow> 'sk issue_args" where
  "latency_args valid_from =
     \<lparr>ia_guest_id = lit ''g'', ia_stay_id = lit ''s'', ia_property_id = BENCH_PROPERTY_ID,
      ia_room_ids = [TARGET_ROOM], ia_valid_from = valid_from, ia_valid_until = BENCH_NOW + 3600,
      ia_issued_at = valid_from, ia_device_sk = None, ia_key_id = None, ia_nonce = None\<rparr>"

text \<open>A token, a challenge the lock has issued, and the device's response to it.\<close>

type_synonym triple = "pystr \<times> bytes \<times> bytes"

definition prepare_triple ::
  "('sk, 'pk) platform \<Rightarrow> 'sk \<Rightarrow> 'sk fresh \<Rightarrow> bytes \<Rightarrow> ('pk LockVerifier, triple) exec" where
  "prepare_triple P property_sk f challenge =
     bindE (lift_result (issue_credential P f property_sk (latency_args (BENCH_NOW - 3600))))
       (\<lambda>key. thenE (modify (begin_unlock challenge BENCH_NOW))
          (bindE (lift_result (device_sign P (ik_device_sk_b64 key) challenge))
             (\<lambda>response. ret (ik_token key, challenge, response))))"

definition elapsed_ms :: "int \<times> int \<Rightarrow> rat" where
  "elapsed_ms = (\<lambda>(t0, t1). fl (fl (of_int (t1 - t0)) / 1000000))"

primrec verify_loop ::
  "('sk, 'pk) platform \<Rightarrow> (nat \<Rightarrow> int \<times> int) \<Rightarrow> nat \<Rightarrow> triple list \<Rightarrow> rat list \<Rightarrow>
     ('pk LockVerifier, rat list) exec" where
  "verify_loop P ns i [] samples = ret samples"
| "verify_loop P ns i (t # ts) samples =
     (case t of (token, challenge, response) \<Rightarrow>
        bindE (finish_unlock P token challenge response BENCH_NOW)
          (\<lambda>dec. if \<not> unlocked dec then raise AssertionError
             else verify_loop P ns (Suc i) ts
                    (if VERIFY_WARMUP \<le> i then samples @ [elapsed_ms (ns i)] else samples)))"

definition throughput :: "nat \<Rightarrow> rat \<times> rat \<Rightarrow> exn + rat" where
  "throughput n = (\<lambda>(wall_start, wall_end).
     let elapsed = fl (wall_end - wall_start)
     in if elapsed = 0 then Inl ZeroDivisionError
        else Inr (round_to 1 (fl (fl (of_nat n) / elapsed))))"

definition bench_offline_verify ::
  "('sk, 'pk) platform \<Rightarrow> 'sk \<Rightarrow> 'sk \<Rightarrow> (nat \<Rightarrow> 'sk fresh) \<Rightarrow> (nat \<Rightarrow> bytes) \<Rightarrow> (nat \<Rightarrow> int \<times> int) \<Rightarrow>
     rat \<times> rat \<Rightarrow> exn + (latency_summary \<times> rat)" where
  "bench_offline_verify P property_sk attacker_sk f nonce ns wall =
     (let scn = build_scenario P property_sk attacker_sk
      in case make_lock P scn of
           Inl e \<Rightarrow> Inl e
         | Inr lk \<Rightarrow>
             fst (bindE
                (for_collect (\<lambda>i. prepare_triple P (scn_property_sk scn) (f i) (nonce i))
                   [0..<VERIFY_N + VERIFY_WARMUP]) (\<lambda>triples.
                bindE (verify_loop P ns 0 triples []) (\<lambda>samples.
                bindE (lift_result (summ samples)) (\<lambda>out.
                bindE (lift_result (throughput (length samples) wall)) (\<lambda>rate.
                ret (out, rate))))) lk))"

section \<open>Issuance\<close>

primrec issue_loop ::
  "('sk, 'pk) platform \<Rightarrow> 'sk \<Rightarrow> (nat \<Rightarrow> 'sk fresh) \<Rightarrow> (nat \<Rightarrow> int \<times> int) \<Rightarrow> nat list \<Rightarrow> rat list \<Rightarrow>
     exn + rat list" where
  "issue_loop P sk f ns [] samples = Inr samples"
| "issue_loop P sk f ns (i # is) samples =
     (case issue_credential P (f i) sk (latency_args BENCH_NOW) of
        Inl e \<Rightarrow> Inl e
      | Inr _ \<Rightarrow> issue_loop P sk f ns is
          (if ISSUE_WARMUP \<le> i then samples @ [elapsed_ms (ns i)] else samples))"

definition bench_issuance ::
  "('sk, 'pk) platform \<Rightarrow> 'sk \<Rightarrow> (nat \<Rightarrow> 'sk fresh) \<Rightarrow> (nat \<Rightarrow> int \<times> int) \<Rightarrow> exn + latency_summary" where
  "bench_issuance P property_sk f ns =
     (case issue_loop P property_sk f ns [0..<ISSUE_N + ISSUE_WARMUP] [] of
        Inl e \<Rightarrow> Inl e
      | Inr samples \<Rightarrow> summ samples)"

record latency_report =
  offline_verify :: latency_summary
  verifications_per_sec :: rat
  key_issuance :: latency_summary

definition latency_run ::
  "('sk, 'pk) platform \<Rightarrow> 'sk \<Rightarrow> 'sk \<Rightarrow> (nat \<Rightarrow> 'sk fresh) \<Rightarrow> (nat \<Rightarrow> bytes) \<Rightarrow> (nat \<Rightarrow> int \<times> int) \<Rightarrow>
     rat \<times> rat \<Rightarrow> 'sk \<Rightarrow> (nat \<Rightarrow> 'sk fresh) \<Rightarrow> (nat \<Rightarrow> int \<times> int) \<Rightarrow> exn + latency_report" where
  "latency_run P property_sk attacker_sk f nonce ns wall issuing_sk f' ns' =
     (case bench_offline_verify P property_sk attacker_sk f nonce ns wall of
        Inl e \<Rightarrow> Inl e
      | Inr (out, per_sec) \<Rightarrow>
          (case bench_issuance P issuing_sk f' ns' of
             Inl e \<Rightarrow> Inl e
           | Inr issuance \<Rightarrow>
               Inr \<lparr>offline_verify = out, verifications_per_sec = per_sec, key_issuance = issuance\<rparr>))"

end
