(* ===== verification/Latency_Properties.thy ===== *)
theory Latency_Properties
  imports Latency_Bench Lock_Guard
begin

text \<open>
  The latency bench as a theorem: its assertion never fails, it keeps the samples it says it
  keeps, and its percentiles are in order.
\<close>

section \<open>Percentiles\<close>

lemma pct_mono:
  assumes "sorted s" "p \<le> q"
  shows "pct s p \<le> pct s q"
proof (cases "s = []")
  case False
  let ?last = "int (length s) - 1"
  let ?i = "\<lambda>p. nat (max 0 (min ?last (py_round (fl (p * fl (of_int ?last))))))"
  have last: "0 \<le> ?last" using False by (cases s) simp_all
  then have "py_round (fl (p * fl (of_int ?last))) \<le> py_round (fl (q * fl (of_int ?last)))"
    using assms(2) last by (intro py_round_mono fl_mono mult_right_mono fl_nonneg) (simp_all del: of_int_diff)
  then have "?i p \<le> ?i q" by linarith
  moreover have "?i q < length s" using last by linarith
  moreover have "pct s r = s ! ?i r" for r using False by (simp add: pct_def Let_def)
  ultimately show ?thesis using assms(1) by (simp only: sorted_nth_mono)
qed (simp add: pct_def)

lemma sorted_bounds:
  fixes s :: "rat list"
  assumes "sorted s" "x \<in> set s"
  shows "s ! 0 \<le> x" "x \<le> last s"
proof -
  obtain i where i: "i < length s" "x = s ! i" using assms(2) by (auto simp: in_set_conv_nth)
  have "s \<noteq> []" using assms(2) by auto
  then show "s ! 0 \<le> x" "x \<le> last s"
    using i assms(1) by (auto simp: last_conv_nth intro!: sorted_nth_mono)
qed

lemma pct_in: "s \<noteq> [] \<Longrightarrow> pct s p \<in> set s"
  by (cases s) (auto simp: pct_def Let_def nth_Cons' intro!: nth_mem)

text \<open>What a summary says of its samples.\<close>

definition in_order :: "latency_summary \<Rightarrow> bool" where
  "in_order r \<longleftrightarrow>
     min_ms r \<le> p50_ms r \<and> p50_ms r \<le> p95_ms r \<and> p95_ms r \<le> p99_ms r \<and> p99_ms r \<le> max_ms r"

lemma summ_in_order:
  assumes "samples \<noteq> []"
  obtains r where "summ samples = Inr r" "sample_count r = length samples" "in_order r"
proof -
  let ?s = "sort samples"
  have s: "sorted ?s" "?s \<noteq> []" using assms sorted_sort [of samples] by (simp, metis length_0_conv length_sort)
  have within: "?s ! 0 \<le> pct ?s p" "pct ?s p \<le> last ?s" for p
    using sorted_bounds [OF s(1) pct_in [OF s(2)]] by simp_all
  let ?r = "\<lparr>sample_count = length ?s, p50_ms = round_to 4 (pct ?s (fl (50 / 100))), p95_ms = round_to 4 (pct ?s (fl (95 / 100))),
    p99_ms = round_to 4 (pct ?s (fl (99 / 100))), mean_ms = round_to 4 (fl (py_sum ?s / fl (of_nat (length ?s)))),
    min_ms = round_to 4 (?s ! 0), max_ms = round_to 4 (last ?s)\<rparr>"
  show ?thesis
  proof (rule that [of ?r])
    show "in_order ?r"
      unfolding in_order_def latency_summary.simps by (intro conjI round_to_mono within pct_mono s(1) fl_mono) simp_all
  qed (use assms s(2) in \<open>simp_all add: summ_def Let_def\<close>)
qed

section \<open>Many challenges at once\<close>

text \<open>Another challenge at the same moment leaves a live one live.\<close>

lemma issue_keeps_OK:
  assumes "store_inv s" "check s d t = OK" "c \<noteq> d"
  shows "check (issue c t s) d t = OK"
  using assms by (auto simp: check_OK_iff after_issue)

lemma latency_args_simps [simp]:
  "ia_property_id (latency_args i) = BENCH_PROPERTY_ID" "ia_room_ids (latency_args i) = [TARGET_ROOM]"
  "ia_valid_from (latency_args i) = i" "ia_valid_until (latency_args i) = BENCH_NOW + 3600"
  "device_key f (latency_args i) = fresh_sk f"
  by (simp_all add: latency_args_def device_key_def)

lemma latency_args_ok:
  assumes "fresh_ok f" "i \<in> {BENCH_NOW - 3600, BENCH_NOW}"
  shows "args_ok f (latency_args i)"
proof -
  have "text_ok BENCH_PROPERTY_ID" by (simp add: BENCH_PROPERTY_ID_def)
  then show ?thesis
    using assms by (auto simp: args_ok_def fresh_ok_def latency_args_def or_else_def short_int_64 BENCH_NOW_def TARGET_ROOM_def)
qed

lemma latency_issued:
  assumes "fresh_ok f" "i \<in> {BENCH_NOW - 3600, BENCH_NOW}"
  obtains ik where "issue_credential P f sk (latency_args i) = Inr ik"
  by (rule issue_credential_Inr [OF latency_args_ok [OF assms], of P sk])
    (use assms(2) in \<open>auto simp: BENCH_NOW_def\<close>)

text \<open>The lock while its live challenges are \<open>cs\<close>, of the \<open>used\<close> ones.\<close>

definition asked :: "('sk, 'pk) platform \<Rightarrow> 'sk \<Rightarrow> bytes set \<Rightarrow> bytes set \<Rightarrow> 'pk LockVerifier \<Rightarrow> bool" where
  "asked P sk used cs lk \<longleftrightarrow>
     guards BENCH_PROPERTY_ID TARGET_ROOM (public_key P sk) {} used lk \<and>
     (\<forall>c \<in> cs. check (lock_challenges lk) c BENCH_NOW = OK)"

lemma asked_begin:
  assumes "asked P sk used cs lk" "c \<notin> used" "cs \<subseteq> used"
  shows "asked P sk (insert c used) (insert c cs) (begin_unlock c BENCH_NOW lk)"
proof -
  note lk = assms(1) [unfolded asked_def]
  note begun = guards_begin [OF lk [THEN conjunct1] assms(2), of BENCH_NOW]
  have "store_inv (lock_challenges lk)" using lk by (auto simp: guards_def dest: challenges.tracks_inv)
  then have "check (lock_challenges (begin_unlock c BENCH_NOW lk)) d BENCH_NOW = OK" if "d \<in> cs" for d
    using issue_keeps_OK [of "lock_challenges lk" d BENCH_NOW c] lk that assms(2,3) by (auto simp: begin_unlock_def)
  then show ?thesis using begun by (simp add: asked_def)
qed

lemma asked_after:
  assumes "asked P sk used (insert c cs) lk" "c \<notin> cs"
  shows "asked P sk used cs (after_unlock c BENCH_NOW lk)"
proof -
  note lk = assms(1) [unfolded asked_def]
  have "check (lock_challenges (after_unlock c BENCH_NOW lk)) d BENCH_NOW = OK" if "d \<in> cs" for d
    using challenges.consume_other [of c d BENCH_NOW "lock_challenges lk" BENCH_NOW] lk that assms(2)
    by (auto simp: after_unlock_def)
  moreover have "guards BENCH_PROPERTY_ID TARGET_ROOM (public_key P sk) {} used (after_unlock c BENCH_NOW lk)"
    by (rule guards_after) (use lk in simp_all)
  ultimately show ?thesis by (simp add: asked_def)
qed

text \<open>A triple that opens the lock while its challenge is live.\<close>

definition unlocking :: "('sk, 'pk) platform \<Rightarrow> 'sk \<Rightarrow> triple \<Rightarrow> bytes \<Rightarrow> bool" where
  "unlocking P sk t c \<longleftrightarrow>
     (\<exists>f ik. fresh_ok f \<and> issue_credential P f sk (latency_args (BENCH_NOW - 3600)) = Inr ik \<and>
        t = (ik_token ik, c, sign P (fresh_sk f) c))"

lemma prepare_run:
  assumes "ed25519 P" "fresh_ok f"
  shows "\<exists>t. prepare_triple P sk f c lk = (Inr t, begin_unlock c BENCH_NOW lk) \<and> unlocking P sk t c"
proof -
  obtain ik where ik: "issue_credential P f sk (latency_args (BENCH_NOW - 3600)) = Inr ik"
    by (rule latency_issued [OF assms(2)]) auto
  have "device_sign P (ik_device_sk_b64 ik) c = Inr (sign P (fresh_sk f) c)"
    using device_sign_issued [OF assms(1) ik] by simp
  then have "prepare_triple P sk f c lk = (Inr (ik_token ik, c, sign P (fresh_sk f) c), begin_unlock c BENCH_NOW lk)"
    using ik by (simp add: prepare_triple_def lift_result_def)
  then show ?thesis using ik assms(2) by (auto simp: unlocking_def)
qed

lemma prepare_all:
  assumes "ed25519 P" "\<And>i. fresh_ok (f i)"
  shows "distinct (map c is) \<Longrightarrow> set (map c is) \<inter> used = {} \<Longrightarrow> cs \<subseteq> used \<Longrightarrow> asked P sk used cs lk \<Longrightarrow>
    \<exists>ts lk'. for_collect (\<lambda>i. prepare_triple P sk (f i) (c i)) is lk = (Inr ts, lk') \<and>
      asked P sk (set (map c is) \<union> used) (set (map c is) \<union> cs) lk' \<and> list_all2 (unlocking P sk) ts (map c is)"
proof (induction "is" arbitrary: used cs lk)
  case (Cons i "is")
  obtain t where t: "prepare_triple P sk (f i) (c i) lk = (Inr t, begin_unlock (c i) BENCH_NOW lk)" "unlocking P sk t (c i)"
    using prepare_run [OF assms] by blast
  have "asked P sk (insert (c i) used) (insert (c i) cs) (begin_unlock (c i) BENCH_NOW lk)"
    by (rule asked_begin [OF Cons.prems(4)]) (use Cons.prems(2,3) in auto)
  note asked = this
  have "set (map c is) \<inter> insert (c i) used = {}" "insert (c i) cs \<subseteq> insert (c i) used" "distinct (map c is)"
    using Cons.prems(1-3) by auto
  from Cons.IH [OF this(3,1,2) asked]
  obtain ts lk' where "for_collect (\<lambda>i. prepare_triple P sk (f i) (c i)) is (begin_unlock (c i) BENCH_NOW lk) = (Inr ts, lk')"
    "asked P sk (set (map c is) \<union> insert (c i) used) (set (map c is) \<union> insert (c i) cs) lk'"
    "list_all2 (unlocking P sk) ts (map c is)"
    by blast
  then show ?case using t by (intro exI [of _ "t # ts"] exI [of _ lk']) simp
qed auto

lemma unlocking_opens:
  assumes "ed25519 P" "unlocking P sk (token, c', r) c" "asked P sk used (insert c cs) lk"
  shows "c' = c" "\<exists>k. finish_unlock P token c r BENCH_NOW lk = (Inr (unlock k), after_unlock c BENCH_NOW lk)"
proof -
  obtain f ik where t: "fresh_ok f" "issue_credential P f sk (latency_args (BENCH_NOW - 3600)) = Inr ik"
    "token = ik_token ik" "c' = c" "r = sign P (fresh_sk f) c"
    using assms(2) by (auto simp: unlocking_def)
  show "c' = c" by (rule t(4))
  note lk = guardsD [OF assms(3) [unfolded asked_def, THEN conjunct1]]
  have "finish_unlock P (ik_token ik) c r BENCH_NOW lk = (Inr (unlock (ik_key_id ik)), after_unlock c BENCH_NOW lk)"
    by (rule finish_unlock_issued [OF assms(1) latency_args_ok [OF t(1)] t(2) lk(3)])
      (use assms(1,3) in \<open>simp_all add: lk issued_decision_def asked_def t(5) ed25519_simps BENCH_NOW_def\<close>)
  then show "\<exists>k. finish_unlock P token c r BENCH_NOW lk = (Inr (unlock k), after_unlock c BENCH_NOW lk)"
    using t(3) by blast
qed

text \<open>The samples of the rounds \<open>i, i + 1, ...\<close>\<close>

definition kept :: "nat \<Rightarrow> (nat \<Rightarrow> int \<times> int) \<Rightarrow> nat list \<Rightarrow> rat list" where
  "kept warmup ns is = map (\<lambda>i. elapsed_ms (ns i)) (filter (\<lambda>i. warmup \<le> i) is)"

lemma kept_rounds: "kept w ns [0..<n + w] = map (\<lambda>i. elapsed_ms (ns i)) [w..<n + w]"
proof -
  have "filter (\<lambda>i. w \<le> i) [0..<n + w] = [w..<n + w]"
    by (induction n) (auto simp: filter_empty_conv)
  then show ?thesis by (simp add: kept_def)
qed

lemma length_kept: "length (kept w ns [0..<n + w]) = n"
  by (simp add: kept_rounds)

lemma verify_all:
  assumes "ed25519 P"
  shows "list_all2 (unlocking P sk) ts cs \<Longrightarrow> distinct cs \<Longrightarrow> asked P sk used (set cs) lk \<Longrightarrow>
    \<exists>lk'. verify_loop P ns i ts samples lk = (Inr (samples @ kept VERIFY_WARMUP ns [i..<i + length ts]), lk')"
proof (induction ts cs arbitrary: i samples lk rule: list_all2_induct)
  case (Cons t ts c cs)
  obtain token c' r where t: "t = (token, c', r)" by (cases t)
  have lk: "asked P sk used (insert c (set cs)) lk" using Cons.prems(2) by simp
  note opens = unlocking_opens [OF assms Cons.hyps(1) [unfolded t] lk]
  have "asked P sk used (set cs) (after_unlock c BENCH_NOW lk)" using asked_after [OF lk] Cons.prems(1) by simp
  then obtain lk' where "verify_loop P ns (Suc i) ts (samples @ kept VERIFY_WARMUP ns [i]) (after_unlock c BENCH_NOW lk) =
      (Inr ((samples @ kept VERIFY_WARMUP ns [i]) @ kept VERIFY_WARMUP ns [Suc i..<Suc i + length ts]), lk')"
    using Cons.IH Cons.prems(1) by fastforce
  moreover have "kept VERIFY_WARMUP ns [i] @ kept VERIFY_WARMUP ns [Suc i..<Suc i + length ts] =
      kept VERIFY_WARMUP ns [i..<i + length (t # ts)]"
  proof -
    have "[i..<i + length (t # ts)] = i # [Suc i..<Suc i + length ts]" by (simp add: upt_conv_Cons del: upt_Suc)
    then show ?thesis by (simp add: kept_def)
  qed
  moreover have "samples @ kept VERIFY_WARMUP ns [i] =
      (if VERIFY_WARMUP \<le> i then samples @ [elapsed_ms (ns i)] else samples)"
    by (simp add: kept_def)
  moreover obtain k where "finish_unlock P token c r BENCH_NOW lk = (Inr (unlock k), after_unlock c BENCH_NOW lk)"
    using opens(2) by blast
  ultimately show ?case using opens(1) by (auto simp: t simp del: upt_Suc)
qed (simp add: kept_def)

section \<open>The run\<close>

lemma issue_all:
  assumes "\<And>i. fresh_ok (f i)"
  shows "issue_loop P sk f ns is samples = Inr (samples @ kept ISSUE_WARMUP ns is)"
proof (induction "is" arbitrary: samples)
  case (Cons i "is")
  obtain ik where "issue_credential P (f i) sk (latency_args BENCH_NOW) = Inr ik"
    by (rule latency_issued [where f = "f i" and i = BENCH_NOW, OF assms]) auto
  then show ?case using Cons.IH by (simp add: kept_def)
qed (simp add: kept_def)

lemma latency_lock:
  assumes "ed25519 P"
  obtains lk where "make_lock P (build_scenario P sk attacker) = Inr lk" "asked P sk {} {} lk"
  using new_lock_guards [OF assms, of BENCH_PROPERTY_ID TARGET_ROOM "public_key P sk" "[]" "{}"]
  by (auto simp: make_lock_def build_scenario_def asked_def)

lemma kept_nonempty: "0 < n \<Longrightarrow> kept w ns [0..<n + w] \<noteq> []"
  using length_kept [of w ns n] by auto

lemma offline_verify_run:
  assumes "ed25519 P" "\<And>i. fresh_ok (f i)" "inj nonce" "fl (snd wall - fst wall) \<noteq> 0"
  obtains r where "bench_offline_verify P sk attacker f nonce ns wall =
      Inr (r, round_to 1 (fl (fl (of_nat VERIFY_N) / fl (snd wall - fst wall))))"
    "summ (kept VERIFY_WARMUP ns [0..<VERIFY_N + VERIFY_WARMUP]) = Inr r" "sample_count r = VERIFY_N" "in_order r"
proof -
  let ?is = "[0..<VERIFY_N + VERIFY_WARMUP]"
  obtain lk where lk: "make_lock P (build_scenario P sk attacker) = Inr lk" "asked P sk {} {} lk"
    by (rule latency_lock [OF assms(1)])
  have nonces: "distinct (map nonce ?is)" using assms(3) by (simp add: distinct_map inj_on_def)
  have "set (map nonce ?is) \<inter> {} = {}" "({} :: bytes set) \<subseteq> {}" by simp_all
  from prepare_all [where f = f, OF assms(1,2) nonces this lk(2)]
  obtain ts lk1 where ts: "for_collect (\<lambda>i. prepare_triple P sk (f i) (nonce i)) ?is lk = (Inr ts, lk1)"
    "asked P sk (set (map nonce ?is) \<union> {}) (set (map nonce ?is) \<union> {}) lk1"
    "list_all2 (unlocking P sk) ts (map nonce ?is)"
    by blast
  have len: "length ts = VERIFY_N + VERIFY_WARMUP" using list_all2_lengthD [OF ts(3)] by simp
  from verify_all [OF assms(1) ts(3) nonces ts(2) [unfolded Un_empty_right], of ns 0 "[]"]
  obtain lk2 where loop: "verify_loop P ns 0 ts [] lk1 = (Inr (kept VERIFY_WARMUP ns ?is), lk2)"
    by (auto simp: len)
  have "kept VERIFY_WARMUP ns ?is \<noteq> []" by (rule kept_nonempty) (simp add: VERIFY_N_def)
  then obtain r where r: "summ (kept VERIFY_WARMUP ns ?is) = Inr r"
    "sample_count r = length (kept VERIFY_WARMUP ns ?is)" "in_order r"
    by (rule summ_in_order)
  have "throughput VERIFY_N wall = Inr (round_to 1 (fl (fl (of_nat VERIFY_N) / fl (snd wall - fst wall))))"
    using assms(4) by (cases wall) (simp add: throughput_def)
  then have "bench_offline_verify P sk attacker f nonce ns wall =
      Inr (r, round_to 1 (fl (fl (of_nat VERIFY_N) / fl (snd wall - fst wall))))"
    using lk(1) ts(1) loop r(1)
    by (simp add: bench_offline_verify_def build_scenario_def lift_result_def length_kept)
  then show ?thesis using that r by (simp add: length_kept)
qed

lemma latency_run_result:
  assumes "ed25519 P" "\<forall>i. fresh_ok (f i) \<and> fresh_ok (f' i)" "inj nonce" "fl (snd wall - fst wall) \<noteq> 0"
  shows "\<exists>rep. latency_run P sk attacker f nonce ns wall sk' f' ns' = Inr rep \<and>
    summ (map (\<lambda>i. elapsed_ms (ns i)) [300..<5300]) = Inr (offline_verify rep) \<and>
    verifications_per_sec rep = round_to 1 (fl (fl 5000 / fl (snd wall - fst wall))) \<and>
    summ (map (\<lambda>i. elapsed_ms (ns' i)) [200..<2200]) = Inr (key_issuance rep) \<and>
    sample_count (offline_verify rep) = 5000 \<and> sample_count (key_issuance rep) = 2000 \<and>
    list_all (\<lambda>r. min_ms r \<le> p50_ms r \<and> p50_ms r \<le> p95_ms r \<and> p95_ms r \<le> p99_ms r \<and> p99_ms r \<le> max_ms r)
      [offline_verify rep, key_issuance rep]"
proof -
  have fresh: "\<And>i. fresh_ok (f i)" "\<And>i. fresh_ok (f' i)" using assms(2) by simp_all
  obtain r where r: "bench_offline_verify P sk attacker f nonce ns wall =
      Inr (r, round_to 1 (fl (fl (of_nat VERIFY_N) / fl (snd wall - fst wall))))"
    "summ (kept VERIFY_WARMUP ns [0..<VERIFY_N + VERIFY_WARMUP]) = Inr r" "sample_count r = VERIFY_N" "in_order r"
    by (rule offline_verify_run [where f = f, OF assms(1) fresh(1) assms(3,4)])
  let ?samples = "kept ISSUE_WARMUP ns' [0..<ISSUE_N + ISSUE_WARMUP]"
  have "?samples \<noteq> []" by (rule kept_nonempty) (simp add: ISSUE_N_def)
  then obtain r' where r': "summ ?samples = Inr r'" "sample_count r' = length ?samples" "in_order r'"
    by (rule summ_in_order)
  have "bench_issuance P sk' f' ns' = Inr r'"
    using issue_all [where f = f' and P = P and sk = sk' and ns = ns', OF fresh(2)] r'(1) by (simp add: bench_issuance_def)
  then have run: "latency_run P sk attacker f nonce ns wall sk' f' ns' = Inr \<lparr>offline_verify = r,
      verifications_per_sec = round_to 1 (fl (fl (of_nat VERIFY_N) / fl (snd wall - fst wall))), key_issuance = r'\<rparr>"
    using r(1) by (simp add: latency_run_def)
  have "VERIFY_N = 5000" "VERIFY_WARMUP = 300" "ISSUE_N = 2000" "ISSUE_WARMUP = 200"
    by (simp_all add: VERIFY_N_def VERIFY_WARMUP_def ISSUE_N_def ISSUE_WARMUP_def)
  note sizes = this
  have rounds: "kept VERIFY_WARMUP ns [0..<VERIFY_N + VERIFY_WARMUP] = map (\<lambda>i. elapsed_ms (ns i)) [300..<5300]"
    "?samples = map (\<lambda>i. elapsed_ms (ns' i)) [200..<2200]"
    unfolding kept_rounds by (simp_all add: sizes del: upt_Suc upt_rec_numeral)
  have "sample_count r' = 2000"
    unfolding r'(2) length_kept by (rule sizes(3))
  note counts = r(3) [unfolded sizes] this
  have orders: "list_all (\<lambda>r. min_ms r \<le> p50_ms r \<and> p50_ms r \<le> p95_ms r \<and> p95_ms r \<le> p99_ms r \<and>
      p99_ms r \<le> max_ms r) [r, r']"
    using r(4) r'(3) by (simp add: in_order_def)
  have five: "of_nat VERIFY_N = (5000 :: rat)" by (simp add: sizes)
  let ?rep = "\<lparr>offline_verify = r,
    verifications_per_sec = round_to 1 (fl (fl 5000 / fl (snd wall - fst wall))), key_issuance = r'\<rparr>"
  have fields: "offline_verify ?rep = r" "key_issuance ?rep = r'"
    "verifications_per_sec ?rep = round_to 1 (fl (fl 5000 / fl (snd wall - fst wall)))"
    by (simp_all only: latency_report.select_convs)
  show ?thesis
    by (rule exI [of _ ?rep], unfold fields)
      (intro conjI run [unfolded five] r(2) [unfolded rounds] r'(1) [unfolded rounds] counts orders refl)
qed

text \<open>
  C40: The latency bench. Under a working signature scheme, whatever keys are drawn, as long as
  no nonce is drawn twice, and whatever the clocks read, as long as the wall clock moves
  between its two readings, the bench runs through: all 5300 outstanding challenges are
  answered in time, so its assertion that every legitimate key unlocks never fails; it
  summarises the 5000 verifications and the 2000 issuances that follow the warm-up, and the
  throughput is 5000 by the elapsed time; and in both summaries the minimum, the percentiles
  and the maximum are in order, in the code's own float arithmetic.
\<close>

theorem latency_bench:
  assumes "ed25519 P" "\<forall>i. fresh_ok (f i) \<and> fresh_ok (f' i)" "inj nonce" "fl (snd wall - fst wall) \<noteq> 0"
  shows "\<exists>rep. latency_run P sk attacker f nonce ns wall sk' f' ns' = Inr rep \<and>
    summ (map (\<lambda>i. elapsed_ms (ns i)) [300..<5300]) = Inr (offline_verify rep) \<and>
    verifications_per_sec rep = round_to 1 (fl (fl 5000 / fl (snd wall - fst wall))) \<and>
    summ (map (\<lambda>i. elapsed_ms (ns' i)) [200..<2200]) = Inr (key_issuance rep) \<and>
    sample_count (offline_verify rep) = 5000 \<and> sample_count (key_issuance rep) = 2000 \<and>
    list_all (\<lambda>r. min_ms r \<le> p50_ms r \<and> p50_ms r \<le> p95_ms r \<and> p95_ms r \<le> p99_ms r \<and> p99_ms r \<le> max_ms r)
      [offline_verify rep, key_issuance rep]"
  by (rule latency_run_result [OF assms])

theorem latency_bench_witness:
  "\<exists>rep. latency_run sample_platform [1, 2] [3] (\<lambda>i. sample_fresh) (\<lambda>i. replicate i 0) (\<lambda>i. (0, 150000))
     (0, 1) [4] (\<lambda>i. sample_fresh) (\<lambda>i. (0, 90000)) = Inr rep \<and> sample_count (offline_verify rep) = 5000 \<and>
     min_ms (key_issuance rep) \<le> p50_ms (key_issuance rep)"
proof -
  have "inj (\<lambda>i. replicate i 0 :: bytes)" by (rule injI) (metis length_replicate)
  moreover have "\<forall>i :: nat. fresh_ok sample_fresh \<and> fresh_ok sample_fresh"
    by (simp add: fresh_ok_def sample_fresh_def)
  moreover have "fl (snd (0, 1) - fst (0, 1)) \<noteq> 0" by simp
  ultimately show ?thesis
    using latency_bench [OF sample_ed25519, of "\<lambda>i. sample_fresh" "\<lambda>i. sample_fresh" "\<lambda>i. replicate i 0" "(0, 1)"
        "[1, 2]" "[3]" "\<lambda>i. (0, 150000)" "[4]" "\<lambda>i. (0, 90000)"] by (auto simp del: upt_Suc upt_rec_numeral)
qed

end
