(* ===== verification/Lock_Race.thy ===== *)
theory Lock_Race
  imports Lock_Guard
begin

text \<open>
  Concurrent presentations at one lock. The service calls \<open>finish_unlock\<close> from a pool of
  threads and the lock object has no mutex, so the call is a sequence of steps between
  which other presentations, challenges and revocation syncs may run. What holds of
  every opening under any interleaving, what a spent challenge rules out, and what two
  simultaneous presentations of one response get.
\<close>

section \<open>A presentation as steps\<close>

record presentation =
  pr_token :: pystr
  pr_challenge :: bytes
  pr_response :: bytes
  pr_now :: time

text \<open>
  The progress of one call: past the static checks, past the lookup among the consumed
  challenges, past the lookup among the pending ones, past the device's proof, past
  \<open>pending.pop\<close>, and returned.
\<close>

datatype phase =
    Arrived
  | Admitted payload
  | Unspent payload
  | Live payload
  | Proven payload
  | Popped payload
  | Decided "exn + Decision"

definition present_step ::
  "('sk, 'pk) platform \<Rightarrow> presentation \<Rightarrow> 'pk LockVerifier \<times> phase \<Rightarrow> 'pk LockVerifier \<times> phase" where
  "present_step P pr = (\<lambda>(lk, ph).
     let key_id = (\<lambda>payload. py_str P (field payload ''key_id''));
         s = lock_challenges lk
     in case ph of
          Arrived \<Rightarrow>
            (case evaluate_static P (pr_token pr) (lock_property_pub lk) (lock_property_id lk)
                    (lock_room_id lk) (pr_now pr) (lock_revoked lk) of
               Inl e \<Rightarrow> (lk, Decided (Inl e))
             | Inr static \<Rightarrow>
                 (case static_deny static of
                    Some d \<Rightarrow> (lk, Decided (Inr d))
                  | None \<Rightarrow>
                      (case static_payload static of
                         None \<Rightarrow> (lk, Decided (Inl AssertionError))
                       | Some payload \<Rightarrow> (lk, Admitted payload))))
        | Admitted payload \<Rightarrow>
            if map_of (consumed s) (pr_challenge pr) \<noteq> None
            then (lk, Decided (Inr (deny REPLAYED (Some (key_id payload)))))
            else (lk, Unspent payload)
        | Unspent payload \<Rightarrow>
            (case map_of (pending s) (pr_challenge pr) of
               None \<Rightarrow> (lk, Decided (Inr (deny UNKNOWN_CHALLENGE (Some (key_id payload)))))
             | Some issued_at \<Rightarrow>
                 if pr_now pr - issued_at > ttl s
                 then (lk, Decided (Inr (deny UNKNOWN_CHALLENGE (Some (key_id payload)))))
                 else (lk, Live payload))
        | Live payload \<Rightarrow>
            (case verify_device_response P (field payload ''device_pub'') (pr_challenge pr)
                    (pr_response pr) of
               Inl e \<Rightarrow> (lk, Decided (Inl e))
             | Inr False \<Rightarrow> (lk, Decided (Inr (deny BAD_RESPONSE (Some (key_id payload)))))
             | Inr True \<Rightarrow> (lk, Proven payload))
        | Proven payload \<Rightarrow>
            (lk\<lparr>lock_challenges := s\<lparr>pending := AList.delete (pr_challenge pr) (pending s)\<rparr>\<rparr>,
             Popped payload)
        | Popped payload \<Rightarrow>
            (lk\<lparr>lock_challenges :=
                 s\<lparr>consumed := AList.update (pr_challenge pr) (pr_now pr) (consumed s)\<rparr>\<rparr>,
             Decided (Inr (unlock (key_id payload))))
        | Decided r \<Rightarrow> (lk, Decided r))"

lemma present_step_simps:
  "present_step P pr (lk, Admitted p) =
     (lk, if map_of (consumed (lock_challenges lk)) (pr_challenge pr) \<noteq> None
          then Decided (Inr (deny REPLAYED (Some (py_str P (field p ''key_id'')))))
          else Unspent p)"
  "present_step P pr (lk, Unspent p) =
     (lk, case map_of (pending (lock_challenges lk)) (pr_challenge pr) of
            None \<Rightarrow> Decided (Inr (deny UNKNOWN_CHALLENGE (Some (py_str P (field p ''key_id'')))))
          | Some t0 \<Rightarrow>
              if pr_now pr - t0 > ttl (lock_challenges lk)
              then Decided (Inr (deny UNKNOWN_CHALLENGE (Some (py_str P (field p ''key_id'')))))
              else Live p)"
  "present_step P pr (lk, Live p) =
     (lk, case verify_device_response P (field p ''device_pub'') (pr_challenge pr) (pr_response pr) of
            Inl e \<Rightarrow> Decided (Inl e)
          | Inr ok \<Rightarrow>
              if ok then Proven p
              else Decided (Inr (deny BAD_RESPONSE (Some (py_str P (field p ''key_id''))))))"
  "present_step P pr (lk, Proven p) =
     (lk\<lparr>lock_challenges := (lock_challenges lk)
           \<lparr>pending := AList.delete (pr_challenge pr) (pending (lock_challenges lk))\<rparr>\<rparr>, Popped p)"
  "present_step P pr (lk, Popped p) =
     (lk\<lparr>lock_challenges := (lock_challenges lk)
           \<lparr>consumed := AList.update (pr_challenge pr) (pr_now pr) (consumed (lock_challenges lk))\<rparr>\<rparr>,
      Decided (Inr (unlock (py_str P (field p ''key_id'')))))"
  "present_step P pr (lk, Decided r) = (lk, Decided r)"
  by (simp_all add: present_step_def Let_def split: option.split sum.split bool.split)

text \<open>Every step but the two that spend the challenge leaves the lock as it is.\<close>

lemma present_step_reads:
  assumes "\<And>p. ph \<noteq> Proven p" "\<And>p. ph \<noteq> Popped p"
  shows "fst (present_step P pr (lk, ph)) = lk"
  using assms
  by (cases ph) (auto simp: present_step_def Let_def split: sum.splits option.splits bool.splits)

section \<open>A door in use by many\<close>

text \<open>
  The lock and the calls in progress; beside them, for the statements, every challenge
  handed out with its time, and every revocation list the lock was told, newest first.
\<close>

record 'pk door =
  door_lock :: "'pk LockVerifier"
  door_calls :: "(presentation \<times> phase) list"
  nonces_asked :: "(bytes \<times> time) list"
  lists_told :: "pystr set list"

definition new_door :: "'pk LockVerifier \<Rightarrow> 'pk door" where
  "new_door lk = \<lparr>door_lock = lk, door_calls = [], nonces_asked = [], lists_told = [lock_revoked lk]\<rparr>"

definition door_turn :: "('sk, 'pk) platform \<Rightarrow> nat \<Rightarrow> 'pk door \<Rightarrow> 'pk door" where
  "door_turn P n D =
     (case door_calls D ! n of
        (pr, ph) \<Rightarrow>
          (case present_step P pr (door_lock D, ph) of
             (lk, ph') \<Rightarrow> D\<lparr>door_lock := lk, door_calls := (door_calls D)[n := (pr, ph')]\<rparr>))"

text \<open>The random source never repeats a nonce.\<close>

inductive door_step :: "('sk, 'pk) platform \<Rightarrow> 'pk door \<Rightarrow> 'pk door \<Rightarrow> bool" for P where
  ds_turn: "n < length (door_calls D) \<Longrightarrow> door_step P D (door_turn P n D)"
| ds_arrive: "door_step P D (D\<lparr>door_calls := door_calls D @ [(pr, Arrived)]\<rparr>)"
| ds_ask: "c \<notin> fst ` set (nonces_asked D) \<Longrightarrow>
    door_step P D (D\<lparr>door_lock := begin_unlock c t (door_lock D),
      nonces_asked := (c, t) # nonces_asked D\<rparr>)"
| ds_sync: "door_step P D (D\<lparr>door_lock := sync_revocations rs (door_lock D),
      lists_told := set rs # lists_told D\<rparr>)"

section \<open>Alone\<close>

lemma decided_stays: "(present_step P pr ^^ n) (lk, Decided r) = (lk, Decided r)"
  by (induction n) (simp_all add: present_step_simps)

text \<open>From the second step on, by the step reached.\<close>

lemma proven_alone:
  "(present_step P pr ^^ Suc (Suc n)) (lk, Proven p) =
     (after_unlock (pr_challenge pr) (pr_now pr) lk,
      Decided (Inr (unlock (py_str P (field p ''key_id'')))))"
  by (simp add: funpow_Suc_right present_step_simps decided_stays after_unlock_def consume_def
      del: funpow.simps)

lemma live_alone:
  "(present_step P pr ^^ Suc (Suc (Suc n))) (lk, Live p) =
     (case verify_device_response P (field p ''device_pub'') (pr_challenge pr) (pr_response pr) of
        Inl e \<Rightarrow> (lk, Decided (Inl e))
      | Inr ok \<Rightarrow>
          if ok then (after_unlock (pr_challenge pr) (pr_now pr) lk,
                      Decided (Inr (unlock (py_str P (field p ''key_id'')))))
          else (lk, Decided (Inr (deny BAD_RESPONSE (Some (py_str P (field p ''key_id'')))))))"
  by (subst funpow_Suc_right)
    (simp add: present_step_simps decided_stays proven_alone del: funpow.simps split: sum.split)

lemma admitted_alone:
  "(present_step P pr ^^ Suc (Suc (Suc (Suc (Suc n))))) (lk, Admitted p) =
     (case check (lock_challenges lk) (pr_challenge pr) (pr_now pr) of
        STATUS_REPLAYED \<Rightarrow> (lk, Decided (Inr (deny REPLAYED (Some (py_str P (field p ''key_id''))))))
      | UNKNOWN \<Rightarrow> (lk, Decided (Inr (deny UNKNOWN_CHALLENGE (Some (py_str P (field p ''key_id''))))))
      | OK \<Rightarrow> (present_step P pr ^^ Suc (Suc (Suc n))) (lk, Live p))"
proof -
  have "(present_step P pr ^^ Suc (Suc (Suc (Suc (Suc n))))) (lk, Admitted p) =
      (present_step P pr ^^ Suc (Suc (Suc n))) (present_step P pr (present_step P pr (lk, Admitted p)))"
    by (simp only: funpow_Suc_right o_apply)
  then show ?thesis
    by (simp add: present_step_simps decided_stays check_def del: funpow.simps split: option.split)
qed

lemma finish_unlock_alone:
  "(present_step P pr ^^ 6) (lk, Arrived) =
     (snd (finish_unlock P (pr_token pr) (pr_challenge pr) (pr_response pr) (pr_now pr) lk),
      Decided (fst (finish_unlock P (pr_token pr) (pr_challenge pr) (pr_response pr) (pr_now pr) lk)))"
proof -
  have six: "(present_step P pr ^^ 6) (lk, Arrived) =
      (present_step P pr ^^ Suc (Suc (Suc (Suc (Suc 0))))) (present_step P pr (lk, Arrived))"
    by (simp add: numeral_eq_Suc funpow_Suc_right del: funpow.simps)
  show ?thesis
  proof (cases rule: evaluate_static_cases [OF refl, of P "pr_token pr" "lock_property_pub lk"
        "lock_property_id lk" "lock_room_id lk" "pr_now pr" "lock_revoked lk"])
    case (1 e)
    then have "present_step P pr (lk, Arrived) = (lk, Decided (Inl e))"
      by (simp add: present_step_def)
    with 1 show ?thesis unfolding six by (simp add: decided_stays finish_unlock_def del: funpow.simps)
  next
    case (2 reason k)
    then have "present_step P pr (lk, Arrived) = (lk, Decided (Inr (deny reason k)))"
      by (simp add: present_step_def Credential.denied_def)
    with 2 show ?thesis unfolding six
      by (simp add: decided_stays finish_unlock_def Credential.denied_def del: funpow.simps)
  next
    case (3 p)
    then have "present_step P pr (lk, Arrived) = (lk, Admitted p)"
      by (simp add: present_step_def)
    then show ?thesis using 3 unfolding six
      by (cases "check (lock_challenges lk) (pr_challenge pr) (pr_now pr)")
        (simp_all add: admitted_alone live_alone finish_unlock_def Let_def after_unlock_def
          del: funpow.simps split: sum.split bool.split)
  qed
qed

section \<open>The state of a door in use\<close>

definition vouched :: "('sk, 'pk) platform \<Rightarrow> 'pk door \<Rightarrow> presentation \<Rightarrow> payload \<Rightarrow> bool" where
  "vouched P D pr p \<longleftrightarrow>
     token_carries P (lock_property_pub (door_lock D)) (pr_token pr) p \<and>
     (\<exists>R \<in> set (lists_told D). static_ok P p (lock_property_id (door_lock D))
        (lock_room_id (door_lock D)) (pr_now pr) R)"

definition in_time :: "'pk door \<Rightarrow> presentation \<Rightarrow> bool" where
  "in_time D pr \<longleftrightarrow>
     (\<exists>t0. (pr_challenge pr, t0) \<in> set (nonces_asked D) \<and> pr_now pr - t0 \<le> CHALLENGE_TTL_SECONDS)"

definition earned :: "('sk, 'pk) platform \<Rightarrow> 'pk door \<Rightarrow> presentation \<Rightarrow> payload \<Rightarrow> bool" where
  "earned P D pr p \<longleftrightarrow> vouched P D pr p \<and> in_time D pr \<and>
     verify_device_response P (field p ''device_pub'') (pr_challenge pr) (pr_response pr) = Inr True"

text \<open>A challenge that was handed out and is pending no more, so never will be again.\<close>

definition spent :: "'pk door \<Rightarrow> bytes \<Rightarrow> bool" where
  "spent D c \<longleftrightarrow> c \<in> fst ` set (nonces_asked D) \<and>
     map_of (pending (lock_challenges (door_lock D))) c = None"

text \<open>What a call in each phase has already established.\<close>

definition opened_call :: "presentation \<times> phase \<Rightarrow> bool" where
  "opened_call = (\<lambda>(pr, ph). case ph of Decided (Inr d) \<Rightarrow> unlocked d | _ \<Rightarrow> False)"

definition standing :: "('sk, 'pk) platform \<Rightarrow> 'pk door \<Rightarrow> presentation \<times> phase \<Rightarrow> bool" where
  "standing P D = (\<lambda>(pr, ph). case ph of
       Arrived \<Rightarrow> True
     | Admitted p \<Rightarrow> vouched P D pr p
     | Unspent p \<Rightarrow> vouched P D pr p
     | Live p \<Rightarrow> vouched P D pr p \<and> in_time D pr
     | Proven p \<Rightarrow> earned P D pr p
     | Popped p \<Rightarrow> earned P D pr p \<and> spent D (pr_challenge pr)
     | Decided (Inl e) \<Rightarrow> True
     | Decided (Inr d) \<Rightarrow> unlocked d \<longrightarrow>
         (\<exists>p. earned P D pr p \<and> d = unlock (py_str P (field p ''key_id''))) \<and> spent D (pr_challenge pr))"

definition door_ok :: "('sk, 'pk) platform \<Rightarrow> 'pk door \<Rightarrow> bool" where
  "door_ok P D \<longleftrightarrow>
     store_inv (lock_challenges (door_lock D)) \<and>
     ttl (lock_challenges (door_lock D)) = CHALLENGE_TTL_SECONDS \<and>
     lock_revoked (door_lock D) \<in> set (lists_told D) \<and>
     (\<forall>c t. map_of (pending (lock_challenges (door_lock D))) c = Some t \<longrightarrow> (c, t) \<in> set (nonces_asked D)) \<and>
     (\<forall>c. map_of (consumed (lock_challenges (door_lock D))) c \<noteq> None \<longrightarrow> c \<in> fst ` set (nonces_asked D)) \<and>
     list_all (standing P D) (door_calls D)"

text \<open>What every step keeps of the past.\<close>

definition onward :: "'pk door \<Rightarrow> 'pk door \<Rightarrow> bool" where
  "onward D D' \<longleftrightarrow>
     lock_property_pub (door_lock D') = lock_property_pub (door_lock D) \<and>
     lock_property_id (door_lock D') = lock_property_id (door_lock D) \<and>
     lock_room_id (door_lock D') = lock_room_id (door_lock D) \<and>
     set (lists_told D) \<subseteq> set (lists_told D') \<and> set (nonces_asked D) \<subseteq> set (nonces_asked D') \<and>
     (\<forall>c. spent D c \<longrightarrow> spent D' c)"

lemma onward_trans: "onward A B \<Longrightarrow> onward B C \<Longrightarrow> onward A C"
  by (auto simp: onward_def)

lemma onward_keeps:
  assumes "onward D D'"
  shows "vouched P D pr p \<Longrightarrow> vouched P D' pr p" "in_time D pr \<Longrightarrow> in_time D' pr"
    "earned P D pr p \<Longrightarrow> earned P D' pr p" "spent D c \<Longrightarrow> spent D' c"
  using assms by (auto simp: onward_def vouched_def in_time_def earned_def)

lemma standing_onward:
  assumes "onward D D'" "standing P D call"
  shows "standing P D' call"
proof (cases call)
  case (Pair pr ph)
  with assms show ?thesis
    by (cases ph)
      (auto simp: standing_def intro: onward_keeps [OF assms(1)] split: sum.splits)
qed

lemma standing_kept:
  assumes "onward D D'" "door_calls D' = door_calls D" "list_all (standing P D) (door_calls D)"
  shows "list_all (standing P D') (door_calls D')"
  using assms standing_onward [OF assms(1)] by (auto simp: list_all_iff)

section \<open>Every step keeps it\<close>

lemma calls_updated:
  assumes "list_all Q xs" "Q x"
  shows "list_all Q (xs[n := x])"
  using assms set_update_subset_insert [of xs n x] by (auto simp: list_all_iff)

text \<open>A change of the calls alone.\<close>

lemma door_ok_calls:
  assumes "door_ok P D" "list_all (standing P D) cs"
  shows "door_ok P (D\<lparr>door_calls := cs\<rparr>)" "onward D (D\<lparr>door_calls := cs\<rparr>)"
proof -
  show on: "onward D (D\<lparr>door_calls := cs\<rparr>)" by (simp add: onward_def spent_def)
  have "list_all (standing P (D\<lparr>door_calls := cs\<rparr>)) cs"
    using assms(2) standing_onward [OF on] by (auto simp: list_all_iff)
  then show "door_ok P (D\<lparr>door_calls := cs\<rparr>)" using assms(1) by (simp add: door_ok_def)
qed

lemma ask_keeps:
  assumes "door_ok P D" "c \<notin> fst ` set (nonces_asked D)"
    and "D' = D\<lparr>door_lock := begin_unlock c t (door_lock D), nonces_asked := (c, t) # nonces_asked D\<rparr>"
  shows "door_ok P D' \<and> onward D D'"
proof -
  let ?s = "lock_challenges (door_lock D)"
  have inv: "store_inv ?s" using assms(1) by (simp add: door_ok_def)
  have "map_of (consumed ?s) c = None" using assms(1,2) by (auto simp: door_ok_def)
  then have inv': "store_inv (issue c t ?s)"
    using store_inv_issue [OF inv, of c t] by (simp add: check_replayed_iff)
  have sp: "spent D d \<Longrightarrow> spent D' d" for d
    using assms(2) by (auto simp: spent_def assms(3) begin_unlock_def after_issue [OF inv])
  then have on: "onward D D'" by (auto simp: onward_def assms(3) begin_unlock_def)
  have "list_all (standing P D') (door_calls D')"
    by (rule standing_kept [OF on]) (use assms(1) in \<open>auto simp: assms(3) door_ok_def\<close>)
  moreover have "(d, t0) \<in> set (nonces_asked D')"
    if "map_of (pending (issue c t ?s)) d = Some t0" for d t0
    using that assms(1) young_cases [of "ttl ?s" t "map_of (pending ?s) d"]
    by (auto simp: after_issue [OF inv] assms(3) door_ok_def split: if_splits)
  moreover have "d \<in> fst ` set (nonces_asked D')"
    if "map_of (consumed (issue c t ?s)) d \<noteq> None" for d
    using that assms(1) young_cases [of "ttl ?s * 4" t "map_of (consumed ?s) d"]
    by (auto simp: after_issue [OF inv] assms(3) door_ok_def)
  ultimately show ?thesis
    using on inv' assms(1) by (auto simp: door_ok_def assms(3) begin_unlock_def)
qed

lemma sync_keeps:
  assumes "door_ok P D"
    and "D' = D\<lparr>door_lock := sync_revocations rs (door_lock D), lists_told := set rs # lists_told D\<rparr>"
  shows "door_ok P D' \<and> onward D D'"
proof -
  have on: "onward D D'" by (auto simp: onward_def spent_def assms(2) sync_revocations_def)
  have "list_all (standing P D') (door_calls D')"
    by (rule standing_kept [OF on]) (use assms in \<open>auto simp: door_ok_def\<close>)
  then show ?thesis using on assms(1) by (auto simp: door_ok_def assms(2) sync_revocations_def)
qed

text \<open>The first four steps of a call only read.\<close>

lemma reading_step_standing:
  assumes "door_ok P D" "standing P D (pr, ph)" "\<And>p. ph \<noteq> Proven p" "\<And>p. ph \<noteq> Popped p"
    and "present_step P pr (door_lock D, ph) = (lk, ph')"
  shows "standing P D (pr, ph')"
proof (cases ph)
  case Arrived
  note lists = assms(1) [unfolded door_ok_def]
  show ?thesis
  proof (cases rule: evaluate_static_cases [OF refl, of P "pr_token pr"
        "lock_property_pub (door_lock D)" "lock_property_id (door_lock D)"
        "lock_room_id (door_lock D)" "pr_now pr" "lock_revoked (door_lock D)"])
    case 3
    then show ?thesis using assms(5) lists Arrived
      by (auto simp: present_step_def standing_def vouched_def)
  qed (use assms(5) Arrived in \<open>auto simp: present_step_def standing_def Credential.denied_def\<close>)
next
  case (Admitted p)
  then show ?thesis using assms(2,5)
    by (auto simp: present_step_simps standing_def split: if_splits)
next
  case (Unspent p)
  show ?thesis
  proof (cases ph')
    case (Live q)
    then obtain t0 where "map_of (pending (lock_challenges (door_lock D))) (pr_challenge pr) = Some t0"
      "\<not> pr_now pr - t0 > ttl (lock_challenges (door_lock D))" "q = p"
      using assms(5) Unspent by (auto simp: present_step_simps split: option.splits if_splits)
    then have "in_time D pr"
      using assms(1) by (auto simp: door_ok_def in_time_def not_less intro: exI [of _ t0])
    then show ?thesis using assms(2) Unspent Live \<open>q = p\<close> by (simp add: standing_def)
  qed (use assms(2,5) Unspent in \<open>auto simp: present_step_simps standing_def split: option.splits if_splits\<close>)
next
  case (Live p)
  then show ?thesis using assms(2,5)
    by (auto simp: present_step_simps standing_def earned_def split: sum.splits if_splits)
qed (use assms in \<open>auto simp: present_step_simps\<close>)

lemma pop_keeps:
  assumes "door_ok P D" "earned P D pr p"
    and "D' = D\<lparr>door_lock := (door_lock D)\<lparr>lock_challenges := (lock_challenges (door_lock D))
      \<lparr>pending := AList.delete (pr_challenge pr) (pending (lock_challenges (door_lock D)))\<rparr>\<rparr>\<rparr>"
  shows "door_ok P D' \<and> onward D D' \<and> spent D' (pr_challenge pr)"
proof -
  have on: "onward D D'" by (auto simp: onward_def spent_def assms(3) map_of_delete)
  have "list_all (standing P D') (door_calls D')"
    by (rule standing_kept [OF on]) (use assms(1) in \<open>auto simp: assms(3) door_ok_def\<close>)
  moreover have "spent D' (pr_challenge pr)"
    using assms(2) by (force simp: spent_def assms(3) map_of_delete earned_def in_time_def)
  ultimately show ?thesis
    using on assms(1)
    by (auto simp: door_ok_def assms(3) store_inv_def map_of_delete distinct_delete)
qed

lemma spend_keeps:
  assumes "door_ok P D" "spent D (pr_challenge pr)"
    and "D' = D\<lparr>door_lock := (door_lock D)\<lparr>lock_challenges := (lock_challenges (door_lock D))
      \<lparr>consumed := AList.update (pr_challenge pr) now (consumed (lock_challenges (door_lock D)))\<rparr>\<rparr>\<rparr>"
  shows "door_ok P D' \<and> onward D D'"
proof -
  have on: "onward D D'" by (auto simp: onward_def spent_def assms(3))
  have "list_all (standing P D') (door_calls D')"
    by (rule standing_kept [OF on]) (use assms(1) in \<open>auto simp: assms(3) door_ok_def\<close>)
  then show ?thesis
    using on assms(1,2)
    by (auto simp: door_ok_def assms(3) store_inv_def spent_def map_of_update distinct_update)
qed

lemma turn_keeps:
  assumes "door_ok P D" "n < length (door_calls D)"
  shows "door_ok P (door_turn P n D) \<and> onward D (door_turn P n D)"
proof -
  obtain pr ph where call: "door_calls D ! n = (pr, ph)" by force
  obtain lk ph' where step: "present_step P pr (door_lock D, ph) = (lk, ph')" by force
  have std: "standing P D (pr, ph)" and all: "list_all (standing P D) (door_calls D)"
    using assms call by (auto simp: door_ok_def list_all_length)
  let ?D = "D\<lparr>door_lock := lk\<rparr>"
  have turn: "door_turn P n D = ?D\<lparr>door_calls := (door_calls ?D)[n := (pr, ph')]\<rparr>"
    by (simp add: door_turn_def call step)
  have "door_ok P ?D \<and> onward D ?D \<and> standing P ?D (pr, ph')"
  proof (cases "(\<exists>p. ph = Proven p) \<or> (\<exists>p. ph = Popped p)")
    case False
    then have "lk = door_lock D" using present_step_reads [of ph P pr "door_lock D"] step by auto
    then have "?D = D" by simp
    moreover have "onward D D" by (simp add: onward_def)
    ultimately show ?thesis using reading_step_standing [OF assms(1) std _ _ step] False assms(1) by auto
  next
    case True
    then consider p where "ph = Proven p" | p where "ph = Popped p" by blast
    then show ?thesis
    proof cases
      case (1 p)
      then have e: "earned P D pr p" using std by (simp add: standing_def)
      have "door_ok P ?D \<and> onward D ?D \<and> spent ?D (pr_challenge pr)"
        by (rule pop_keeps [OF assms(1) e]) (use step 1 in \<open>auto simp: present_step_simps\<close>)
      then show ?thesis using e onward_keeps(3) step 1 by (auto simp: present_step_simps standing_def)
    next
      case (2 p)
      then have e: "earned P D pr p" "spent D (pr_challenge pr)" using std by (simp_all add: standing_def)
      have "door_ok P ?D \<and> onward D ?D"
        by (rule spend_keeps [OF assms(1) e(2)]) (use step 2 in \<open>auto simp: present_step_simps\<close>)
      moreover have "ph' = Decided (Inr (unlock (py_str P (field p ''key_id''))))"
        using step 2 by (simp add: present_step_simps)
      ultimately show ?thesis using onward_keeps(3,4) e unfolding standing_def by fastforce
    qed
  qed
  then have D: "door_ok P ?D" "onward D ?D" "standing P ?D (pr, ph')" by auto
  then have "list_all (standing P ?D) ((door_calls ?D)[n := (pr, ph')])"
    by (intro calls_updated) (auto simp: door_ok_def)
  then show ?thesis unfolding turn
    using door_ok_calls [OF D(1)] D(2) by (meson onward_trans)
qed

section \<open>Runs of the door\<close>

lemma door_step_keeps: "door_step P D D' \<Longrightarrow> door_ok P D \<Longrightarrow> door_ok P D' \<and> onward D D'"
proof (induction rule: door_step.induct)
  case (ds_turn n D)
  then show ?case by (simp add: turn_keeps)
next
  case (ds_arrive D pr)
  have "list_all (standing P D) (door_calls D @ [(pr, Arrived)])"
    using ds_arrive by (simp add: door_ok_def standing_def)
  then show ?case using door_ok_calls [OF ds_arrive] by blast
next
  case (ds_ask c D t)
  then show ?case by (intro ask_keeps [OF _ _ refl])
next
  case (ds_sync D rs)
  then show ?case by (intro sync_keeps [OF _ refl])
qed

lemma door_run_keeps: "(door_step P)\<^sup>*\<^sup>* D D' \<Longrightarrow> door_ok P D \<Longrightarrow> door_ok P D' \<and> onward D D'"
proof (induction rule: rtranclp_induct)
  case base
  then show ?case by (simp add: onward_def)
next
  case (step D1 D2)
  then show ?case using door_step_keeps onward_trans by blast
qed

lemma new_door_ok:
  assumes "new_lock P prop room pub_raw revoked = Inr lk"
  shows "door_ok P (new_door lk)"
  using assms store_inv_new [of CHALLENGE_TTL_SECONDS CHALLENGE_NONCE_BYTES]
  by (auto simp: new_lock_def door_ok_def new_door_def new_store_def split: option.splits)

text \<open>A call that opened has earned it and left its challenge spent.\<close>

lemma opened_standing:
  assumes "door_ok P D" "call \<in> set (door_calls D)" "opened_call call"
  obtains pr d p where "call = (pr, Decided (Inr d))" "earned P D pr p"
    "d = unlock (py_str P (field p ''key_id''))" "spent D (pr_challenge pr)"
proof -
  obtain pr d where c: "call = (pr, Decided (Inr d))" "unlocked d"
    using assms(3) by (cases call) (auto simp: opened_call_def split: phase.splits sum.splits)
  have "standing P D call" using assms(1,2) by (auto simp: door_ok_def list_all_iff)
  then show ?thesis using that c by (auto simp: standing_def)
qed

text \<open>Turns taken in any order, and all six turns of one call.\<close>

lemma length_door_turn [simp]: "length (door_calls (door_turn P n D)) = length (door_calls D)"
  by (simp add: door_turn_def split: prod.split)

lemma length_door_turns [simp]:
  "length (door_calls (fold (door_turn P) ns D)) = length (door_calls D)"
  by (induction ns arbitrary: D) auto

lemma turns_run:
  "list_all (\<lambda>n. n < length (door_calls D)) ns \<Longrightarrow> (door_step P)\<^sup>*\<^sup>* D (fold (door_turn P) ns D)"
proof (induction ns arbitrary: D)
  case (Cons n ns)
  have "door_step P D (door_turn P n D)" using Cons.prems by (auto intro: ds_turn)
  moreover have "(door_step P)\<^sup>*\<^sup>* (door_turn P n D) (fold (door_turn P) ns (door_turn P n D))"
    using Cons by simp
  ultimately show ?case by (simp add: converse_rtranclp_into_rtranclp)
qed simp

lemma arrival_run:
  assumes "list_all (\<lambda>n. n < Suc (length (door_calls D))) ns"
  shows "(door_step P)\<^sup>*\<^sup>* D (fold (door_turn P) ns (D\<lparr>door_calls := door_calls D @ [(pr, Arrived)]\<rparr>))"
  by (rule converse_rtranclp_into_rtranclp, rule ds_arrive, rule turns_run) (use assms in simp)

lemma turns_of_one:
  assumes "door_calls D = xs @ [(pr, ph)]" "(present_step P pr ^^ n) (door_lock D, ph) = (lk, ph')"
  shows "fold (door_turn P) (replicate n (length xs)) D =
    D\<lparr>door_lock := lk, door_calls := xs @ [(pr, ph')]\<rparr>"
  using assms
proof (induction n arbitrary: D ph)
  case (Suc n)
  obtain lk1 ph1 where step: "present_step P pr (door_lock D, ph) = (lk1, ph1)" by force
  have turn: "door_turn P (length xs) D = D\<lparr>door_lock := lk1, door_calls := xs @ [(pr, ph1)]\<rparr>"
    by (simp add: door_turn_def Suc.prems(1) step)
  have "(present_step P pr ^^ n) (lk1, ph1) = (lk, ph')"
    using Suc.prems(2) step by (simp add: funpow_Suc_right del: funpow.simps)
  then show ?case using Suc.IH [of "door_turn P (length xs) D" ph1] by (simp add: turn)
qed simp

section \<open>After the opening\<close>

text \<open>A call that has not looked its challenge up yet, or was turned away.\<close>

definition barred :: "phase \<Rightarrow> bool" where
  "barred ph = (case ph of
       Arrived \<Rightarrow> True | Admitted p \<Rightarrow> True | Unspent p \<Rightarrow> True
     | Live p \<Rightarrow> False | Proven p \<Rightarrow> False | Popped p \<Rightarrow> False
     | Decided (Inl e) \<Rightarrow> True | Decided (Inr d) \<Rightarrow> \<not> unlocked d)"

lemma barred_closed: "barred (snd call) \<Longrightarrow> \<not> opened_call call"
  by (cases call) (auto simp: barred_def opened_call_def split: phase.splits sum.splits)

lemma barred_step:
  assumes "barred ph" "map_of (pending (lock_challenges lk)) (pr_challenge pr) = None"
    and "present_step P pr (lk, ph) = (lk', ph')"
  shows "barred ph'"
proof (cases ph)
  case Arrived
  show ?thesis
    by (cases rule: evaluate_static_cases [OF refl, of P "pr_token pr" "lock_property_pub lk"
          "lock_property_id lk" "lock_room_id lk" "pr_now pr" "lock_revoked lk"])
      (use assms(3) Arrived in \<open>auto simp: present_step_def barred_def Credential.denied_def\<close>)
qed (use assms in \<open>auto simp: present_step_simps barred_def split: if_splits\<close>)

definition all_barred :: "bytes \<Rightarrow> nat set \<Rightarrow> 'pk door \<Rightarrow> bool" where
  "all_barred c K D \<longleftrightarrow>
     (\<forall>n < length (door_calls D). n \<notin> K \<longrightarrow> pr_challenge (fst (door_calls D ! n)) = c \<longrightarrow>
        barred (snd (door_calls D ! n)))"

lemma all_barred_step:
  assumes "door_step P D D'" "spent D c" "all_barred c K D"
  shows "all_barred c K D'"
  using assms
proof cases
  case (ds_turn n)
  obtain pr ph where call: "door_calls D ! n = (pr, ph)" by force
  obtain lk ph' where step: "present_step P pr (door_lock D, ph) = (lk, ph')" by force
  have "barred ph'" if "pr_challenge pr = c" "n \<notin> K"
    using barred_step [OF _ _ step] assms(2,3) ds_turn(2) call that
    by (force simp: all_barred_def spent_def)
  then show ?thesis
    using assms(3) ds_turn(2) by (auto simp: ds_turn(1) all_barred_def door_turn_def call step nth_list_update)
next
  case (ds_arrive pr)
  then show ?thesis using assms(3)
    by (auto simp: all_barred_def barred_def nth_append less_Suc_eq)
qed (auto simp: all_barred_def)

lemma all_barred_run:
  assumes "(door_step P)\<^sup>*\<^sup>* D D'" "door_ok P D" "spent D c" "all_barred c K D"
  shows "all_barred c K D'"
  using assms
proof (induction rule: rtranclp_induct)
  case (step D1 D2)
  then show ?case
    using all_barred_step door_run_keeps [OF step.hyps(1) step.prems(1)] onward_keeps(4) by blast
qed

section \<open>A revoked key\<close>

text \<open>A call that is being served, or was, as key \<open>k\<close>.\<close>

definition serves :: "('sk, 'pk) platform \<Rightarrow> pystr \<Rightarrow> phase \<Rightarrow> bool" where
  "serves P k ph = (case ph of
       Arrived \<Rightarrow> False
     | Admitted p \<Rightarrow> py_str P (field p ''key_id'') = k
     | Unspent p \<Rightarrow> py_str P (field p ''key_id'') = k
     | Live p \<Rightarrow> py_str P (field p ''key_id'') = k
     | Proven p \<Rightarrow> py_str P (field p ''key_id'') = k
     | Popped p \<Rightarrow> py_str P (field p ''key_id'') = k
     | Decided (Inl e) \<Rightarrow> False
     | Decided (Inr d) \<Rightarrow> unlocked d \<and> decision_key_id d = Some k)"

lemma serves_step:
  assumes "\<not> serves P k ph" "k \<in> lock_revoked lk" "present_step P pr (lk, ph) = (lk', ph')"
  shows "\<not> serves P k ph' \<and> lock_revoked lk' = lock_revoked lk"
proof (cases ph)
  case Arrived
  show ?thesis
    by (cases rule: evaluate_static_cases [OF refl, of P "pr_token pr" "lock_property_pub lk"
          "lock_property_id lk" "lock_room_id lk" "pr_now pr" "lock_revoked lk"])
      (use assms Arrived in \<open>auto simp: present_step_def serves_def static_ok_def Credential.denied_def\<close>)
qed (use assms in \<open>auto simp: present_step_simps serves_def split: if_splits option.splits sum.splits\<close>)

definition unserved :: "('sk, 'pk) platform \<Rightarrow> pystr \<Rightarrow> nat \<Rightarrow> 'pk door \<Rightarrow> bool" where
  "unserved P k m D \<longleftrightarrow> k \<in> lock_revoked (door_lock D) \<and>
     (\<forall>n < length (door_calls D). m \<le> n \<longrightarrow> \<not> serves P k (snd (door_calls D ! n)))"

lemma unserved_step:
  assumes "door_step P D D'" "unserved P k m D"
  shows "(lists_told D' = lists_told D \<and> unserved P k m D') \<or>
    (\<exists>R. lists_told D' = R # lists_told D \<and> (k \<in> R \<longrightarrow> unserved P k m D'))"
  using assms
proof cases
  case (ds_turn n)
  obtain pr ph where call: "door_calls D ! n = (pr, ph)" by force
  obtain lk ph' where step: "present_step P pr (door_lock D, ph) = (lk, ph')" by force
  have rev: "k \<in> lock_revoked (door_lock D)" using assms(2) by (simp add: unserved_def)
  have "lock_revoked lk = lock_revoked (door_lock D)"
    using step by (cases ph) (auto simp: present_step_def Let_def split: sum.splits option.splits if_splits bool.splits)
  moreover have "\<not> serves P k ph'" if "m \<le> n"
    using serves_step [OF _ rev step] assms(2) ds_turn(2) call that by (force simp: unserved_def)
  ultimately show ?thesis
    using assms(2) ds_turn(2)
    by (auto simp: ds_turn(1) unserved_def door_turn_def call step nth_list_update)
next
  case (ds_arrive pr)
  then show ?thesis using assms(2) by (auto simp: unserved_def serves_def nth_append less_Suc_eq)
next
  case (ds_ask c t)
  then show ?thesis using assms(2) by (auto simp: unserved_def begin_unlock_def)
next
  case (ds_sync rs)
  then show ?thesis using assms(2) by (auto simp: unserved_def sync_revocations_def)
qed

lemma unserved_run:
  assumes "(door_step P)\<^sup>*\<^sup>* D D'" "unserved P k m D"
  shows "\<exists>new. lists_told D' = new @ lists_told D \<and> (list_all ((\<in>) k) new \<longrightarrow> unserved P k m D')"
  using assms
proof (induction rule: rtranclp_induct)
  case base
  then show ?case by simp
next
  case (step D1 D2)
  then obtain new where new: "lists_told D1 = new @ lists_told D"
    "list_all ((\<in>) k) new \<longrightarrow> unserved P k m D1" by blast
  show ?case
  proof (cases "list_all ((\<in>) k) new")
    case True
    with new(2) have "unserved P k m D1" by blast
    from unserved_step [OF step.hyps(2) this] show ?thesis
    proof (elim disjE exE conjE)
      assume "lists_told D2 = lists_told D1" "unserved P k m D2"
      then show ?thesis using new(1) by auto
    next
      fix R assume "lists_told D2 = R # lists_told D1" "k \<in> R \<longrightarrow> unserved P k m D2"
      then show ?thesis using new(1) by (intro exI [of _ "R # new"]) auto
    qed
  next
    case False
    have "\<exists>more. lists_told D2 = more @ lists_told D1"
      using step.hyps(2) by cases (auto simp: door_turn_def split: prod.splits)
    then show ?thesis using False new(1) by (metis append_assoc list_all_append)
  qed
qed

section \<open>Before it\<close>

text \<open>
  Where a call stands after \<open>k\<close> turns on its way to an opening, whatever the other calls
  did: up to the fourth turn if none has spent its challenge yet, and from the third on
  in any case, since the lookups are behind it.
\<close>

definition stage :: "('sk, 'pk) platform \<Rightarrow> payload \<Rightarrow> nat \<Rightarrow> phase" where
  "stage P p k =
     (if k < 6 then [Arrived, Admitted p, Unspent p, Live p, Proven p, Popped p] ! k
      else Decided (Inr (unlock (py_str P (field p ''key_id'')))))"

definition opens_as :: "('sk, 'pk) platform \<Rightarrow> 'pk LockVerifier \<Rightarrow> presentation \<Rightarrow> payload \<Rightarrow> bool" where
  "opens_as P lk pr p = opens P lk (pr_token pr) (pr_challenge pr) (pr_response pr) (pr_now pr) p"

lemma stage_simps [simp]:
  "stage P p 0 = Arrived"
  "6 \<le> k \<Longrightarrow> stage P p k = Decided (Inr (unlock (py_str P (field p ''key_id''))))"
  by (simp_all add: stage_def)

lemma stage_lookup:
  assumes "opens_as P lk pr p" "k < 4"
  shows "present_step P pr (lk, stage P p k) = (lk, stage P p (Suc k))"
proof -
  have "k = 0 \<or> k = 1 \<or> k = 2 \<or> k = 3" using assms(2) by linarith
  moreover have "present_step P pr (lk, Arrived) = (lk, Admitted p)"
    using assms(1) evaluate_static_pass [THEN iffD2, of P "lock_property_pub lk" "pr_token pr" p]
    by (simp add: present_step_def opens_as_def opens_def)
  moreover have "present_step P pr (lk, Admitted p) = (lk, Unspent p)"
    "present_step P pr (lk, Unspent p) = (lk, Live p)"
    "present_step P pr (lk, Live p) = (lk, Proven p)"
    using assms(1) by (auto simp: present_step_simps opens_as_def opens_def check_OK_iff)
  ultimately show ?thesis by (elim disjE) (simp_all add: stage_def)
qed

lemma stage_spend:
  assumes "opens_as P lk0 pr p" "3 \<le> k"
  shows "snd (present_step P pr (lk, stage P p k)) = stage P p (Suc k)"
proof -
  have "k = 3 \<or> k = 4 \<or> k = 5 \<or> 6 \<le> k" using assms(2) by linarith
  then show ?thesis
    using assms(1) by (elim disjE) (simp_all add: stage_def present_step_simps opens_as_def opens_def)
qed

lemma list_all_upt: "list_all Q [0..<n] \<longleftrightarrow> (\<forall>i < n. Q i)"
  by (auto simp: list_all_iff)

text \<open>Calls on their way, the \<open>i\<close>-th after \<open>f i\<close> turns.\<close>

definition on_the_way ::
  "('sk, 'pk) platform \<Rightarrow> (presentation \<times> payload) list \<Rightarrow> (nat \<Rightarrow> nat) \<Rightarrow> (presentation \<times> phase) list" where
  "on_the_way P ps f = map (\<lambda>i. (fst (ps ! i), stage P (snd (ps ! i)) (f i))) [0..<length ps]"

lemma on_the_way_nth:
  "n < length ps \<Longrightarrow> on_the_way P ps f ! n = (fst (ps ! n), stage P (snd (ps ! n)) (f n))"
  by (simp add: on_the_way_def)

lemma on_the_way_turn:
  "n < length ps \<Longrightarrow>
   (on_the_way P ps f)[n := (fst (ps ! n), stage P (snd (ps ! n)) (Suc (f n)))] =
     on_the_way P ps (f(n := Suc (f n)))"
  by (rule nth_equalityI) (auto simp: on_the_way_def nth_list_update)

lemma on_the_way_start: "on_the_way P ps (\<lambda>i. 0) = map (\<lambda>(pr, p). (pr, Arrived)) ps"
  by (rule nth_equalityI) (auto simp: on_the_way_def split: prod.split)

lemma on_the_way_end:
  "list_all (\<lambda>i. 6 \<le> f i) [0..<length ps] \<Longrightarrow>
   on_the_way P ps f = map (\<lambda>(pr, p). (pr, Decided (Inr (unlock (py_str P (field p ''key_id'')))))) ps"
  by (rule nth_equalityI) (auto simp: on_the_way_def list_all_upt split: prod.split)

lemma lookups_read:
  assumes "list_all (\<lambda>(pr, p). opens_as P (door_lock D) pr p) ps"
  shows "list_all (\<lambda>i. i < length ps) before \<Longrightarrow>
    list_all (\<lambda>i. count_list before i \<le> 4) [0..<length ps] \<Longrightarrow>
    fold (door_turn P) before (D\<lparr>door_calls := on_the_way P ps (\<lambda>i. 0)\<rparr>) =
      D\<lparr>door_calls := on_the_way P ps (count_list before)\<rparr>"
proof (induction before rule: rev_induct)
  case Nil
  then show ?case by simp
next
  case (snoc n before)
  have n: "n < length ps" "count_list before n < 4"
    using snoc.prems by (auto simp: list_all_upt)
  have le: "list_all (\<lambda>i. count_list before i \<le> 4) [0..<length ps]"
    using snoc.prems(2) by (auto simp: list_all_upt intro: order_trans [OF le_add1])
  have "opens_as P (door_lock D) (fst (ps ! n)) (snd (ps ! n))"
    using assms n(1) by (auto simp: list_all_length split: prod.splits)
  note turn = stage_lookup [OF this n(2)]
  have one: "(count_list before)(n := Suc (count_list before n)) = count_list (before @ [n])"
    by auto
  have "door_turn P n (D\<lparr>door_calls := on_the_way P ps (count_list before)\<rparr>) =
      D\<lparr>door_calls := on_the_way P ps (count_list (before @ [n]))\<rparr>"
    using on_the_way_turn [OF n(1), of P "count_list before"]
    by (simp add: door_turn_def on_the_way_nth n(1) turn del: count_list_append flip: one)
  moreover have "list_all (\<lambda>i. i < length ps) before" using snoc.prems(1) by simp
  ultimately show ?case using snoc.IH le by (simp del: count_list_append)
qed

lemma spending_opens:
  assumes "list_all (\<lambda>(pr, p). opens_as P lk pr p) ps"
  shows "list_all (\<lambda>i. i < length ps) later \<Longrightarrow> list_all (\<lambda>i. 3 \<le> f i) [0..<length ps] \<Longrightarrow>
    door_calls D = on_the_way P ps f \<Longrightarrow>
    door_calls (fold (door_turn P) later D) = on_the_way P ps (\<lambda>i. f i + count_list later i)"
proof (induction later arbitrary: D f)
  case (Cons n later)
  have n: "n < length ps" using Cons.prems(1) by simp
  then have three: "3 \<le> f n" using Cons.prems(2) by (simp add: list_all_upt)
  have "opens_as P lk (fst (ps ! n)) (snd (ps ! n))"
    using assms n by (auto simp: list_all_length split: prod.splits)
  note turn = stage_spend [OF this three]
  obtain lk' ph where step:
    "present_step P (fst (ps ! n)) (door_lock D, stage P (snd (ps ! n)) (f n)) = (lk', ph)" by force
  have "door_calls (door_turn P n D) = on_the_way P ps (f(n := Suc (f n)))"
    using n step turn [of "door_lock D"] Cons.prems(3) on_the_way_turn [OF n, of P f]
    by (simp add: door_turn_def on_the_way_nth)
  with Cons.IH [of "f(n := Suc (f n))" "door_turn P n D"] Cons.prems(1)
  have "list_all (\<lambda>i. 3 \<le> (f(n := Suc (f n))) i) [0..<length ps] \<Longrightarrow>
      door_calls (fold (door_turn P) later (door_turn P n D)) =
        on_the_way P ps (\<lambda>i. (f(n := Suc (f n))) i + count_list later i)"
    by (simp del: fun_upd_apply)
  moreover have "list_all (\<lambda>i. 3 \<le> (f(n := Suc (f n))) i) [0..<length ps]"
    using Cons.prems(2) three by (auto simp: list_all_upt)
  moreover have "(\<lambda>i. (f(n := Suc (f n))) i + count_list later i) = (\<lambda>i. f i + count_list (n # later) i)"
    by auto
  ultimately show ?case by simp
qed simp

text \<open>Everyone looks the challenge up before anyone has spent it.\<close>

lemma race_opens:
  assumes "list_all (\<lambda>(pr, p). opens_as P (door_lock D) pr p) ps"
    and "list_all (\<lambda>i. i < length ps) (before @ later)"
    and "list_all (\<lambda>i. 3 \<le> count_list before i \<and> count_list before i \<le> 4) [0..<length ps]"
    and "list_all (\<lambda>i. 6 \<le> count_list (before @ later) i) [0..<length ps]"
    and "door_calls D = map (\<lambda>(pr, p). (pr, Arrived)) ps"
  shows "door_calls (fold (door_turn P) (before @ later) D) =
    map (\<lambda>(pr, p). (pr, Decided (Inr (unlock (py_str P (field p ''key_id'')))))) ps"
proof -
  have "D\<lparr>door_calls := on_the_way P ps (\<lambda>i. 0)\<rparr> = D"
    using assms(5) by (simp add: on_the_way_start)
  moreover have "fold (door_turn P) before (D\<lparr>door_calls := on_the_way P ps (\<lambda>i. 0)\<rparr>) =
      D\<lparr>door_calls := on_the_way P ps (count_list before)\<rparr>"
    by (rule lookups_read [OF assms(1)]) (use assms(2,3) in \<open>simp_all add: list_all_upt\<close>)
  moreover have "door_calls (fold (door_turn P) later (D\<lparr>door_calls := on_the_way P ps (count_list before)\<rparr>)) =
      on_the_way P ps (\<lambda>i. count_list before i + count_list later i)"
    by (rule spending_opens [OF assms(1)]) (use assms(2,3) in \<open>simp_all add: list_all_upt\<close>)
  ultimately show ?thesis using assms(4) by (simp add: on_the_way_end)
qed

text \<open>The sample key twice at the sample door, which has handed out \<open>[9]\<close>.\<close>

definition sample_presentation :: presentation where
  "sample_presentation =
     \<lparr>pr_token = ik_token sample_issued, pr_challenge = [9], pr_response = [7, 7, 9], pr_now = 1510\<rparr>"

definition sample_door :: "nat \<Rightarrow> bytes door" where
  "sample_door n = (new_door sample_lock)
     \<lparr>door_lock := sample_asked, nonces_asked := [([9], 1500)],
      door_calls := replicate n (sample_presentation, Arrived)\<rparr>"

definition sample_opened :: "bytes door" where
  "sample_opened =
     fold (door_turn sample_platform) ([0, 1, 1, 0, 1, 0] @ [0, 1, 0, 1, 0, 1]) (sample_door 2)"

lemma sample_opens:
  "opens sample_platform sample_asked (ik_token sample_issued) [9] [7, 7, 9] 1510
     (sorted_payload (ik_payload sample_issued))"
  by (rule opens_issued [OF sample_ed25519 sample_args_ok sample_issued])
    (simp_all add: issued_decision_def)

lemma sample_opens_as:
  "opens_as sample_platform sample_asked sample_presentation (sorted_payload (ik_payload sample_issued))"
  using sample_opens by (simp add: opens_as_def sample_presentation_def)

lemma sample_payload_key:
  "py_str sample_platform (field (sorted_payload (ik_payload sample_issued)) ''key_id'') = lit ''5f1e''"
  using sample_unlock finish_unlock_opens [OF sample_opens] by simp

lemma sample_door_run: "(door_step sample_platform)\<^sup>*\<^sup>* (new_door sample_lock) (sample_door n)"
proof -
  have "door_step sample_platform (new_door sample_lock) (sample_door 0)"
    using ds_ask [of "[9]" "new_door sample_lock" sample_platform 1500]
    by (simp add: new_door_def sample_door_def sample_asked_def)
  moreover have "door_step sample_platform (sample_door m) (sample_door (Suc m))" for m
    using ds_arrive [of sample_platform "sample_door m" sample_presentation]
    by (simp add: sample_door_def replicate_append_same)
  ultimately show ?thesis by (induction n) (auto intro: rtranclp.rtrancl_into_rtrancl)
qed

lemma sample_opened_run: "(door_step sample_platform)\<^sup>*\<^sup>* (new_door sample_lock) sample_opened"
proof -
  have "list_all (\<lambda>n. n < length (door_calls (sample_door 2)))
      ([0, 1, 1, 0, 1, 0] @ [0, 1, 0, 1, 0, 1])"
    by (simp add: sample_door_def)
  from rtranclp_trans [OF sample_door_run turns_run [OF this]] show ?thesis
    by (simp add: sample_opened_def)
qed

lemma sample_opened_calls:
  "door_calls sample_opened =
     replicate 2 (sample_presentation, Decided (Inr (unlock (lit ''5f1e''))))"
  unfolding sample_opened_def
  by (subst race_opens [of _ _
        "replicate 2 (sample_presentation, sorted_payload (ik_payload sample_issued))"])
    (simp_all add: sample_door_def sample_opens_as sample_payload_key numeral_eq_Suc)

section \<open>Properties\<close>

text \<open>
  C9: No unauthorized opening under concurrency. Whatever presentations, challenges and
  revocation syncs run at one lock at the same time, and in whatever order their steps
  are taken, a call that opens has a token under the property signature whose payload
  admits this room now and is not on one of the revocation lists the lock was told; its
  challenge is one the lock handed out at most 30 seconds before; and the device signed it.
\<close>

theorem concurrent_openings_earned:
  assumes "new_lock P prop room pub_raw revoked = Inr lk"
    and "(door_step P)\<^sup>*\<^sup>* (new_door lk) D"
    and "(pr, Decided (Inr d)) \<in> set (door_calls D)" "unlocked d"
  shows "\<exists>p R t0. token_carries P (lock_property_pub lk) (pr_token pr) p \<and>
    R \<in> set (lists_told D) \<and> static_ok P p prop room (pr_now pr) R \<and>
    (pr_challenge pr, t0) \<in> set (nonces_asked D) \<and> pr_now pr - t0 \<le> CHALLENGE_TTL_SECONDS \<and>
    verify_device_response P (field p ''device_pub'') (pr_challenge pr) (pr_response pr) = Inr True \<and>
    d = unlock (py_str P (field p ''key_id''))"
proof -
  have run: "door_ok P D" "onward (new_door lk) D"
    using door_run_keeps [OF assms(2) new_door_ok [OF assms(1)]] by auto
  have "opened_call (pr, Decided (Inr d))" using assms(4) by (simp add: opened_call_def)
  then obtain p where "earned P D pr p" "d = unlock (py_str P (field p ''key_id''))"
    using opened_standing [OF run(1) assms(3)] by blast
  moreover have "lock_property_id lk = prop" "lock_room_id lk = room"
    using assms(1) by (auto simp: new_lock_def split: option.splits)
  ultimately show ?thesis
    using run(2) by (auto simp: earned_def vouched_def in_time_def onward_def new_door_def)
qed

text \<open>Both of two presentations that race at the sample door have earned their opening.\<close>

theorem concurrent_openings_earned_witness:
  "\<exists>p R t0. token_carries sample_platform [1, 2] (ik_token sample_issued) p \<and>
    R \<in> set (lists_told sample_opened) \<and>
    static_ok sample_platform p (lit ''HILTON-DEMO-001'') 101 1510 R \<and>
    ([9], t0) \<in> set (nonces_asked sample_opened) \<and> 1510 - t0 \<le> CHALLENGE_TTL_SECONDS \<and>
    verify_device_response sample_platform (field p ''device_pub'') [9] [7, 7, 9] = Inr True \<and>
    unlock (lit ''5f1e'') = unlock (py_str sample_platform (field p ''key_id''))"
  using concurrent_openings_earned [OF sample_run_log(1) sample_opened_run,
      of sample_presentation "unlock (lit ''5f1e'')"]
  by (simp add: sample_opened_calls sample_presentation_def)

text \<open>
  C10: No late replay. Once a call has opened the door, no call that presents the same
  challenge and has not yet passed the lookup of it opens the door, whenever it arrived,
  whatever else runs, and however long after: also once the store has forgotten that the
  challenge was spent.
\<close>

theorem late_replays_denied:
  assumes "new_lock P prop room pub_raw revoked = Inr lk"
    and "(door_step P)\<^sup>*\<^sup>* (new_door lk) D" "(door_step P)\<^sup>*\<^sup>* D D'"
    and "call \<in> set (door_calls D)" "opened_call call"
    and "n < length (door_calls D')" "pr_challenge (fst (door_calls D' ! n)) = pr_challenge (fst call)"
    and "n < length (door_calls D) \<Longrightarrow> barred (snd (door_calls D ! n))"
  shows "\<not> opened_call (door_calls D' ! n)"
proof -
  have ok: "door_ok P D" using door_run_keeps [OF assms(2) new_door_ok [OF assms(1)]] by blast
  let ?c = "pr_challenge (fst call)"
  let ?K = "{k. k < length (door_calls D) \<and> \<not> barred (snd (door_calls D ! k))}"
  have sp: "spent D ?c" using opened_standing [OF ok assms(4,5)] by (metis fst_conv)
  have "all_barred ?c ?K D" by (simp add: all_barred_def)
  then have "all_barred ?c ?K D'" by (rule all_barred_run [OF assms(3) ok sp])
  then have "barred (snd (door_calls D' ! n))" using assms(6-8) by (auto simp: all_barred_def)
  then show ?thesis by (rule barred_closed)
qed

text \<open>A third presentation of the response that opened the sample door, run to its end.\<close>

definition sample_replayed :: "bytes door" where
  "sample_replayed = fold (door_turn sample_platform) (replicate 6 2)
     (sample_opened\<lparr>door_calls := door_calls sample_opened @ [(sample_presentation, Arrived)]\<rparr>)"

theorem late_replays_denied_witness:
  "\<not> opened_call (door_calls sample_replayed ! 2)"
proof -
  let ?D = "sample_opened\<lparr>door_calls := door_calls sample_opened @ [(sample_presentation, Arrived)]\<rparr>"
  have run: "(door_step sample_platform)\<^sup>*\<^sup>* sample_opened sample_replayed"
    unfolding sample_replayed_def
    by (rule arrival_run) (simp add: sample_opened_calls numeral_eq_Suc)
  obtain lk ph where end_state: "(present_step sample_platform sample_presentation ^^ 6)
      (door_lock ?D, Arrived) = (lk, ph)" by force
  have "door_calls sample_replayed = door_calls sample_opened @ [(sample_presentation, ph)]"
    using turns_of_one [OF _ end_state, of "door_calls sample_opened"]
    by (simp add: sample_replayed_def sample_opened_calls del: funpow.simps)
  then show ?thesis
    using late_replays_denied [OF sample_run_log(1) sample_opened_run run, of
        "(sample_presentation, Decided (Inr (unlock (lit ''5f1e''))))" 2]
    by (simp add: sample_opened_calls opened_call_def nth_append)
qed

text \<open>
  C11: A revocation the lock was told holds under concurrency. As long as every list the
  lock is synced to names the key, no call that arrives after the first of them opens the
  door as that key, whatever other calls are in progress.
\<close>

theorem revoked_arrivals_denied:
  assumes "(door_step P)\<^sup>*\<^sup>* D D'"
    and "k \<in> lock_revoked (door_lock D)"
    and "lists_told D' = new @ lists_told D" "list_all (\<lambda>R. k \<in> R) new"
    and "length (door_calls D) \<le> n" "n < length (door_calls D')"
    and "door_calls D' ! n = (pr, Decided (Inr d))" "decision_key_id d = Some k"
  shows "\<not> unlocked d"
proof -
  have "unserved P k (length (door_calls D)) D" using assms(2) by (simp add: unserved_def)
  from unserved_run [OF assms(1) this] assms(3,4) have "unserved P k (length (door_calls D)) D'"
    by auto
  then have "\<not> serves P k (Decided (Inr d))" using assms(5-7) by (force simp: unserved_def)
  then show ?thesis using assms(8) by (simp add: serves_def)
qed

text \<open>
  At the sample door, synced to a list that names the sample key: the call arrives, is run
  to its end, and is turned away as that key.
\<close>

definition sample_synced :: "bytes door" where
  "sample_synced = (sample_door 0)
     \<lparr>door_lock := sync_revocations [lit ''5f1e''] sample_asked, lists_told := [{lit ''5f1e''}]\<rparr>"

definition sample_turned_away :: "bytes door" where
  "sample_turned_away = fold (door_turn sample_platform) (replicate 6 0)
     (sample_synced\<lparr>door_calls := door_calls sample_synced @ [(sample_presentation, Arrived)]\<rparr>)"

lemma sample_turned_away_run: "(door_step sample_platform)\<^sup>*\<^sup>* sample_synced sample_turned_away"
  unfolding sample_turned_away_def by (rule arrival_run) (simp add: numeral_eq_Suc)

lemma sample_turned_away_state:
  "sample_turned_away = sample_synced
     \<lparr>door_calls := [(sample_presentation, Decided (Inr (deny REVOKED (Some (lit ''5f1e'')))))]\<rparr>"
proof -
  let ?A = "sample_synced\<lparr>door_calls := door_calls sample_synced @ [(sample_presentation, Arrived)]\<rparr>"
  have "finish_unlock sample_platform (ik_token sample_issued) [9] [7, 7, 9] 1510
      (sync_revocations [lit ''5f1e''] sample_asked) =
      (Inr (deny REVOKED (Some (ik_key_id sample_issued))), sync_revocations [lit ''5f1e''] sample_asked)"
    by (rule finish_unlock_issued_denied [OF sample_ed25519 sample_args_ok sample_issued])
      (simp_all add: sync_revocations_def issued_decision_def)
  then have "(present_step sample_platform sample_presentation ^^ 6) (door_lock ?A, Arrived) =
      (sync_revocations [lit ''5f1e''] sample_asked, Decided (Inr (deny REVOKED (Some (lit ''5f1e'')))))"
    using finish_unlock_alone [of sample_platform sample_presentation "door_lock ?A"]
    by (simp add: sample_presentation_def sample_synced_def del: funpow.simps)
  from turns_of_one [OF _ this, of "[]"] show ?thesis
    by (simp add: sample_turned_away_def sample_synced_def sample_door_def del: funpow.simps)
qed

theorem revoked_arrivals_denied_witness:
  "\<exists>d. (door_step sample_platform)\<^sup>*\<^sup>* sample_synced sample_turned_away \<and>
     lit ''5f1e'' \<in> lock_revoked (door_lock sample_synced) \<and>
     lists_told sample_turned_away = [] @ lists_told sample_synced \<and>
     door_calls sample_synced = [] \<and>
     door_calls sample_turned_away ! 0 = (sample_presentation, Decided (Inr d)) \<and>
     decision_key_id d = Some (lit ''5f1e'') \<and> \<not> unlocked d"
proof -
  let ?d = "deny REVOKED (Some (lit ''5f1e''))"
  have state: "lit ''5f1e'' \<in> lock_revoked (door_lock sample_synced)"
    "lists_told sample_turned_away = [] @ lists_told sample_synced" "door_calls sample_synced = []"
    "door_calls sample_turned_away ! 0 = (sample_presentation, Decided (Inr ?d))"
    "decision_key_id ?d = Some (lit ''5f1e'')"
    by (simp_all add: sample_turned_away_state sample_synced_def sync_revocations_def sample_door_def
        new_door_def)
  have "\<not> unlocked ?d"
    by (rule revoked_arrivals_denied [OF sample_turned_away_run state(1,2) _ _ _ state(4,5)])
      (simp_all add: sample_turned_away_state state(3))
  with sample_turned_away_run state show ?thesis by blast
qed

text \<open>
  C12: Simultaneous presentations all open. \<open>finish_unlock\<close> looks the challenge up and
  spends it in separate steps. Whatever presentations each open the door when made alone,
  the same response any number of times over among them: in every run in which each of
  these calls has taken both lookups before the first of them spends its challenge, and in
  which each runs to its end, they all open it. The calls take their turns in any order:
  \<open>before\<close> are the turns up to that point, three or four of each call, \<open>later\<close> the rest.
\<close>

theorem simultaneous_presentations_open:
  assumes "list_all (\<lambda>(pr, p). opens_as P lk pr p) ps"
    and "list_all (\<lambda>i. i < length ps) (before @ later)"
    and "list_all (\<lambda>i. 3 \<le> count_list before i \<and> count_list before i \<le> 4) [0..<length ps]"
    and "list_all (\<lambda>i. 6 \<le> count_list (before @ later) i) [0..<length ps]"
  shows "door_calls (fold (door_turn P) (before @ later)
      ((new_door lk)\<lparr>door_calls := map (\<lambda>(pr, p). (pr, Arrived)) ps\<rparr>)) =
    map (\<lambda>(pr, p). (pr, Decided (Inr (unlock (py_str P (field p ''key_id'')))))) ps"
  by (rule race_opens) (use assms in \<open>simp_all add: new_door_def\<close>)

text \<open>Three presentations of one response at the sample door.\<close>

theorem simultaneous_presentations_open_witness:
  "door_calls (fold (door_turn sample_platform) ([2, 0, 1, 1, 0, 2, 1, 0, 2, 0] @ [0, 0, 1, 2, 1, 2, 1, 2])
      ((new_door sample_asked)\<lparr>door_calls := replicate 3 (sample_presentation, Arrived)\<rparr>)) =
    replicate 3 (sample_presentation, Decided (Inr (unlock (lit ''5f1e''))))"
  using simultaneous_presentations_open [of sample_platform sample_asked
      "replicate 3 (sample_presentation, sorted_payload (ik_payload sample_issued))"
      "[2, 0, 1, 1, 0, 2, 1, 0, 2, 0]" "[0, 0, 1, 2, 1, 2, 1, 2]"]
  by (simp add: sample_opens_as sample_payload_key numeral_eq_Suc)

end
