(* ===== verification/Bench_Report.thy ===== *)
theory Bench_Report
  imports Adversarial Concurrency_Bench Scope_Bench Latency_Bench
begin

text \<open>
  \<open>bench/run_all.py\<close>: the five benches one after the other, each report written to its
  file as soon as it is there, then the summary and the headline. The results of the
  benches' \<open>run\<close> are arguments, so a bench that raises is an \<open>Inl\<close>; what the machine says
  of itself (versions, the date) is a parameter. A file holds the JSON value whose
  indented text is written.
\<close>

section \<open>Reports as JSON\<close>

definition jnat :: "nat \<Rightarrow> json" where
  "jnat n = JInt (int n)"

definition jfloat :: "rat \<Rightarrow> json" where
  "jfloat x = JFloat (double_of x)"

type_synonym report = "(pystr \<times> json) list"

text \<open>\<open>dict(counter)\<close>.\<close>

definition counter_json :: "counter \<Rightarrow> json" where
  "counter_json c = JObj (map (\<lambda>(k, n). (k, jnat n)) c)"

definition security_json :: "security_report \<Rightarrow> report" where
  "security_json r =
     [(lit ''total_attempts'', jnat (total_attempts r)),
      (lit ''adversarial_attempts'', jnat (adversarial_attempts r)),
      (lit ''adversarial_denied'', JInt (adversarial_denied r)),
      (lit ''unauthorized_unlocks'', jnat (unauthorized_unlocks r)),
      (lit ''legit_attempts'', jnat (legit_attempted r)),
      (lit ''legit_unlocked'', jnat (legit_unlocked r)),
      (lit ''access_precision'', jfloat (access_precision r)),
      (lit ''access_recall'', jfloat (access_recall r)),
      (lit ''confusion'', case confusion r of (t, f, m, n) \<Rightarrow>
         JObj [(lit ''tp'', jnat t), (lit ''fp'', jnat f), (lit ''fn'', jnat m), (lit ''tn'', jnat n)]),
      (lit ''adversarial_categories'', JArr (map JStr (adversarial_categories r))),
      (lit ''per_category_attempts'', counter_json (per_category_attempts r)),
      (lit ''per_category_denied'', counter_json (per_category_denied r)),
      (lit ''deny_reason_distribution'', counter_json (deny_reason_distribution r)),
      (lit ''note'', JStr (lit ''single offline LockVerifier (property HILTON-DEMO-001, room 101); '' @
         lit ''tampered payloads are caught by the property-signature check (deny reason forged_signature).''))]"

definition scope_json :: "scope_report \<Rightarrow> report" where
  "scope_json r =
     [(lit ''legit_commands'', jnat (legit_commands r)),
      (lit ''legit_accepted'', jnat (legit_accepted r)),
      (lit ''cross_scope_attempts'', jnat (cross_scope_attempts r)),
      (lit ''cross_scope_leaks'', jnat (cross_scope_leaks r)),
      (lit ''post_checkout_revoked'', JArr (map JStr (post_checkout_revoked r))),
      (lit ''deny_reason_distribution'', counter_json (scope_deny_reasons r)),
      (lit ''note'', JStr (lit ''commands: tv/thermostat/lights; cross-room, impersonation (no device key), '' @
         lit ''bad-command, and post-checkout attempts all rejected.''))]"

definition single_race_json :: "single_race \<Rightarrow> json" where
  "single_race_json r = JObj
     [(lit ''threads'', jnat (sr_threads r)), (lit ''successes'', jnat (sr_successes r)),
      (lit ''room_unavailable_rejections'', jnat (sr_rejections r)),
      (lit ''assignments_for_room'', jnat (sr_assigned r)),
      (lit ''double_booked'', JInt (sr_double_booked r))]"

definition multi_race_json :: "multi_race \<Rightarrow> json" where
  "multi_race_json r = JObj
     [(lit ''rooms'', jnat (mr_rooms r)), (lit ''competing_overlapping_stays'', jnat (mr_competing r)),
      (lit ''assigned'', jnat (mr_assigned r)), (lit ''distinct_rooms_used'', jnat (mr_distinct r)),
      (lit ''duplicate_room_assignments'', JInt (mr_duplicates r))]"

definition concurrency_json :: "concurrency_report \<Rightarrow> report" where
  "concurrency_json r =
     [(lit ''single_room_race'', single_race_json (single_room_race r)),
      (lit ''multi_room_race'', multi_race_json (multi_room_race r)),
      (lit ''double_booked_total'', JInt (double_booked_total r)),
      (lit ''note'', JStr (lit ''half-open interval overlap check inside BEGIN IMMEDIATE serializes writers; '' @
         lit ''32 threads race for 1 room -> exactly 1 wins; 40 overlapping stays for 10 rooms -> 10 assigned, 0 shared.''))]"

definition lifecycle_json :: "lifecycle_report \<Rightarrow> report" where
  "lifecycle_json r =
     [(lit ''checks'', JObj (map (\<lambda>(k, b). (k, JBool b)) (lr_checks r))),
      (lit ''all_correct'', JBool (all_correct r)),
      (lit ''note'', JStr (lit ''issue->active->revoked lifecycle, room-change re-keying, and '' @
         lit ''before/after stay-window boundary enforcement all verified.''))]"

definition summ_json :: "latency_summary \<Rightarrow> report" where
  "summ_json r =
     [(lit ''n'', jnat (sample_count r)), (lit ''p50_ms'', jfloat (p50_ms r)),
      (lit ''p95_ms'', jfloat (p95_ms r)), (lit ''p99_ms'', jfloat (p99_ms r)),
      (lit ''mean_ms'', jfloat (mean_ms r)), (lit ''min_ms'', jfloat (min_ms r)),
      (lit ''max_ms'', jfloat (max_ms r))]"

definition latency_json :: "latency_report \<Rightarrow> report" where
  "latency_json r =
     [(lit ''offline_verify'', JObj (summ_json (offline_verify r) @
        [(lit ''throughput_verifications_per_sec'', jfloat (verifications_per_sec r)),
         (lit ''method'', JStr (lit ''in-process finish_unlock (2x Ed25519 verify + checks); '' @
            lit ''challenges pre-registered, responses pre-signed outside timing''))])),
      (lit ''key_issuance'', JObj (summ_json (key_issuance r) @
        [(lit ''method'', JStr (lit ''in-process credential.issue_credential (device keygen + Ed25519 sign); '' @
            lit ''excludes DB insert''))]))]"

section \<open>The files and what is printed\<close>

text \<open>The machine: its clock at the \<open>i\<close>-th reading, and the versions.\<close>

record host =
  measured_at :: "nat \<Rightarrow> pystr"
  python_version :: pystr
  cryptography_version :: pystr
  platform_text :: pystr

record site =
  site_files :: "(pystr \<times> report) list"
  site_printed :: "pystr list"
  site_stamps :: nat

definition STAYKEY_VERSION :: pystr where
  "STAYKEY_VERSION = lit ''1.0.0''"

definition meta_json :: "host \<Rightarrow> nat \<Rightarrow> json" where
  "meta_json h i = JObj
     [(lit ''measured_at'', JStr (measured_at h i)), (lit ''python'', JStr (python_version h)),
      (lit ''cryptography'', JStr (cryptography_version h)), (lit ''staykey'', JStr STAYKEY_VERSION),
      (lit ''platform'', JStr (platform_text h)),
      (lit ''data'', JStr (lit ''100% synthetic, seeded (STAYKEY_SEED=42); '' @
         lit ''simulated lock (no real BLE/NFC hardware)''))]"

definition say :: "pystr \<Rightarrow> (site, unit) exec" where
  "say line = modify (\<lambda>s. s\<lparr>site_printed := site_printed s @ [line]\<rparr>)"

definition stamp :: "host \<Rightarrow> (site, json) exec" where
  "stamp h = (\<lambda>s. (Inr (meta_json h (site_stamps s)), s\<lparr>site_stamps := Suc (site_stamps s)\<rparr>))"

definition write_text :: "pystr \<Rightarrow> report \<Rightarrow> (site, unit) exec" where
  "write_text name content = modify (\<lambda>s. s\<lparr>site_files := AList.update name content (site_files s)\<rparr>)"

definition write_report :: "host \<Rightarrow> string \<Rightarrow> report \<Rightarrow> (site, unit) exec" where
  "write_report h name payload =
     bindE (stamp h) (\<lambda>m.
     thenE (write_text (lit name @ lit ''.json'') ((lit ''meta'', m) # payload))
       (say (lit ''  wrote results/'' @ lit name @ lit ''.json'')))"

section \<open>The summary and the headline\<close>

definition scp_none :: "single_race \<Rightarrow> json" where
  "scp_none single = JObj
     [(lit ''threads'', jnat (sr_threads single)), (lit ''successes'', jnat (sr_successes single)),
      (lit ''assignments_for_room'', jnat (sr_assigned single))]"

definition text_nat :: "nat \<Rightarrow> pystr" where
  "text_nat n = dec_int (int n)"

definition summary_json ::
  "json \<Rightarrow> security_report \<Rightarrow> scope_report \<Rightarrow> concurrency_report \<Rightarrow> lifecycle_report \<Rightarrow> latency_report \<Rightarrow>
     report" where
  "summary_json m sec scp conc life lat =
     [(lit ''meta'', m),
      (lit ''security'', JObj
        [(lit ''adversarial_attempts'', jnat (adversarial_attempts sec)),
         (lit ''adversarial_denied'', JInt (adversarial_denied sec)),
         (lit ''unauthorized_unlocks'', jnat (unauthorized_unlocks sec)),
         (lit ''access_precision'', jfloat (access_precision sec)),
         (lit ''access_recall'', jfloat (access_recall sec)),
         (lit ''adversarial_categories'', JArr (map JStr (adversarial_categories sec)))]),
      (lit ''connected_room'', JObj
        [(lit ''cross_scope_attempts'', jnat (cross_scope_attempts scp)),
         (lit ''cross_scope_leaks'', jnat (cross_scope_leaks scp)),
         (lit ''legit_accepted'',
            JStr (text_nat (legit_accepted scp) @ lit ''/'' @ text_nat (legit_commands scp)))]),
      (lit ''no_double_book'', JObj
        [(lit ''single_room_race'', scp_none (single_room_race conc)),
         (lit ''double_booked_total'', JInt (double_booked_total conc))]),
      (lit ''lifecycle_all_correct'', JBool (all_correct life)),
      (lit ''latency'', JObj
        [(lit ''offline_verify_p50_ms'', jfloat (p50_ms (offline_verify lat))),
         (lit ''offline_verify_p95_ms'', jfloat (p95_ms (offline_verify lat))),
         (lit ''offline_verify_throughput_per_sec'', jfloat (verifications_per_sec lat)),
         (lit ''key_issuance_p95_ms'', jfloat (p95_ms (key_issuance lat)))])]"

text \<open>The text an f-string makes of a figure is the interpreter's \<open>repr\<close> of the float.\<close>

definition headline_lines ::
  "('sk, 'pk) platform \<Rightarrow> security_report \<Rightarrow> scope_report \<Rightarrow> concurrency_report \<Rightarrow> latency_report \<Rightarrow>
     pystr list" where
  "headline_lines P sec scp conc lat =
     (let text = (\<lambda>x. float_repr P (double_of x))
      in [10 # lit ''Headline:'',
          lit ''  unauthorized unlocks : '' @ text_nat (unauthorized_unlocks sec) @ lit '' / '' @
            text_nat (adversarial_attempts sec) @ lit '' adversarial'',
          lit ''  access precision/recall: '' @ text (access_precision sec) @ lit ''/'' @
            text (access_recall sec),
          lit ''  cross-room leaks     : '' @ text_nat (cross_scope_leaks scp) @ lit '' / '' @
            text_nat (cross_scope_attempts scp),
          lit ''  double-booked        : '' @ dec_int (double_booked_total conc),
          lit ''  offline verify p50/p95: '' @ text (p50_ms (offline_verify lat)) @ lit ''/'' @
            text (p95_ms (offline_verify lat)) @ lit '' ms'',
          lit ''  verify throughput     : '' @ text (verifications_per_sec lat) @ lit ''/s'',
          lit ''  key issuance p95      : '' @ text (p95_ms (key_issuance lat)) @ lit '' ms''])"

definition report_main ::
  "host \<Rightarrow> ('sk, 'pk) platform \<Rightarrow> exn + security_report \<Rightarrow> exn + scope_report \<Rightarrow>
     exn + concurrency_report \<Rightarrow> exn + lifecycle_report \<Rightarrow> exn + latency_report \<Rightarrow> (site, unit) exec" where
  "report_main h P security scope concurrency lifecycle latency =
     thenE (say (lit ''Running StayKey benches (all numbers measured from real runs)...''))
    (thenE (say (lit ''- security (adversarial suite)''))
    (bindE (lift_result security) (\<lambda>sec.
     thenE (write_report h ''security'' (security_json sec))
    (thenE (say (lit ''- connected-room scope''))
    (bindE (lift_result scope) (\<lambda>scp.
     thenE (write_report h ''scope'' (scope_json scp))
    (thenE (say (lit ''- concurrency / no-double-book''))
    (bindE (lift_result concurrency) (\<lambda>conc.
     thenE (write_report h ''concurrency'' (concurrency_json conc))
    (thenE (say (lit ''- lifecycle correctness''))
    (bindE (lift_result lifecycle) (\<lambda>life.
     thenE (write_report h ''lifecycle'' (lifecycle_json life))
    (thenE (say (lit ''- latency (offline verify + issuance)''))
    (bindE (lift_result latency) (\<lambda>lat.
     thenE (write_report h ''latency'' (latency_json lat))
    (bindE (stamp h) (\<lambda>m.
     thenE (write_text (lit ''summary.json'') (summary_json m sec scp conc life lat))
    (thenE (say (lit ''  wrote results/summary.json''))
       (for_each say (headline_lines P sec scp conc lat))))))))))))))))))))"

end
