(* ===== verification/Bench_Report_Properties.thy ===== *)
theory Bench_Report_Properties
  imports Bench_Report Security_Properties Scope_Properties Concurrency_Properties
    Lifecycle_Bench_Properties Latency_Properties
begin

text \<open>
  \<open>bench/run_all.py\<close> over the modelled benches: which files it leaves, what a bench that
  raises leaves behind, and the headline it prints.
\<close>

section \<open>The steps of the script\<close>

definition fresh_site :: site where
  "fresh_site = \<lparr>site_files = [], site_printed = [], site_stamps = 0\<rparr>"

lemma lit_append: "lit s @ lit t = lit (s @ t)"
  by (simp add: lit_def)

lemma say_to: "say line s = (Inr (), s\<lparr>site_printed := site_printed s @ [line]\<rparr>)"
  by (simp add: say_def)

lemma stamp_to: "stamp h s = (Inr (meta_json h (site_stamps s)), s\<lparr>site_stamps := Suc (site_stamps s)\<rparr>)"
  by (simp add: stamp_def)

lemma write_text_to:
  "write_text name r s = (Inr (), s\<lparr>site_files := AList.update name r (site_files s)\<rparr>)"
  by (simp add: write_text_def)

lemma write_report_to:
  "write_report h name r s = (Inr (), s
     \<lparr>site_files := AList.update (lit (name @ ''.json''))
        ((lit ''meta'', meta_json h (site_stamps s)) # r) (site_files s),
      site_printed := site_printed s @ [lit (''  wrote results/'' @ name @ ''.json'')],
      site_stamps := Suc (site_stamps s)\<rparr>)"
  by (simp add: write_report_def bindE_def thenE_def stamp_to write_text_to say_to lit_append)

lemma for_each_say: "for_each say ls s = (Inr (), s\<lparr>site_printed := site_printed s @ ls\<rparr>)"
  by (induction ls arbitrary: s) (simp_all add: say_to)

lemmas report_steps = say_to stamp_to write_text_to write_report_to for_each_say

text \<open>The lines of progress, up to the report of the last bench.\<close>

definition progress :: "string list" where
  "progress =
     [''Running StayKey benches (all numbers measured from real runs)...'',
      ''- security (adversarial suite)'', ''  wrote results/security.json'',
      ''- connected-room scope'', ''  wrote results/scope.json'',
      ''- concurrency / no-double-book'', ''  wrote results/concurrency.json'',
      ''- lifecycle correctness'', ''  wrote results/lifecycle.json'',
      ''- latency (offline verify + issuance)'', ''  wrote results/latency.json'',
      ''  wrote results/summary.json'']"

definition with_meta :: "host \<Rightarrow> nat \<Rightarrow> report \<Rightarrow> report" where
  "with_meta h i r = (lit ''meta'', meta_json h i) # r"

lemma report_main_runs:
  "report_main h P (Inr sec) (Inr scp) (Inr conc) (Inr life) (Inr lat) fresh_site =
     (Inr (), \<lparr>site_files =
         [(lit ''security.json'', with_meta h 0 (security_json sec)),
          (lit ''scope.json'', with_meta h 1 (scope_json scp)),
          (lit ''concurrency.json'', with_meta h 2 (concurrency_json conc)),
          (lit ''lifecycle.json'', with_meta h 3 (lifecycle_json life)),
          (lit ''latency.json'', with_meta h 4 (latency_json lat)),
          (lit ''summary.json'', summary_json (meta_json h 5) sec scp conc life lat)],
       site_printed = map lit progress @ headline_lines P sec scp conc lat,
       site_stamps = 6\<rparr>)"
  by (simp add: report_main_def report_steps lift_result_Inr fresh_site_def with_meta_def progress_def numeral_eq_Suc)

text \<open>A bench that raises stops the script: what was written before it stays, and no summary is.\<close>

lemma report_main_stops:
  "report_main h P (Inl e) scope conc life lat fresh_site =
     (Inl e, \<lparr>site_files = [], site_printed = map lit (take 2 progress), site_stamps = 0\<rparr>)"
  "report_main h P (Inr sec) (Inr scp) (Inr cnc) (Inr lif) (Inl e) fresh_site =
     (Inl e, \<lparr>site_files =
         [(lit ''security.json'', with_meta h 0 (security_json sec)),
          (lit ''scope.json'', with_meta h 1 (scope_json scp)),
          (lit ''concurrency.json'', with_meta h 2 (concurrency_json cnc)),
          (lit ''lifecycle.json'', with_meta h 3 (lifecycle_json lif))],
       site_printed = map lit (take 10 progress), site_stamps = 4\<rparr>)"
  by (simp_all add: report_main_def report_steps lift_result_Inr lift_result_def fresh_site_def
      with_meta_def progress_def numeral_eq_Suc)

text \<open>The figures of the headline as texts, and the parts of the summary.\<close>

lemma figures:
  "text_nat 0 = lit ''0''" "text_nat 9 = lit ''9''" "text_nat 26 = lit ''26''" "text_nat 400 = lit ''400''"
  "dec_int 0 = lit ''0''"
  by (simp_all add: text_nat_def dec_int_def dec_nat.simps lit_def)

lemma summary_of:
  assumes "adversarial_attempts sec = 400" "adversarial_denied sec = 400" "unauthorized_unlocks sec = 0"
    "access_precision sec = 1" "access_recall sec = 1" "legit_commands scp' = 9" "legit_accepted scp' = 9"
    "cross_scope_attempts scp' = 26" "cross_scope_leaks scp' = 0" "sr_threads (single_room_race conc) = 32"
    "sr_successes (single_room_race conc) = 1" "sr_assigned (single_room_race conc) = 1"
    "double_booked_total conc = 0" "all_correct life"
  shows "summary_json m sec scp' conc life lat =
    [(lit ''meta'', m),
     (lit ''security'', JObj [(lit ''adversarial_attempts'', JInt 400), (lit ''adversarial_denied'', JInt 400),
        (lit ''unauthorized_unlocks'', JInt 0), (lit ''access_precision'', JFloat (Finite 4503599627370496 (- 52))),
        (lit ''access_recall'', JFloat (Finite 4503599627370496 (- 52))),
        (lit ''adversarial_categories'', JArr (map JStr (adversarial_categories sec)))]),
     (lit ''connected_room'', JObj [(lit ''cross_scope_attempts'', JInt 26), (lit ''cross_scope_leaks'', JInt 0),
        (lit ''legit_accepted'', JStr (lit ''9/9''))]),
     (lit ''no_double_book'', JObj [(lit ''single_room_race'', JObj [(lit ''threads'', JInt 32),
          (lit ''successes'', JInt 1), (lit ''assignments_for_room'', JInt 1)]),
        (lit ''double_booked_total'', JInt 0)]),
     (lit ''lifecycle_all_correct'', JBool True),
     (lit ''latency'', JObj [(lit ''offline_verify_p50_ms'', jfloat (p50_ms (offline_verify lat))),
        (lit ''offline_verify_p95_ms'', jfloat (p95_ms (offline_verify lat))),
        (lit ''offline_verify_throughput_per_sec'', jfloat (verifications_per_sec lat)),
        (lit ''key_issuance_p95_ms'', jfloat (p95_ms (key_issuance lat)))])]"
  by (simp add: summary_json_def assms scp_none_def jnat_def jfloat_def double_of_one figures lit_append)

lemma headline_of:
  assumes "adversarial_attempts sec = 400" "unauthorized_unlocks sec = 0"
    "access_precision sec = 1" "access_recall sec = 1"
    "cross_scope_attempts scp' = 26" "cross_scope_leaks scp' = 0" "double_booked_total conc = 0"
    "one = float_repr P (Finite 4503599627370496 (- 52))"
  shows "headline_lines P sec scp' conc lat =
    [10 # lit ''Headline:'', lit ''  unauthorized unlocks : 0 / 400 adversarial'',
     lit ''  access precision/recall: '' @ one @ lit ''/'' @ one,
     lit ''  cross-room leaks     : 0 / 26'', lit ''  double-booked        : 0'',
     lit ''  offline verify p50/p95: '' @ float_repr P (double_of (p50_ms (offline_verify lat))) @
       lit ''/'' @ float_repr P (double_of (p95_ms (offline_verify lat))) @ lit '' ms'',
     lit ''  verify throughput     : '' @ float_repr P (double_of (verifications_per_sec lat)) @ lit ''/s'',
     lit ''  key issuance p95      : '' @ float_repr P (double_of (p95_ms (key_issuance lat))) @ lit '' ms'']"
  by (simp add: headline_lines_def Let_def assms figures lit_append double_of_one)

section \<open>Property\<close>

text \<open>
  C5: The headline. Under a sound signature scheme, for any keys, ids and numbers the
  generators can draw, as long as no nonce or challenge is drawn twice, any schedules in
  which every racing thread gets its turns, and any clock readings between which the wall
  clock moves, the script runs all five benches and leaves six files: each bench's report
  under the time of its writing, and the summary, which is given field by field: 400
  adversarial attempts, all denied, none unlocked, precision and recall 1.0, no leak among
  26 out-of-scope controls, 9 of 9 legitimate controls, one of 32 racing threads with the
  room, no double booking, a correct life cycle, and the latency report's figures. It
  prints the progress and the headline with the same figures.
\<close>

theorem headline:
  assumes "suite_keys P sk1 attacker D (\<lambda>g. g \<in> range (\<lambda>j. snd (E j)))" "suite_draws D"
    and "inj (\<lambda>j. fst (E j))" "scope_draws P uuid2 f2 E2"
    and "uuids_ok uuid3 32" "uuids_ok uuid3' 40" "fair 32 ns3" "fair 40 ns3'"
    and "lifecycle_draws uuid4 f4 nonce4"
    and "\<forall>i. fresh_ok (f5 i) \<and> fresh_ok (f5' i)" "inj nonce5" "fl (snd wall - fst wall) \<noteq> 0"
    and "one = float_repr P (Finite 4503599627370496 (- 52))"
  shows "\<exists>sec scp conc life lat.
    security_run P sk1 attacker D E = Inr sec \<and> scope_run P sk2 uuid2 f2 E2 = Inr scp \<and>
    concurrency_run ns3 uuid3 ns3' uuid3' = Inr conc \<and> lifecycle_run P sk4 uuid4 f4 nonce4 = Inr life \<and>
    latency_run P sk5 attacker5 f5 nonce5 ns5 wall sk5' f5' ns5' = Inr lat \<and>
    report_main h P (Inr sec) (Inr scp) (Inr conc) (Inr life) (Inr lat) fresh_site = (Inr (), \<lparr>
      site_files =
       [(lit ''security.json'', with_meta h 0 (security_json sec)),
        (lit ''scope.json'', with_meta h 1 (scope_json scp)),
        (lit ''concurrency.json'', with_meta h 2 (concurrency_json conc)),
        (lit ''lifecycle.json'', with_meta h 3 (lifecycle_json life)),
        (lit ''latency.json'', with_meta h 4 (latency_json lat)),
        (lit ''summary.json'',
         [(lit ''meta'', meta_json h 5),
          (lit ''security'', JObj [(lit ''adversarial_attempts'', JInt 400), (lit ''adversarial_denied'', JInt 400),
             (lit ''unauthorized_unlocks'', JInt 0), (lit ''access_precision'', JFloat (Finite 4503599627370496 (- 52))),
             (lit ''access_recall'', JFloat (Finite 4503599627370496 (- 52))),
             (lit ''adversarial_categories'', JArr (map JStr (adversarial_categories sec)))]),
          (lit ''connected_room'', JObj [(lit ''cross_scope_attempts'', JInt 26), (lit ''cross_scope_leaks'', JInt 0),
             (lit ''legit_accepted'', JStr (lit ''9/9''))]),
          (lit ''no_double_book'', JObj [(lit ''single_room_race'', JObj [(lit ''threads'', JInt 32),
               (lit ''successes'', JInt 1), (lit ''assignments_for_room'', JInt 1)]),
             (lit ''double_booked_total'', JInt 0)]),
          (lit ''lifecycle_all_correct'', JBool True),
          (lit ''latency'', JObj [(lit ''offline_verify_p50_ms'', jfloat (p50_ms (offline_verify lat))),
             (lit ''offline_verify_p95_ms'', jfloat (p95_ms (offline_verify lat))),
             (lit ''offline_verify_throughput_per_sec'', jfloat (verifications_per_sec lat)),
             (lit ''key_issuance_p95_ms'', jfloat (p95_ms (key_issuance lat)))])])],
      site_printed = map lit progress @
       [10 # lit ''Headline:'', lit ''  unauthorized unlocks : 0 / 400 adversarial'',
        lit ''  access precision/recall: '' @ one @ lit ''/'' @ one,
        lit ''  cross-room leaks     : 0 / 26'', lit ''  double-booked        : 0'',
        lit ''  offline verify p50/p95: '' @ float_repr P (double_of (p50_ms (offline_verify lat))) @
          lit ''/'' @ float_repr P (double_of (p95_ms (offline_verify lat))) @ lit '' ms'',
        lit ''  verify throughput     : '' @ float_repr P (double_of (verifications_per_sec lat)) @ lit ''/s'',
        lit ''  key issuance p95      : '' @ float_repr P (double_of (p95_ms (key_issuance lat))) @ lit '' ms''],
      site_stamps = 6\<rparr>)"
proof -
  have ed: "ed25519 P" using assms(1) by (simp add: suite_keys_def)
  obtain sec where sec: "security_run P sk1 attacker D E = Inr sec" "adversarial_attempts sec = 400"
    "adversarial_denied sec = 400" "unauthorized_unlocks sec = 0" "access_precision sec = 1" "access_recall sec = 1"
    using security_run_result [OF assms(1-3)] by blast
  obtain scp' where scp: "scope_run P sk2 uuid2 f2 E2 = Inr scp'" "legit_commands scp' = 9"
    "legit_accepted scp' = 9" "cross_scope_attempts scp' = 26" "cross_scope_leaks scp' = 0"
    using scope_run_result [OF ed assms(4)] by blast
  obtain lat where lat: "latency_run P sk5 attacker5 f5 nonce5 ns5 wall sk5' f5' ns5' = Inr lat"
    using latency_run_result [OF ed assms(10-12)] by blast
  obtain conc where conc: "concurrency_run ns3 uuid3 ns3' uuid3' = Inr conc"
    "sr_threads (single_room_race conc) = 32" "sr_successes (single_room_race conc) = 1"
    "sr_assigned (single_room_race conc) = 1" "double_booked_total conc = 0"
    using concurrency_run_result [OF assms(5-8)] by simp
  obtain life where life: "lifecycle_run P sk4 uuid4 f4 nonce4 = Inr life" "all_correct life"
    using lifecycle_bench [OF ed assms(9)] by simp
  note summary = summary_of [OF sec(2-6) scp(2-5) conc(2-5) life(2)]
  note lines = headline_of [OF sec(2,4-6) scp(4,5) conc(5) assms(13)]
  show ?thesis
    by (intro exI conjI, rule sec(1), rule scp(1), rule conc(1), rule life(1), rule lat)
      (simp only: report_main_runs summary lines)
qed

text \<open>A scheme whose signature is the key followed by the message, fixed draws, and turns in rounds.\<close>

definition report_platform :: "(byte, byte) platform" where
  "report_platform = strict_platform\<lparr>float_repr := (\<lambda>_. lit ''1.0'')\<rparr>"

definition report_host :: host where
  "report_host = \<lparr>measured_at = (\<lambda>i. lit ''2026-01-01T00:00:00+00:00''), python_version = lit ''3.12.1'',
     cryptography_version = lit ''42.0.0'', platform_text = lit ''Linux''\<rparr>"

definition report_fresh :: "nat \<Rightarrow> byte fresh" where
  "report_fresh i = \<lparr>fresh_sk = 3, fresh_uuid = [100 + i mod 10], fresh_hex = lit ''00''\<rparr>"

definition report_nonce :: "nat \<Rightarrow> bytes" where
  "report_nonce i = replicate i 0"

lemma report_draws:
  "suite_keys report_platform 1 2 fixed_draws (\<lambda>g. g \<in> range (\<lambda>j. snd (report_nonce j, 4)))"
  "suite_draws fixed_draws" "inj report_nonce" "\<forall>i. fresh_ok (report_fresh i) \<and> fresh_ok (report_fresh i)"
  "lifecycle_draws (\<lambda>i. [100 + i mod 10]) report_fresh report_nonce"
  "scope_draws report_platform (\<lambda>i. [100 + i mod 10]) report_fresh (\<lambda>i. (report_nonce i, 4))"
proof -
  have scalar: "is_scalar (100 + i mod 10)" for i :: nat by (rule ascii_scalar) presburger
  show "suite_keys report_platform 1 2 fixed_draws (\<lambda>g. g \<in> range (\<lambda>j. snd (report_nonce j, 4)))"
    by (auto simp: suite_keys_def ed25519_def signs_one_def keys_apart_def report_platform_def
        strict_platform_def fixed_draws_def)
  show "suite_draws fixed_draws"
    by (simp add: suite_draws_def fixed_draws_def fresh_ok_def wrong_rooms_def)
  show inj: "inj report_nonce" unfolding report_nonce_def by (rule injI) (metis length_replicate)
  show fresh: "\<forall>i. fresh_ok (report_fresh i) \<and> fresh_ok (report_fresh i)"
    by (simp add: fresh_ok_def text_ok_def scalar report_fresh_def lit_def ascii_scalar)
  have clean: "clean [100 + i mod 10]" for i :: nat
    using mod_less_divisor [of 10 i]
    by (auto simp: clean_def is_scalar_def is_high_surrogate_def is_low_surrogate_def)
  show "lifecycle_draws (\<lambda>i. [100 + i mod 10]) report_fresh report_nonce"
    unfolding lifecycle_draws_def using fresh inj clean by (simp add: report_fresh_def)
  show "scope_draws report_platform (\<lambda>i. [100 + i mod 10]) report_fresh (\<lambda>i. (report_nonce i, 4))"
    unfolding scope_draws_def using fresh inj clean
    by (simp add: report_fresh_def report_platform_def strict_platform_def)
qed

theorem headline_witness:
  "\<exists>sec scp conc life lat site.
    security_run report_platform 1 2 fixed_draws (\<lambda>i. (report_nonce i, 4)) = Inr sec \<and>
    latency_run report_platform 1 2 report_fresh report_nonce (\<lambda>i. (0, 150000)) (0, 1) 5
         report_fresh (\<lambda>i. (0, 90000)) = Inr lat \<and>
    report_main report_host report_platform (Inr sec) (Inr scp) (Inr conc) (Inr life) (Inr lat) fresh_site =
      (Inr (), site) \<and>
    lit ''  unauthorized unlocks : 0 / 400 adversarial'' \<in> set (site_printed site)"
proof -
  have inj: "inj (\<lambda>j. fst (report_nonce j, 4 :: byte))" using report_draws(3) by simp
  have wall: "fl (snd (0, 1) - fst (0, 1)) \<noteq> 0" by simp
  have uuids: "uuids_ok (\<lambda>k. [100 + k mod 1000]) 32" "uuids_ok (\<lambda>k. [100 + k mod 1000]) 40"
    by (rule sample_uuids, simp)+
  from headline [OF report_draws(1,2) inj report_draws(6) uuids fair_rounds fair_rounds
      report_draws(5,4,3) wall refl, of 1 1 1 2 "\<lambda>i. (0, 150000)" 5 "\<lambda>i. (0, 90000)" report_host]
  show ?thesis
    by (elim exE conjE) (intro exI conjI, assumption, assumption, assumption, simp)
qed

end
