(* ===== verification/Spec2Isabelle.thy ===== *)
theory Spec2Isabelle
  imports Lock_Properties Reservation_Properties Lifecycle_Properties Connected_Properties Api_Properties
    Store_Ledger Token_Properties Security_Properties Concurrency_Properties
    Lifecycle_Bench_Properties Scope_Properties Demo_Properties Serial Row_Types Dormant_Keys
    Latency_Properties Lock_Race Bench_Report_Properties
begin

text \<open>
  StayKey, a hotel's digital-key and room-access service (\<open>src/\<close>, Python), as HOL
  functions over explicit states, with the theorems that make it correct.

  \<^bold>\<open>The program.\<close> A property holds an Ed25519 key pair. For a reserved stay it assigns a
  room, and at check-in issues a signed credential that binds the stay, the room, a time
  window and a device key. A door lock works offline: it holds the property's public key,
  its own room and a copy of the revocation list; it hands out a random challenge, and
  opens for a token whose signature, property, room, window and revocation status are
  right and whose device signed the live challenge. The connected-room authorizer decides
  room controls online by the same checks and the database. Checkout and room change
  revoke keys; locks learn of it when they are synchronised. The HTTP API ties the parts
  together over one \<open>AppState\<close>: routes call the database and the life cycle, unlock routes
  synchronise a lock and ask it, control routes ask the authorizer.

  \<^bold>\<open>Conventions.\<close> A Python \<open>str\<close> is a list of code points, \<open>bytes\<close> a list of \<open>8 word\<close>, an
  \<open>int\<close> (epoch seconds, ids) an \<open>int\<close>; the one place where a width matters is binding an
  integer to an SQLite statement, where what exceeds 63 bits and a sign raises
  (\<open>Db.fits\<close>). A call that may raise returns \<open>exn + 'a\<close>; a call with state is an
  \<open>('s, 'a) exec\<close>, which gives the state on both paths, because the database commits each
  statement by itself and what ran before a raise stays. A dictionary is an association
  list with distinct keys in insertion order, since the order reaches the signed bytes.
  Random draws (nonces, uuids, generated keys) and the clock are arguments of the calls
  that draw them.

  \<^bold>\<open>Theories and the code they model.\<close>
  \<^item> \<open>Prelude\<close>: the exceptions, the \<open>exec\<close> computations and their loops, what a computation
    keeps (\<open>keeps\<close>, collection \<open>keeps_intros\<close>), the interface \<open>codec\<close>.
  \<^item> \<open>Errors\<close>: \<open>config.py\<close>, \<open>errors.py\<close>: constants, \<open>DenyReason\<close>, \<open>Decision\<close>.
  \<^item> \<open>Base64\<close>, \<open>Text_Codec\<close>, \<open>Json\<close>, \<open>Pyvalue\<close>: what \<open>credential.py\<close> uses of the standard
    library: lenient base64, UTF-8 with surrogates, \<open>json.dumps\<close> with sorted keys and
    \<open>json.loads\<close> with their limits on digits and nesting, \<open>int(v)\<close>, \<open>str(v)\<close> and comparison
    on values of unknown type. \<open>Json_Facts\<close>: what is printed reads back, and when reading
    raises. \<open>Floats\<close>: the double of a number, \<open>round\<close> and \<open>sum\<close>.
  \<^item> \<open>Credential\<close>: \<open>credential.py\<close>: \<open>issue_credential\<close>, \<open>parse_token\<close>, \<open>signature_ok\<close>,
    \<open>evaluate_static\<close>, \<open>device_sign\<close>. \<open>Credential_Facts\<close>: the checks in closed form.
    \<open>Token_Properties\<close>: round trips, bounds, the scanner's fuel, and what becomes of
    unsigned text: denied, or a \<open>RecursionError\<close> that leaves the verifier.
  \<^item> \<open>Antireplay\<close>: \<open>antireplay.py\<close>, the challenge store, and the interface \<open>nonce_store\<close>
    the lock and the authorizer rely on. \<open>Store_Ledger\<close>: the store with its garbage
    collection simulates a ledger that forgets nothing.
  \<^item> \<open>Lock\<close>: \<open>lock.py\<close>. \<open>Lock_Properties\<close>: single use of challenges over whole runs, no
    opening without a credential the property issued and the device's signature, and the
    decision for every issued credential. \<open>Lock_Guard\<close>: a lock through many presentations,
    and its verdict on an issued key. \<open>Lock_Race\<close>: \<open>finish_unlock\<close> as the steps between
    which other threads run: what every opening has earned under any interleaving, that a
    late replay and a revoked key stay out, and that presentations which look up before
    any of them spends its challenge all open, also those of one response. \<open>Sample_Platform\<close>: a concrete platform.
  \<^item> \<open>Db\<close>: \<open>db.py\<close>: rows, every statement with its constraints and binding errors.
    \<open>Db_Facts\<close>: the store invariant (\<open>db_ok\<close>) and that every statement keeps it.
  \<^item> \<open>Reservation\<close>: \<open>reservation.py\<close>. \<open>Reservation_Facts\<close>: the interface \<open>booking_ledger\<close>
    (check, book and release) interpreted on the store; the operations in closed form.
    \<open>Race\<close>: callers as pairs of steps, the read of the stay and the transaction, and their
    interleavings. \<open>Pool_Race\<close>: more callers than rooms. \<open>Sample_Hotel\<close>: a small store.
    \<open>Reservation_Properties\<close>: no double booking under any interleaving, one winner,
    the room found is the least free one, failures leave nothing behind. \<open>Serial\<close>: every
    schedule of calls for different stays equals a serial run of the functions.
  \<^item> \<open>Keys\<close>, \<open>Lifecycle\<close>: \<open>keys.py\<close>, \<open>lifecycle.py\<close>. \<open>Lifecycle_Facts\<close>,
    \<open>Lifecycle_Properties\<close>: the window in which a stay's key opens its door, what checkout,
    refresh and room change revoke, also when they fail half way.
  \<^item> \<open>Connected_Room\<close>: \<open>connectedroom.py\<close>. \<open>Connected_Facts\<close>, \<open>Connected_Properties\<close>: the
    scope of an allowed command.
  \<^item> \<open>App_State\<close>, \<open>Api\<close>: \<open>app_state.py\<close>, \<open>api.py\<close>, \<open>models.py\<close>: the registry of locks,
    one handler for each route, the envelope with its status. \<open>Api_Facts\<close>,
    \<open>Api_Properties\<close>: the invariants every history of requests keeps, an unlock at a door
    in terms of the database, requests whose failure leaves something behind.
    \<open>Row_History\<close>: the interface \<open>row_invariant\<close>, what the statements keep of the rows holds
    after any history of requests. \<open>Row_Types\<close>: which values the columns hold.
    \<open>Dormant_Keys\<close>: keys set inactive without being revoked are never revoked later.
  \<^item> \<open>Adversarial\<close>, \<open>Security_Properties\<close>: \<open>bench/adversarial.py\<close>, \<open>bench/security.py\<close>,
    and their claimed result for every draw of the generators.
  \<^item> \<open>Concurrency_Bench\<close>, \<open>Concurrency_Properties\<close>: \<open>bench/concurrency.py\<close> under every
    fair schedule.
  \<^item> \<open>Lifecycle_Bench\<close>, \<open>Lifecycle_Bench_Properties\<close>: \<open>bench/lifecycle_bench.py\<close>: all its
    checks pass. \<open>Bench_Facts\<close>: what the benches over one application share: a guest
    arrives, gets a key, presents it at a lock of the registry, changes rooms.
  \<^item> \<open>Scope_Bench\<close>, \<open>Scope_Facts\<close>, \<open>Scope_Properties\<close>: \<open>bench/scope.py\<close>: the decision on a
    control by a guest's key in closed form, and the counts of the bench.
  \<^item> \<open>Latency_Bench\<close>, \<open>Latency_Properties\<close>: \<open>bench/latency.py\<close>: the timed loops and the
    statistics in float arithmetic, for any readings of the clock.
  \<^item> \<open>Bench_Report\<close>, \<open>Bench_Report_Properties\<close>: \<open>bench/run_all.py\<close>: the reports as JSON, the
    summary and the headline, and what they say when the benches of the other theories run.
  \<^item> \<open>Demo\<close>, \<open>Demo_Properties\<close>: \<open>scripts/demo_offline_unlock.py\<close>, down to the text it prints:
    its whole transcript.

  \<^bold>\<open>Fuel and bounds.\<close> The JSON scanner recurses with fuel \<open>2 * length + 1\<close>: each call for a
  value or a member list consumes a character or hands the same text to one other call, so
  the fuel outlasts the text (\<open>scanner_fuel_suffices\<close>). The interpreter's own limit is
  another matter: \<open>nesting_limit\<close> is the number of nested arrays and objects that
  \<open>json.loads\<close> reads and \<open>json.dumps\<close> writes before they raise \<open>RecursionError\<close>. A schedule is a finite
  list of caller indices in which every caller has its two steps; callers that have
  finished ignore further turns.

  \<^bold>\<open>Parameters.\<close> \<open>platform\<close> stands for the \<open>cryptography\<close> package's Ed25519 and for the
  Unicode and float tables of the interpreter. \<open>ed25519\<close> states its documented behaviour: a
  signature made with a key verifies under its public key, and raw keys load back.
  Unforgeability is never assumed of all signatures: where a theorem needs it, a
  hypothesis limits what verifies among the tokens and keys at hand (\<open>unforged\<close>,
  \<open>signs_one\<close>, \<open>keys_apart\<close>).
  How deep the interpreter can nest depends on its version and on the stack at the call:
  \<open>spare_nesting\<close> is what it can do beyond 100 levels, any number, taken to be the same for
  all calls. \<open>str\<close> and comparison of a signed payload's values are not limited again.
  The PEM reader and writer are arguments of \<open>load_or_create_property_key\<close>.

  \<^bold>\<open>Not modelled.\<close> The database file, its pragmas and the 30-second busy timeout of
  \<open>BEGIN IMMEDIATE\<close>: a transaction is one step, and so is issuing a challenge, whose scan
  for expired entries is not interleaved. FastAPI's routing and decoding of bodies
  and the texts of errors: handlers take typed bodies. \<open>new_challenge\<close>, which has no
  caller. \<open>tests/\<close>. Of \<open>bench/run_all.py\<close> the layout of the JSON text it writes (a file
  holds the value) and the creation of the directory.
  Floating point is the double arithmetic of the interpreter (round to nearest, ties to
  even; \<open>sum\<close> as in Python 3.12, with compensation) over rationals that are doubles;
  overflow is left out, as clock readings are machine integers.
  The clock override of the request bodies is modelled as it is, a client's choice.
\<close>

end
